theory Spec2Isabelle
  imports Main "HOL-Library.AList"
begin

section \<open>Python strings\<close>

text \<open>
  A Python \<open>str\<close> is modelled as a \<open>string\<close>, one \<open>char\<close> per code point, for
  text over the code points U+0000..U+00FF. Offsets and lengths count code points, as
  Python's do. A case mapping whose result lies beyond U+00FF cannot be written here.
\<close>

text \<open>\<open>text.startswith(p)\<close>.\<close>

definition startswith :: "string \<Rightarrow> string \<Rightarrow> bool" where
  "startswith text p = (take (length p) text = p)"

text \<open>
  The scan behind \<open>str.find\<close>: \<open>find_from sub s i\<close> walks the text \<open>s\<close>, whose first
  character stands at offset \<open>i\<close> of the whole string, and stops at the first offset
  where \<open>sub\<close> occurs.
\<close>

fun find_from :: "string \<Rightarrow> string \<Rightarrow> nat \<Rightarrow> nat option" where
  "find_from sub [] i = (if sub = [] then Some i else None)"
| "find_from sub (c # cs) i =
     (if startswith (c # cs) sub then Some i else find_from sub cs (Suc i))"

text \<open>\<open>text.find(sub, start)\<close> for \<open>start \<ge> 0\<close>: the lowest offset, or \<open>-1\<close>.\<close>

definition py_find :: "string \<Rightarrow> string \<Rightarrow> nat \<Rightarrow> int" where
  "py_find text sub start =
     (if length text < start then - 1
      else case find_from sub (drop start text) start of
             None \<Rightarrow> - 1
           | Some i \<Rightarrow> int i)"

text \<open>
  \<open>str.isspace\<close> on one character: the code points below 256 that Python counts as
  whitespace are 9..13, 28..31, 32, 133 and 160.
\<close>

definition py_isspace :: "char \<Rightarrow> bool" where
  "py_isspace c =
     (let n = (of_char c :: nat)
      in (9 \<le> n \<and> n \<le> 13) \<or> (28 \<le> n \<and> n \<le> 32) \<or> n = 133 \<or> n = 160)"

text \<open>\<open>s.lstrip()\<close>, \<open>s.rstrip()\<close> and \<open>s.strip()\<close> with no argument.\<close>

definition lstrip :: "string \<Rightarrow> string" where
  "lstrip s = dropWhile py_isspace s"

definition rstrip :: "string \<Rightarrow> string" where
  "rstrip s = rev (dropWhile py_isspace (rev s))"

definition strip :: "string \<Rightarrow> string" where
  "strip s = lstrip (rstrip s)"

text \<open>
  \<open>str.title()\<close> walks the text once: a character that follows a cased character is
  replaced by its lower case, any other by its title case. Which characters are cased
  and what their title case and lower case are is given by the case tables of the
  Unicode database that the Python runtime carries. They are not code of this
  repository, so they are a parameter; a case mapping may give more than one character.
\<close>

record casing =
  cased :: "char \<Rightarrow> bool"
  title_case :: "char \<Rightarrow> string"
  lower_case :: "char \<Rightarrow> string"

fun title_from :: "casing \<Rightarrow> bool \<Rightarrow> string \<Rightarrow> string" where
  "title_from U previous_is_cased [] = []"
| "title_from U previous_is_cased (c # cs) =
     (if previous_is_cased then lower_case U c else title_case U c)
     @ title_from U (cased U c) cs"

definition py_title :: "casing \<Rightarrow> string \<Rightarrow> string" where
  "py_title U s = title_from U False s"

text \<open>
  The case tables on the ASCII characters, where the letters \<open>A\<close> to \<open>Z\<close> and \<open>a\<close> to \<open>z\<close>
  are the cased characters. They are the tables of the examples, whose keys are ASCII;
  beyond ASCII they say nothing about Python.
\<close>

definition is_ascii_letter :: "char \<Rightarrow> bool" where
  "is_ascii_letter c =
     (let n = (of_char c :: nat) in (65 \<le> n \<and> n \<le> 90) \<or> (97 \<le> n \<and> n \<le> 122))"

definition ascii_upper :: "char \<Rightarrow> char" where
  "ascii_upper c =
     (let n = (of_char c :: nat) in if 97 \<le> n \<and> n \<le> 122 then char_of (n - 32) else c)"

definition ascii_lower :: "char \<Rightarrow> char" where
  "ascii_lower c =
     (let n = (of_char c :: nat) in if 65 \<le> n \<and> n \<le> 90 then char_of (n + 32) else c)"

definition ascii_casing :: casing where
  "ascii_casing =
     \<lparr>cased = is_ascii_letter,
      title_case = (\<lambda>c. [ascii_upper c]),
      lower_case = (\<lambda>c. [ascii_lower c])\<rparr>"

text \<open>
  The same tables with the entries of one more pair of letters: U+00E9, small e with
  acute, is cased and has the title case U+00C9; U+00C9 is cased and has the lower case
  U+00E9.
\<close>

definition with_e_acute :: casing where
  "with_e_acute =
     \<lparr>cased = (\<lambda>c. is_ascii_letter c \<or> c = CHR 0xE9 \<or> c = CHR 0xC9),
      title_case = (\<lambda>c. if c = CHR 0xE9 then [CHR 0xC9] else [ascii_upper c]),
      lower_case = (\<lambda>c. if c = CHR 0xC9 then [CHR 0xE9] else [ascii_lower c])\<rparr>"

text \<open>\<open>s.replace(old, new)\<close> where \<open>old\<close> and \<open>new\<close> are one character each.\<close>

definition replace_char :: "char \<Rightarrow> char \<Rightarrow> string \<Rightarrow> string" where
  "replace_char old new s = map (\<lambda>c. if c = old then new else c) s"

text \<open>
  The last element of \<open>s.strip().splitlines()\<close>, when there is one. The line boundaries
  below code point 256 are 10..13, 28..30 and 133; all of them are whitespace, so a
  stripped text never ends in one.
\<close>

definition is_linebreak :: "char \<Rightarrow> bool" where
  "is_linebreak c =
     (let n = (of_char c :: nat) in (10 \<le> n \<and> n \<le> 13) \<or> (28 \<le> n \<and> n \<le> 30) \<or> n = 133)"

definition last_line :: "string \<Rightarrow> string option" where
  "last_line s =
     (if strip s = [] then None
      else Some (rev (takeWhile (\<lambda>c. \<not> is_linebreak c) (rev (strip s)))))"

definition is_hex_lower :: "char \<Rightarrow> bool" where
  "is_hex_lower c =
     (let n = (of_char c :: nat) in (48 \<le> n \<and> n \<le> 57) \<or> (97 \<le> n \<and> n \<le> 102))"

section \<open>Content transform\<close>

text \<open>
  \<^verbatim>\<open>
  def strip_front_matter(text: str) -> str:
      if text.startswith("---"):
          end = text.find("\n---", 3)
          if end != -1:
              return text[end + 4:].lstrip()
      return text
  \<close>
\<close>

definition strip_front_matter :: "string \<Rightarrow> string" where
  "strip_front_matter text =
     (if startswith text ''---'' then
        (let end = py_find text ''\<newline>---'' 3
         in if end \<noteq> - 1 then lstrip (drop (nat (end + 4)) text) else text)
      else text)"

section \<open>Values, errors and effects\<close>

text \<open>
  A decoded JSON response. An object is an association list read with \<open>map_of\<close>.
  Numbers are integers; floating-point numbers are not represented.
\<close>

datatype json =
    JNull
  | JBool bool
  | JNum int
  | JStr string
  | JList "json list"
  | JObj "(string \<times> json) list"

text \<open>
  A value loaded from YAML, with the same reading of mappings. Floating-point numbers
  and timestamps are not represented.
\<close>

datatype yaml =
    YNull
  | YBool bool
  | YInt int
  | YStr string
  | YList "yaml list"
  | YMap "(yaml \<times> yaml) list"

text \<open>
  \<open>pathlib\<close> paths are kept as the expressions that build them: \<open>Path(s)\<close>,
  \<open>p.parent\<close> and \<open>p / q\<close>. The file system interprets them.
\<close>

datatype path = Path string | Parent path | Join path path

text \<open>
  An f-string is kept as its pieces in order, the literal text and the values put into
  it; how Python prints a value that is not a string is not modelled.
\<close>

datatype frag =
    Lit string
  | Repr string
  | VBytes string
  | VNat nat
  | VJson json
  | VYaml yaml
  | VPath path

text \<open>
  The exceptions of a run. \<open>SystemExit n\<close> is \<open>sys.exit(n)\<close>; \<open>RequestException\<close> stands for
  every transport failure of \<open>requests\<close> (refused connection, timeout); \<open>HTTPError\<close> is
  what \<open>raise_for_status\<close> raises.
\<close>

datatype py_error =
    SystemExit int
  | RequestException
  | HTTPError nat
  | JSONDecodeError
  | YAMLError
  | RuntimeError "frag list"
  | TimeoutError "frag list"
  | AttributeError
  | TypeError
  | KeyError
  | IndexError
  | FileNotFoundError
  | OSError

datatype form_val = FStr string | FInt int | FVal json | FText "frag list"

datatype meth = GET | POST

text \<open>
  One HTTP request: the session it is sent through (\<open>None\<close> for the module-level
  \<open>requests.get\<close> and \<open>requests.post\<close>), the query parameters and the form fields.
  Time-outs and the redirect flag are left out.
\<close>

record http_request =
  meth :: meth
  url :: string
  via :: "nat option"
  query :: "(string \<times> form_val) list"
  form :: "(string \<times> form_val) list"

datatype http_reply = Failed | Reply nat string

text \<open>
  The result of \<open>subprocess.run\<close>: the program could not be started, or it ran and left
  a return code, its standard output and its standard error.
\<close>

datatype proc_result = NotStarted | Exited int string string

text \<open>What a run does to the outside, in the order it does it.\<close>

datatype event =
    Http http_request
  | OpenSession nat
  | Exec "string list"
  | Exists path
  | ReadText path
  | WriteText path string
  | Sleep nat
  | Print "frag list"
  | PrintError "frag list" py_error

text \<open>
  The collaborators that are not code of this repository: the LMS and the container
  host answer requests from a state \<open>'w\<close> of their own; the JSON and YAML decoders and
  the Markdown converter are functions; \<open>cli_script\<close> is the text of the constant
  \<open>MOODLE_CLI_SCRIPT\<close>; \<open>case_tables\<close> are the case tables that \<open>str.title\<close> reads.
\<close>

record 'w platform =
  http :: "'w \<Rightarrow> http_request \<Rightarrow> http_reply \<times> 'w"
  exec :: "'w \<Rightarrow> string list \<Rightarrow> proc_result \<times> 'w"
  json_loads :: "string \<Rightarrow> json option"
  yaml_safe_load :: "string \<Rightarrow> py_error + yaml"
  markdown :: "string \<Rightarrow> string"
  cli_script :: string
  case_tables :: casing

text \<open>
  The state of a run: the outside world, the files (a path that exists maps to its
  text, or to the error that reading it raises), the clock in seconds, the number of
  sessions opened so far, and the trace of events. Writing a file always succeeds, and
  only \<open>time.sleep\<close> moves the clock.
\<close>

record 'w state =
  remote :: 'w
  fs :: "path \<Rightarrow> (py_error + string) option"
  clock :: nat
  sessions :: nat
  trace :: "event list"

type_synonym ('w, 'a) io = "'w state \<Rightarrow> (py_error + 'a) \<times> 'w state"

definition ret :: "'a \<Rightarrow> ('w, 'a) io" where
  "ret x s = (Inr x, s)"

definition raise :: "py_error \<Rightarrow> ('w, 'a) io" where
  "raise e s = (Inl e, s)"

definition lift :: "py_error + 'a \<Rightarrow> ('w, 'a) io" where
  "lift r s = (r, s)"

definition and_then :: "('w, 'a) io \<Rightarrow> ('a \<Rightarrow> ('w, 'b) io) \<Rightarrow> ('w, 'b) io" where
  "and_then m f s = (case m s of (Inl e, s') \<Rightarrow> (Inl e, s') | (Inr x, s') \<Rightarrow> f x s')"

definition emit :: "event \<Rightarrow> ('w, unit) io" where
  "emit ev s = (Inr (), s\<lparr>trace := trace s @ [ev]\<rparr>)"

text \<open>\<open>print(f"...")\<close>: the pieces and the newline that ends the line.\<close>

definition print :: "frag list \<Rightarrow> ('w, unit) io" where
  "print ps = emit (Print (ps @ [Lit ''\<newline>'']))"

text \<open>One request through \<open>requests\<close>: it is logged and the world answers.\<close>

definition send :: "'w platform \<Rightarrow> http_request \<Rightarrow> ('w, http_reply) io" where
  "send P req s =
     (let (reply, w') = http P (remote s) req
      in (Inr reply, s\<lparr>remote := w', trace := trace s @ [Http req]\<rparr>))"

text \<open>A request that raises on a transport failure, as every call outside a \<open>try\<close> does.\<close>

definition request :: "'w platform \<Rightarrow> http_request \<Rightarrow> ('w, nat \<times> string) io" where
  "request P req =
     and_then (send P req) (\<lambda>reply.
       case reply of Failed \<Rightarrow> raise RequestException | Reply status body \<Rightarrow> ret (status, body))"

definition path_exists :: "path \<Rightarrow> ('w, bool) io" where
  "path_exists p s = (Inr (fs s p \<noteq> None), s\<lparr>trace := trace s @ [Exists p]\<rparr>)"

definition read_text :: "path \<Rightarrow> ('w, string) io" where
  "read_text p s =
     ((case fs s p of None \<Rightarrow> Inl FileNotFoundError | Some r \<Rightarrow> r),
      s\<lparr>trace := trace s @ [ReadText p]\<rparr>)"

definition write_text :: "path \<Rightarrow> string \<Rightarrow> ('w, unit) io" where
  "write_text p text s =
     (Inr (), s\<lparr>fs := (fs s)(p \<mapsto> Inr text), trace := trace s @ [WriteText p text]\<rparr>)"

section \<open>Python operations on decoded values\<close>

text \<open>\<open>d.get(key, default)\<close> on a decoded response: only a mapping has \<open>get\<close>.\<close>

definition json_get :: "json \<Rightarrow> string \<Rightarrow> json \<Rightarrow> py_error + json" where
  "json_get d key dflt =
     (case d of
        JObj kvs \<Rightarrow> Inr (case map_of kvs key of Some v \<Rightarrow> v | None \<Rightarrow> dflt)
      | _ \<Rightarrow> Inl AttributeError)"

text \<open>Truth value of a decoded response, as \<open>if courses:\<close> reads it.\<close>

definition truthy :: "json \<Rightarrow> bool" where
  "truthy v =
     (case v of
        JNull \<Rightarrow> False
      | JBool b \<Rightarrow> b
      | JNum n \<Rightarrow> n \<noteq> 0
      | JStr s \<Rightarrow> s \<noteq> []
      | JList xs \<Rightarrow> xs \<noteq> []
      | JObj kvs \<Rightarrow> kvs \<noteq> [])"

text \<open>
  \<open>v[0]\<close>: the first element of a list, the first character of a string; a mapping with
  string keys has no key \<open>0\<close>; nothing else can be subscripted.
\<close>

definition item0 :: "json \<Rightarrow> py_error + json" where
  "item0 v =
     (case v of
        JList xs \<Rightarrow> (case xs of [] \<Rightarrow> Inl IndexError | x # _ \<Rightarrow> Inr x)
      | JStr s \<Rightarrow> (case s of [] \<Rightarrow> Inl IndexError | c # _ \<Rightarrow> Inr (JStr [c]))
      | JObj kvs \<Rightarrow> Inl KeyError
      | _ \<Rightarrow> Inl TypeError)"

text \<open>\<open>v[key]\<close> with a string key: only a mapping takes one.\<close>

definition item :: "json \<Rightarrow> string \<Rightarrow> py_error + json" where
  "item v key =
     (case v of
        JObj kvs \<Rightarrow> (case map_of kvs key of Some x \<Rightarrow> Inr x | None \<Rightarrow> Inl KeyError)
      | _ \<Rightarrow> Inl TypeError)"

section \<open>Moodle REST helper\<close>

text \<open>
  \<^verbatim>\<open>
  def api(url, token, function, **params):
      resp = requests.post(f"{url}/webservice/rest/server.php",
                           data={"wstoken": token, "moodlewsrestformat": "json",
                                 "wsfunction": function, **params}, timeout=30)
      resp.raise_for_status()
      data = resp.json()
      if isinstance(data, dict) and "exception" in data:
          raise RuntimeError(f"Moodle API error [{function}]: {data.get('message', data)}")
      return data
  \<close>
  A keyword argument whose name is already a key of the dictionary replaces that
  entry in place, which is what \<open>AList.update\<close> does.
\<close>

definition api_request :: "string \<Rightarrow> string \<Rightarrow> string \<Rightarrow> (string \<times> form_val) list \<Rightarrow> http_request" where
  "api_request base token function params =
     \<lparr>meth = POST, url = base @ ''/webservice/rest/server.php'', via = None, query = [],
      form = foldl (\<lambda>d (k, v). AList.update k v d)
               [(''wstoken'', FStr token), (''moodlewsrestformat'', FStr ''json''),
                (''wsfunction'', FStr function)] params\<rparr>"

text \<open>What \<open>api\<close> does with the reply once it has arrived.\<close>

definition api_result :: "'w platform \<Rightarrow> string \<Rightarrow> nat \<times> string \<Rightarrow> py_error + json" where
  "api_result P function r =
     (case r of (status, body) \<Rightarrow>
        if 400 \<le> status \<and> status < 600 then Inl (HTTPError status)
        else case json_loads P body of
               None \<Rightarrow> Inl JSONDecodeError
             | Some data \<Rightarrow>
                 (case data of
                    JObj kvs \<Rightarrow>
                      (case map_of kvs ''exception'' of
                         Some _ \<Rightarrow>
                           Inl (RuntimeError
                                  [Lit ''Moodle API error ['', Lit function, Lit '']: '',
                                   VJson (case map_of kvs ''message'' of Some m \<Rightarrow> m | None \<Rightarrow> data)])
                       | None \<Rightarrow> Inr data)
                  | _ \<Rightarrow> Inr data))"

definition api :: "'w platform \<Rightarrow> string \<Rightarrow> string \<Rightarrow> string \<Rightarrow> (string \<times> form_val) list \<Rightarrow> ('w, json) io" where
  "api P base token function params =
     and_then (request P (api_request base token function params)) (\<lambda>r.
       lift (api_result P function r))"

section \<open>Course creation\<close>

definition CATEGORY_ID :: int where
  "CATEGORY_ID = 1"

definition lookup_params :: "string \<Rightarrow> (string \<times> form_val) list" where
  "lookup_params course_id = [(''field'', FStr ''idnumber''), (''value'', FStr course_id)]"

definition create_params :: "string \<Rightarrow> string \<Rightarrow> (string \<times> form_val) list" where
  "create_params course_id course_title =
     [(''courses[0][fullname]'', FStr course_title),
      (''courses[0][shortname]'', FStr (take 100 course_id)),
      (''courses[0][idnumber]'', FStr course_id),
      (''courses[0][categoryid]'', FInt CATEGORY_ID),
      (''courses[0][summary]'', FStr ''Auto-generated by MTAT upload script.''),
      (''courses[0][summaryformat]'', FInt 1),
      (''courses[0][format]'', FStr ''topics''),
      (''courses[0][visible]'', FInt 1)]"

text \<open>
  \<^verbatim>\<open>
  def ensure_course(url, token, course_id, course_title):
      existing = api(url, token, "core_course_get_courses_by_field",
                     field="idnumber", value=course_id)
      courses = existing.get("courses", [])
      if courses:
          moodle_id = courses[0]["id"]
          print(f"  Course already exists (id={moodle_id}): {course_title}")
          return moodle_id
      created = api(url, token, "core_course_create_courses", **{...})
      moodle_id = created[0]["id"]
      print(f"  Created course (id={moodle_id}): {course_title}")
      return moodle_id
  \<close>
\<close>

definition ensure_course :: "'w platform \<Rightarrow> string \<Rightarrow> string \<Rightarrow> string \<Rightarrow> string \<Rightarrow> ('w, json) io" where
  "ensure_course P base token course_id course_title =
     and_then (api P base token ''core_course_get_courses_by_field'' (lookup_params course_id)) (\<lambda>existing.
     and_then (lift (json_get existing ''courses'' (JList []))) (\<lambda>courses.
     if truthy courses then
       and_then (lift (item0 courses)) (\<lambda>first.
       and_then (lift (item first ''id'')) (\<lambda>moodle_id.
       and_then (print [Lit ''  Course already exists (id='', VJson moodle_id, Lit ''): '', Lit course_title]) (\<lambda>_.
       ret moodle_id)))
     else
       and_then (api P base token ''core_course_create_courses'' (create_params course_id course_title)) (\<lambda>created.
       and_then (lift (item0 created)) (\<lambda>first.
       and_then (lift (item first ''id'')) (\<lambda>moodle_id.
       and_then (print [Lit ''  Created course (id='', VJson moodle_id, Lit ''): '', Lit course_title]) (\<lambda>_.
       ret moodle_id))))))"

section \<open>Worlds for examples and reading a trace\<close>

text \<open>
  A scripted world hands out its HTTP replies and its process results in order, and
  fails when it has run out of them.
\<close>

definition scripted :: "(string \<Rightarrow> json option) \<Rightarrow> (string \<Rightarrow> py_error + yaml) \<Rightarrow> (http_reply list \<times> proc_result list) platform" where
  "scripted decode load =
     \<lparr>http = (\<lambda>w req. case w of ([], ps) \<Rightarrow> (Failed, ([], ps)) | (r # rs, ps) \<Rightarrow> (r, (rs, ps))),
      exec = (\<lambda>w argv. case w of (rs, []) \<Rightarrow> (NotStarted, (rs, [])) | (rs, p # ps) \<Rightarrow> (p, (rs, ps))),
      json_loads = decode,
      yaml_safe_load = load,
      markdown = (\<lambda>md. md),
      cli_script = [],
      case_tables = ascii_casing\<rparr>"

text \<open>A run starts with an empty trace.\<close>

definition initially :: "'w \<Rightarrow> (path \<Rightarrow> (py_error + string) option) \<Rightarrow> 'w state" where
  "initially w files = \<lparr>remote = w, fs = files, clock = 0, sessions = 0, trace = []\<rparr>"

text \<open>The HTTP requests of a trace, in order.\<close>

definition requests_of :: "event list \<Rightarrow> http_request list" where
  "requests_of evs = concat (map (\<lambda>ev. case ev of Http r \<Rightarrow> [r] | _ \<Rightarrow> []) evs)"

section \<open>Ledger grouping\<close>

text \<open>\<open>entry.get(key, default)\<close> on a value loaded from YAML: only a mapping has \<open>get\<close>.\<close>

definition yaml_get :: "yaml \<Rightarrow> string \<Rightarrow> yaml \<Rightarrow> py_error + yaml" where
  "yaml_get e key dflt =
     (case e of
        YMap kvs \<Rightarrow> Inr (case map_of kvs (YStr key) of Some v \<Rightarrow> v | None \<Rightarrow> dflt)
      | _ \<Rightarrow> Inl AttributeError)"

text \<open>Lists and mappings cannot be dictionary keys.\<close>

definition hashable :: "yaml \<Rightarrow> bool" where
  "hashable v = (case v of YList _ \<Rightarrow> False | YMap _ \<Rightarrow> False | _ \<Rightarrow> True)"

text \<open>
  Two values are the same dictionary key when Python's \<open>==\<close> holds between them:
  \<open>True == 1\<close> and \<open>False == 0\<close>.
\<close>

definition key_norm :: "yaml \<Rightarrow> yaml" where
  "key_norm v = (case v of YBool b \<Rightarrow> YInt (if b then 1 else 0) | _ \<Rightarrow> v)"

definition same_key :: "yaml \<Rightarrow> yaml \<Rightarrow> bool" where
  "same_key a b = (key_norm a = key_norm b)"

text \<open>
  One course of the grouping, the dictionary \<open>{"title": ..., "modules": {...}}\<close>. Both
  dictionaries of the result keep the order in which their keys were first inserted, so
  they are association lists.
\<close>

record course =
  title :: string
  modules :: "(yaml \<times> yaml list) list"

text \<open>\<open>modules.setdefault(mod_id, []).append(entry)\<close>.\<close>

fun setdefault_append :: "yaml \<Rightarrow> yaml \<Rightarrow> (yaml \<times> yaml list) list \<Rightarrow> (yaml \<times> yaml list) list" where
  "setdefault_append mod_id entry [] = [(mod_id, [entry])]"
| "setdefault_append mod_id entry ((k, vs) # ms) =
     (if same_key mod_id k then (k, vs @ [entry]) # ms
      else (k, vs) # setdefault_append mod_id entry ms)"

text \<open>
  \<^verbatim>\<open>
  def group_by_course(entries):
      courses = {}
      for entry in entries:
          course_id = entry.get("course_id", "mtat-preview")
          if course_id not in courses:
              courses[course_id] = {
                  "title": course_id.replace("-", " ").title(),
                  "modules": {},
              }
          mod_id = entry.get("module_id", entry.get("module_path", "unknown"))
          courses[course_id]["modules"].setdefault(mod_id, []).append(entry)
      return courses
  \<close>
  The keys of \<open>courses\<close> are strings: a \<open>course_id\<close> that cannot be hashed raises at
  \<open>not in\<close>, and any other that is not a string is no key yet and raises at \<open>replace\<close>.
\<close>

definition new_course :: "casing \<Rightarrow> string \<Rightarrow> course" where
  "new_course U course_id =
     \<lparr>title = py_title U (replace_char CHR ''-'' CHR '' '' course_id), modules = []\<rparr>"

definition group_entry :: "casing \<Rightarrow> yaml \<Rightarrow> (string \<times> course) list \<Rightarrow> py_error + (string \<times> course) list" where
  "group_entry U entry courses =
     (case yaml_get entry ''course_id'' (YStr ''mtat-preview'') of
        Inl e \<Rightarrow> Inl e
      | Inr cid \<Rightarrow>
          if \<not> hashable cid then Inl TypeError
          else case cid of
            YStr course_id \<Rightarrow>
              (let courses1 =
                     (if map_of courses course_id = None
                      then courses @ [(course_id, new_course U course_id)] else courses)
               in case yaml_get entry ''module_path'' (YStr ''unknown'') of
                    Inl e \<Rightarrow> Inl e
                  | Inr dflt \<Rightarrow>
                      (case yaml_get entry ''module_id'' dflt of
                         Inl e \<Rightarrow> Inl e
                       | Inr mod_id \<Rightarrow>
                           if \<not> hashable mod_id then Inl TypeError
                           else Inr (AList.map_entry course_id
                                       (\<lambda>c. c\<lparr>modules := setdefault_append mod_id entry (modules c)\<rparr>)
                                       courses1)))
          | _ \<Rightarrow> Inl AttributeError)"

fun group_loop :: "casing \<Rightarrow> yaml list \<Rightarrow> (string \<times> course) list \<Rightarrow> py_error + (string \<times> course) list" where
  "group_loop U [] courses = Inr courses"
| "group_loop U (entry # rest) courses =
     (case group_entry U entry courses of
        Inl e \<Rightarrow> Inl e
      | Inr courses' \<Rightarrow> group_loop U rest courses')"

definition group_by_course :: "casing \<Rightarrow> yaml list \<Rightarrow> py_error + (string \<times> course) list" where
  "group_by_course U entries = group_loop U entries []"

text \<open>An entry is grouped under a course key when one of that course's modules lists it.\<close>

definition grouped_under :: "(string \<times> course) list \<Rightarrow> string \<Rightarrow> yaml \<Rightarrow> bool" where
  "grouped_under courses course_id entry =
     (case map_of courses course_id of
        None \<Rightarrow> False
      | Some c \<Rightarrow> (\<exists>m \<in> set (modules c). entry \<in> set (snd m)))"

text \<open>
  The module key of an entry, \<open>entry.get("module_id", entry.get("module_path", "unknown"))\<close>,
  and the entries that \<open>group_by_course\<close> takes without raising: mappings whose
  \<open>course_id\<close> is missing or a string and whose module key can be hashed.
\<close>

definition module_key :: "(yaml \<times> yaml) list \<Rightarrow> yaml" where
  "module_key kvs =
     (case map_of kvs (YStr ''module_id'') of
        Some v \<Rightarrow> v
      | None \<Rightarrow> (case map_of kvs (YStr ''module_path'') of Some v \<Rightarrow> v | None \<Rightarrow> YStr ''unknown''))"

definition groupable :: "yaml \<Rightarrow> bool" where
  "groupable entry =
     (case entry of
        YMap kvs \<Rightarrow>
          (case map_of kvs (YStr ''course_id'') of
             None \<Rightarrow> hashable (module_key kvs)
           | Some (YStr course_id) \<Rightarrow> hashable (module_key kvs)
           | Some _ \<Rightarrow> False)
      | _ \<Rightarrow> False)"


section \<open>Token provisioning\<close>

definition TOKEN_CACHE_FILE :: path where
  "TOKEN_CACHE_FILE = Path ''.moodle-token''"

definition login_url :: "string \<Rightarrow> string" where
  "login_url base = base @ ''/login/index.php''"

text \<open>
  \<^verbatim>\<open>
  def wait_for_moodle(url, timeout=180):
      print(f"Waiting for Moodle at {url} ", end="", flush=True)
      deadline = time.time() + timeout
      while time.time() < deadline:
          try:
              r = requests.get(f"{url}/login/index.php", timeout=5)
              if r.status_code == 200:
                  print(" ready.")
                  return
          except requests.RequestException:
              pass
          print(".", end="", flush=True)
          time.sleep(5)
      raise TimeoutError(f"Moodle did not become ready within {timeout}s.")
  \<close>
  A request takes no time here, so a round that does not return ends five seconds after
  it began, and the loop ends.
\<close>

function wait_loop :: "'w platform \<Rightarrow> string \<Rightarrow> nat \<Rightarrow> nat \<Rightarrow> ('w, unit) io" where
  "wait_loop P base timeout deadline s =
     (if clock s < deadline then
        (case send P \<lparr>meth = GET, url = login_url base, via = None, query = [], form = []\<rparr> s of
           (r, s1) \<Rightarrow>
             if (case r of Inr (Reply status body) \<Rightarrow> status = 200 | _ \<Rightarrow> False)
             then print [Lit '' ready.''] s1
             else wait_loop P base timeout deadline
                    (s1\<lparr>clock := clock s + 5, trace := trace s1 @ [Print [Lit ''.''], Sleep 5]\<rparr>))
      else raise (TimeoutError [Lit ''Moodle did not become ready within '', VNat timeout, Lit ''s.'']) s)"
  by pat_completeness auto
termination
  by (relation "measure (\<lambda>(P, base, timeout, deadline, s). deadline - clock s)") auto

definition wait_for_moodle :: "'w platform \<Rightarrow> string \<Rightarrow> nat \<Rightarrow> ('w, unit) io" where
  "wait_for_moodle P base timeout =
     and_then (emit (Print [Lit ''Waiting for Moodle at '', Lit base, Lit '' ''])) (\<lambda>_.
     (\<lambda>s. wait_loop P base timeout (clock s + timeout) s))"

text \<open>
  \<open>subprocess.run(argv, check=True, capture_output=True)\<close> inside the \<open>try\<close> of
  \<open>setup_moodle_webservices\<close>: a program that cannot be started raises
  \<open>FileNotFoundError\<close>, which the handler does not catch; a non-zero return code raises
  \<open>CalledProcessError\<close>, which the handler turns into the \<open>RuntimeError\<close> below. The
  standard error is bytes for the first command and text for the second, so the caller
  says how it is shown.
\<close>

definition run_checked :: "'w platform \<Rightarrow> (string \<Rightarrow> frag) \<Rightarrow> string list \<Rightarrow> ('w, string) io" where
  "run_checked P shown argv s =
     (let (r, w') = exec P (remote s) argv;
          s1 = s\<lparr>remote := w', trace := trace s @ [Exec argv]\<rparr>
      in case r of
           NotStarted \<Rightarrow> (Inl FileNotFoundError, s1)
         | Exited code out err \<Rightarrow>
             if code \<noteq> 0
             then (Inl (RuntimeError
                          [Lit ''docker exec failed: '', shown err,
                           Lit ''\<newline>Is the container running? Try: docker compose up -d'']), s1)
             else (Inr out, s1))"

text \<open>
  \<^verbatim>\<open>
  def setup_moodle_webservices(container="mtat-moodle"):
      print("Setting up Moodle web services (requires Docker)...")
      script_path = "/tmp/mtat_setup.php"
      try:
          subprocess.run(["docker", "exec", container, "bash", "-c",
                          f"cat > {script_path} << 'PHPEOF'\n{MOODLE_CLI_SCRIPT}\nPHPEOF"],
                         check=True, capture_output=True)
          result = subprocess.run(["docker", "exec", container, "php", script_path],
                                  check=True, capture_output=True, text=True)
          token = result.stdout.strip().splitlines()[-1]
          if not re.match(r"^[0-9a-f]{32}$", token):
              raise RuntimeError(f"Unexpected PHP output: {result.stdout!r}")
          print(f"  Web services enabled. Token: {token}")
          return token
      except subprocess.CalledProcessError as e:
          raise RuntimeError(f"docker exec failed: {e.stderr}\n...") from e
  \<close>
\<close>

definition setup_moodle_webservices :: "'w platform \<Rightarrow> string \<Rightarrow> ('w, string) io" where
  "setup_moodle_webservices P container =
     and_then (print [Lit ''Setting up Moodle web services (requires Docker)...'']) (\<lambda>_.
     and_then (run_checked P VBytes
                 [''docker'', ''exec'', container, ''bash'', ''-c'',
                  ''cat > /tmp/mtat_setup.php << 'PHPEOF'\<newline>'' @ cli_script P @ ''\<newline>PHPEOF'']) (\<lambda>_.
     and_then (run_checked P Lit [''docker'', ''exec'', container, ''php'', ''/tmp/mtat_setup.php'']) (\<lambda>out.
     case last_line out of
       None \<Rightarrow> raise IndexError
     | Some token \<Rightarrow>
         if \<not> (length token = 32 \<and> list_all is_hex_lower token)
         then raise (RuntimeError [Lit ''Unexpected PHP output: '', Repr out])
         else and_then (print [Lit ''  Web services enabled. Token: '', Lit token]) (\<lambda>_. ret token))))"

text \<open>
  The command-line arguments after parsing. \<open>None\<close> is the default of \<open>--token\<close> and of
  \<open>--course-id\<close>. The module-level \<open>DEFAULT_USER\<close> and \<open>DEFAULT_PASS\<close> that \<open>main\<close> patches
  from \<open>--user\<close> and \<open>--password\<close> are read from here.
\<close>

record args =
  arg_url :: string
  arg_token :: "string option"
  arg_user :: string
  arg_password :: string
  arg_course_id :: "string option"
  arg_manifest :: string
  arg_setup_moodle :: bool
  arg_get_token :: bool

text \<open>The minting branch of the token resolution.\<close>

definition mint_token :: "'w platform \<Rightarrow> string \<Rightarrow> ('w, string) io" where
  "mint_token P base =
     and_then (wait_for_moodle P base 180) (\<lambda>_.
     and_then (setup_moodle_webservices P ''mtat-moodle'') (\<lambda>token.
     and_then (write_text TOKEN_CACHE_FILE token) (\<lambda>_.
     and_then (print [Lit ''Token cached to '', VPath TOKEN_CACHE_FILE]) (\<lambda>_.
     ret token))))"

text \<open>
  \<^verbatim>\<open>
  token = args.token
  if not token and TOKEN_CACHE_FILE.exists():
      token = TOKEN_CACHE_FILE.read_text().strip()
  if not token or args.setup_moodle:
      wait_for_moodle(args.url)
      token = setup_moodle_webservices()
      TOKEN_CACHE_FILE.write_text(token)
      print(f"Token cached to {TOKEN_CACHE_FILE}")
  \<close>
  \<open>not token\<close> holds for \<open>None\<close> and for the empty string.
\<close>

definition no_token :: "string option \<Rightarrow> bool" where
  "no_token token = (case token of None \<Rightarrow> True | Some t \<Rightarrow> t = [])"

definition resolve_token :: "'w platform \<Rightarrow> args \<Rightarrow> ('w, string) io" where
  "resolve_token P a =
     and_then
       (if no_token (arg_token a) then
          and_then (path_exists TOKEN_CACHE_FILE) (\<lambda>there.
            if there then and_then (read_text TOKEN_CACHE_FILE) (\<lambda>text. ret (Some (strip text)))
            else ret (arg_token a))
        else ret (arg_token a)) (\<lambda>token.
     case token of
       None \<Rightarrow> mint_token P (arg_url a)
     | Some t \<Rightarrow> if t = [] \<or> arg_setup_moodle a then mint_token P (arg_url a) else ret t)"

section \<open>Reading what a run did\<close>

text \<open>
  \<open>only_emits Q m\<close>: from any state, \<open>m\<close> keeps the trace it finds and adds only events
  that satisfy \<open>Q\<close>.
\<close>

definition only_emits :: "(event \<Rightarrow> bool) \<Rightarrow> ('w, 'a) io \<Rightarrow> bool" where
  "only_emits Q m = (\<forall>s. \<exists>evs. trace (snd (m s)) = trace s @ evs \<and> list_all Q evs)"

text \<open>The events that look at a file: an existence check or a read.\<close>

definition reads_file :: "event \<Rightarrow> bool" where
  "reads_file ev = (case ev of Exists p \<Rightarrow> True | ReadText p \<Rightarrow> True | _ \<Rightarrow> False)"

text \<open>Arguments for examples: the defaults of the command line, with an explicit token.\<close>

definition demo_args :: args where
  "demo_args =
     \<lparr>arg_url = ''http://localhost:8080'', arg_token = Some ''explicit'', arg_user = ''admin'',
      arg_password = ''secret'', arg_course_id = None, arg_manifest = ''variants/manifest.yaml'',
      arg_setup_moodle = False, arg_get_token = False\<rparr>"

section \<open>Page creation\<close>

text \<open>
  \<open>re.search(lead + '([^"]+)"', text)\<close>, where \<open>lead\<close> is literal text: the leftmost place
  where \<open>lead\<close> is followed by one or more characters other than the double quote and
  then by a double quote; \<open>group(1)\<close> is that run of characters.
\<close>

fun search_quoted :: "string \<Rightarrow> string \<Rightarrow> string option" where
  "search_quoted lead [] = None"
| "search_quoted lead (c # cs) =
     (let rest = drop (length lead) (c # cs);
          val = takeWhile (\<lambda>x. x \<noteq> CHR 0x22) rest
      in if startswith (c # cs) lead \<and> val \<noteq> [] \<and> length val < length rest then Some val
         else search_quoted lead cs)"

text \<open>\<open>match.group(1) if match else ""\<close>.\<close>

definition scrape :: "string \<Rightarrow> string \<Rightarrow> string" where
  "scrape lead page = (case search_quoted lead page of Some v \<Rightarrow> v | None \<Rightarrow> [])"

definition modedit_url :: "string \<Rightarrow> string" where
  "modedit_url base = base @ ''/course/modedit.php''"

text \<open>\<open>requests.Session()\<close>: the new session gets the next number.\<close>

definition open_session :: "('w, nat) io" where
  "open_session s =
     (Inr (sessions s),
      s\<lparr>sessions := sessions s + 1, trace := trace s @ [OpenSession (sessions s)]\<rparr>)"

definition login_form :: "string \<Rightarrow> string \<Rightarrow> string \<Rightarrow> (string \<times> form_val) list" where
  "login_form username password logintoken =
     [(''username'', FStr username), (''password'', FStr password), (''logintoken'', FStr logintoken)]"

definition page_form :: "string \<Rightarrow> json \<Rightarrow> frag list \<Rightarrow> string \<Rightarrow> (string \<times> form_val) list" where
  "page_form sesskey course_id page_title html_content =
     [(''sesskey'', FStr sesskey),
      (''add'', FStr ''page''),
      (''course'', FVal course_id),
      (''section'', FInt 0),
      (''name'', FText page_title),
      (''intro'', FStr []),
      (''introformat'', FInt 1),
      (''page[text]'', FStr html_content),
      (''page[format]'', FInt 1),
      (''submitbutton2'', FStr ''Save and return to course''),
      (''mform_isexpanded_id_generalhdr'', FInt 1)]"

text \<open>
  \<^verbatim>\<open>
  def _create_page_resource(url, course_id, title, html_content, username, password):
      session = requests.Session()
      login_page = session.get(f"{url}/login/index.php", timeout=10)
      match = re.search(r'name="logintoken" value="([^"]+)"', login_page.text)
      logintoken = match.group(1) if match else ""
      session.post(f"{url}/login/index.php",
                   data={"username": username, "password": password,
                         "logintoken": logintoken}, ...)
      add_page = session.get(f"{url}/course/modedit.php",
                             params={"add": "page", "type": "", "course": course_id,
                                     "section": 0}, timeout=10)
      sesskey_match = re.search(r'"sesskey":"([^"]+)"', add_page.text)
      sesskey = sesskey_match.group(1) if sesskey_match else ""
      session.post(f"{url}/course/modedit.php", data={"sesskey": sesskey, ...}, ...)
  \<close>
  No status is checked on this path; only a transport failure raises.
\<close>

definition create_page_resource ::
  "'w platform \<Rightarrow> string \<Rightarrow> json \<Rightarrow> frag list \<Rightarrow> string \<Rightarrow> string \<Rightarrow> string \<Rightarrow> ('w, unit) io" where
  "create_page_resource P base course_id page_title html_content username password =
     and_then open_session (\<lambda>session.
     and_then (request P \<lparr>meth = GET, url = login_url base, via = Some session,
                           query = [], form = []\<rparr>) (\<lambda>login_page.
     and_then (request P \<lparr>meth = POST, url = login_url base, via = Some session, query = [],
                           form = login_form username password
                                    (scrape ''name=\"logintoken\" value=\"'' (snd login_page))\<rparr>) (\<lambda>_.
     and_then (request P \<lparr>meth = GET, url = modedit_url base, via = Some session,
                           query = [(''add'', FStr ''page''), (''type'', FStr []),
                                    (''course'', FVal course_id), (''section'', FInt 0)],
                           form = []\<rparr>) (\<lambda>add_page.
     and_then (request P \<lparr>meth = POST, url = modedit_url base, via = Some session, query = [],
                           form = page_form (scrape ''\"sesskey\":\"'' (snd add_page))
                                    course_id page_title html_content\<rparr>) (\<lambda>_.
     ret ())))))"

section \<open>Publishing the variants of a module\<close>

text \<open>\<open>variant[key]\<close> with a string key on a value loaded from YAML.\<close>

definition yaml_item :: "yaml \<Rightarrow> string \<Rightarrow> py_error + yaml" where
  "yaml_item v key =
     (case v of
        YMap kvs \<Rightarrow> (case map_of kvs (YStr key) of Some x \<Rightarrow> Inr x | None \<Rightarrow> Inl KeyError)
      | _ \<Rightarrow> Inl TypeError)"

text \<open>\<open>manifest_dir / value\<close>: only a string (or a path) can be joined to a path.\<close>

definition join_path :: "path \<Rightarrow> yaml \<Rightarrow> py_error + path" where
  "join_path dir v = (case v of YStr f \<Rightarrow> Inr (Join dir (Path f)) | _ \<Rightarrow> Inl TypeError)"

definition page_title_of :: "yaml \<Rightarrow> yaml \<Rightarrow> yaml \<Rightarrow> frag list" where
  "page_title_of module_title audience locale =
     [VYaml module_title, Lit '' ['', VYaml audience, Lit '' / '', VYaml locale, Lit '']'']"

text \<open>
  The body of the loop of \<open>upload_variants_to_book\<close>:
  \<^verbatim>\<open>
      variant_path = manifest_dir / variant["output_file"]
      if not variant_path.exists():
          print(f"    [!] Variant file not found, skipping: {variant_path}")
          continue
      raw_md = variant_path.read_text(encoding="utf-8")
      body_md = strip_front_matter(raw_md)
      html = md_to_html(body_md)
      audience = variant.get("audience", "unknown")
      locale = variant.get("locale", "en-US")
      page_title = f"{module_title} [{audience} / {locale}]"
      _create_page_resource(url, course_moodle_id, page_title, html, DEFAULT_USER, DEFAULT_PASS)
      print(f"    + Uploaded: {page_title}")
  \<close>
  \<open>md_to_html\<close> is the Markdown converter of the platform with its fixed extensions.
\<close>

definition upload_variant ::
  "'w platform \<Rightarrow> string \<Rightarrow> json \<Rightarrow> yaml \<Rightarrow> path \<Rightarrow> string \<Rightarrow> string \<Rightarrow> yaml \<Rightarrow> ('w, unit) io" where
  "upload_variant P base course_moodle_id module_title manifest_dir username password variant =
     and_then (lift (yaml_item variant ''output_file'')) (\<lambda>output_file.
     and_then (lift (join_path manifest_dir output_file)) (\<lambda>variant_path.
     and_then (path_exists variant_path) (\<lambda>there.
     if \<not> there
     then print [Lit ''    [!] Variant file not found, skipping: '', VPath variant_path]
     else
       and_then (read_text variant_path) (\<lambda>raw_md.
       and_then (lift (yaml_get variant ''audience'' (YStr ''unknown''))) (\<lambda>audience.
       and_then (lift (yaml_get variant ''locale'' (YStr ''en-US''))) (\<lambda>locale.
       and_then (create_page_resource P base course_moodle_id
                   (page_title_of module_title audience locale)
                   (markdown P (strip_front_matter raw_md)) username password) (\<lambda>_.
       print (Lit ''    + Uploaded: '' # page_title_of module_title audience locale))))))))"

fun upload_loop ::
  "'w platform \<Rightarrow> string \<Rightarrow> json \<Rightarrow> yaml \<Rightarrow> path \<Rightarrow> string \<Rightarrow> string \<Rightarrow> yaml list \<Rightarrow> ('w, unit) io" where
  "upload_loop P base course_moodle_id module_title manifest_dir username password [] = ret ()"
| "upload_loop P base course_moodle_id module_title manifest_dir username password (variant # rest) =
     and_then (upload_variant P base course_moodle_id module_title manifest_dir username password variant) (\<lambda>_.
     upload_loop P base course_moodle_id module_title manifest_dir username password rest)"

text \<open>
  \<^verbatim>\<open>
  def upload_variants_to_book(url, token, course_moodle_id, module_title, variants, manifest_dir):
      print(f"\n  Module: {module_title} ({len(variants)} variants)")
      for i, variant in enumerate(variants, start=1):
          ...
      print(f"  Done. Open your course at: {url}/course/view.php?id={course_moodle_id}")
  \<close>
  The user name and the password are the module-level defaults of the source.
\<close>

definition upload_variants_to_book ::
  "'w platform \<Rightarrow> string \<Rightarrow> string \<Rightarrow> json \<Rightarrow> yaml \<Rightarrow> yaml list \<Rightarrow> path \<Rightarrow> string \<Rightarrow> string \<Rightarrow> ('w, unit) io" where
  "upload_variants_to_book P base token course_moodle_id module_title variants manifest_dir username password =
     and_then (print [Lit ''\<newline>  Module: '', VYaml module_title, Lit '' ('',
                      VNat (length variants), Lit '' variants)'']) (\<lambda>_.
     and_then (upload_loop P base course_moodle_id module_title manifest_dir username password variants) (\<lambda>_.
     print [Lit ''  Done. Open your course at: '', Lit base, Lit ''/course/view.php?id='',
            VJson course_moodle_id]))"

section \<open>The publishing run\<close>

text \<open>
  \<^verbatim>\<open>
  def load_manifest(manifest_path):
      if not manifest_path.exists():
          print(f"No manifest found at {manifest_path}.")
          print("Generate variants first: python generate-variant.py --module ...")
          sys.exit(1)
      with manifest_path.open() as f:
          data = yaml.safe_load(f)
      return data if isinstance(data, list) else []
  \<close>
\<close>

definition load_manifest :: "'w platform \<Rightarrow> path \<Rightarrow> ('w, yaml list) io" where
  "load_manifest P manifest_path =
     and_then (path_exists manifest_path) (\<lambda>there.
     if \<not> there then
       and_then (print [Lit ''No manifest found at '', VPath manifest_path, Lit ''.'']) (\<lambda>_.
       and_then (print [Lit ''Generate variants first: python generate-variant.py --module example-course/01-concept --audience developer'']) (\<lambda>_.
       raise (SystemExit 1)))
     else
       and_then (read_text manifest_path) (\<lambda>content.
       and_then (lift (yaml_safe_load P content)) (\<lambda>data.
       ret (case data of YList entries \<Rightarrow> entries | _ \<Rightarrow> []))))"

text \<open>
  The token check of \<open>main\<close>:
  \<^verbatim>\<open>
  try:
      site = api(args.url, token, "core_webservice_get_site_info")
      print(f"Connected to Moodle: {site.get('sitename')} (Moodle {site.get('release', '?')})")
  except Exception as e:
      print(f"Token validation failed: {e}")
      print("Try running with --setup-moodle to regenerate the token.")
      sys.exit(1)
  \<close>
  \<open>except Exception\<close> does not catch \<open>SystemExit\<close>.
\<close>

definition validate_token :: "'w platform \<Rightarrow> string \<Rightarrow> string \<Rightarrow> ('w, unit) io" where
  "validate_token P base token s =
     (case and_then (api P base token ''core_webservice_get_site_info'' []) (\<lambda>site.
           and_then (lift (json_get site ''sitename'' JNull)) (\<lambda>sitename.
           and_then (lift (json_get site ''release'' (JStr ''?''))) (\<lambda>release.
           print [Lit ''Connected to Moodle: '', VJson sitename, Lit '' (Moodle '',
                  VJson release, Lit '')'']))) s of
        (Inr u, s1) \<Rightarrow> (Inr (), s1)
      | (Inl e, s1) \<Rightarrow>
          (case e of
             SystemExit n \<Rightarrow> (Inl e, s1)
           | _ \<Rightarrow>
               and_then (emit (PrintError [Lit ''Token validation failed: ''] e)) (\<lambda>_.
               and_then (print [Lit ''Try running with --setup-moodle to regenerate the token.'']) (\<lambda>_.
               raise (SystemExit 1))) s1))"

text \<open>\<open>[e for e in entries if e.get("course_id") == course_id]\<close>.\<close>

fun filter_course :: "string \<Rightarrow> yaml list \<Rightarrow> py_error + yaml list" where
  "filter_course course_id [] = Inr []"
| "filter_course course_id (e # es) =
     (case yaml_get e ''course_id'' YNull of
        Inl err \<Rightarrow> Inl err
      | Inr v \<Rightarrow>
          (case filter_course course_id es of
             Inl err \<Rightarrow> Inl err
           | Inr rest \<Rightarrow> Inr (if v = YStr course_id then e # rest else rest)))"

text \<open>
  The title of a module:
  \<^verbatim>\<open>
  module_title = module_id
  if variants:
      mod_path = Path(variants[0].get("module_path", ""))
      meta_file = manifest_dir / mod_path / "metadata.yaml"
      if meta_file.exists():
          meta = yaml.safe_load(meta_file.read_text())
          module_title = meta.get("title", module_id)
  \<close>
\<close>

definition module_title_of :: "'w platform \<Rightarrow> path \<Rightarrow> yaml \<Rightarrow> yaml list \<Rightarrow> ('w, yaml) io" where
  "module_title_of P manifest_dir module_id variants =
     (case variants of
        [] \<Rightarrow> ret module_id
      | first # _ \<Rightarrow>
          and_then (lift (yaml_get first ''module_path'' (YStr []))) (\<lambda>module_path.
          case module_path of
            YStr mod_path \<Rightarrow>
              and_then (path_exists (Join (Join manifest_dir (Path mod_path)) (Path ''metadata.yaml''))) (\<lambda>there.
              if there then
                and_then (read_text (Join (Join manifest_dir (Path mod_path)) (Path ''metadata.yaml''))) (\<lambda>content.
                and_then (lift (yaml_safe_load P content)) (\<lambda>meta.
                lift (yaml_get meta ''title'' module_id)))
              else ret module_id)
          | _ \<Rightarrow> raise TypeError))"

fun publish_modules ::
  "'w platform \<Rightarrow> args \<Rightarrow> string \<Rightarrow> path \<Rightarrow> json \<Rightarrow> (yaml \<times> yaml list) list \<Rightarrow> ('w, unit) io" where
  "publish_modules P a token manifest_dir moodle_course_id [] = ret ()"
| "publish_modules P a token manifest_dir moodle_course_id ((module_id, variants) # rest) =
     and_then (module_title_of P manifest_dir module_id variants) (\<lambda>module_title.
     and_then (upload_variants_to_book P (arg_url a) token moodle_course_id module_title variants
                 manifest_dir (arg_user a) (arg_password a)) (\<lambda>_.
     publish_modules P a token manifest_dir moodle_course_id rest))"

fun publish_courses ::
  "'w platform \<Rightarrow> args \<Rightarrow> string \<Rightarrow> path \<Rightarrow> (string \<times> course) list \<Rightarrow> ('w, unit) io" where
  "publish_courses P a token manifest_dir [] = ret ()"
| "publish_courses P a token manifest_dir ((course_id, course_data) # rest) =
     and_then (print [Lit ''Course: '', Lit (title course_data), Lit '' ('', Lit course_id, Lit '')'']) (\<lambda>_.
     and_then (ensure_course P (arg_url a) token course_id (title course_data)) (\<lambda>moodle_course_id.
     and_then (publish_modules P a token manifest_dir moodle_course_id (modules course_data)) (\<lambda>_.
     publish_courses P a token manifest_dir rest)))"

text \<open>
  The course filter of \<open>main\<close>:
  \<^verbatim>\<open>
  if args.course_id:
      entries = [e for e in entries if e.get("course_id") == args.course_id]
      if not entries:
          print(f"No variants found for course_id='{args.course_id}'")
          sys.exit(1)
  \<close>
\<close>

definition select_course :: "args \<Rightarrow> yaml list \<Rightarrow> ('w, yaml list) io" where
  "select_course a entries =
     (case arg_course_id a of
        None \<Rightarrow> ret entries
      | Some course_id \<Rightarrow>
          if course_id = [] then ret entries
          else and_then (lift (filter_course course_id entries)) (\<lambda>selected.
               if selected = [] then
                 and_then (print [Lit ''No variants found for course_id='', Lit [CHR 0x27],
                                  Lit course_id, Lit [CHR 0x27]]) (\<lambda>_.
                 raise (SystemExit 1))
               else ret selected))"

text \<open>
  \<open>main\<close>, after the parsing of the command line. The dash of the message for an empty
  manifest, U+2014 in the source, is written \<open>--\<close>.
\<close>

definition main :: "'w platform \<Rightarrow> args \<Rightarrow> ('w, unit) io" where
  "main P a =
     and_then (resolve_token P a) (\<lambda>token.
     if arg_get_token a then print [Lit token]
     else
       and_then (validate_token P (arg_url a) token) (\<lambda>_.
       and_then (load_manifest P (Path (arg_manifest a))) (\<lambda>entries.
       if entries = [] then
         and_then (print [Lit ''Manifest is empty -- nothing to upload.'']) (\<lambda>_.
         raise (SystemExit 0))
       else
         and_then (select_course a entries) (\<lambda>selected.
         and_then (lift (group_by_course (case_tables P) selected)) (\<lambda>courses.
         and_then (print [Lit ''\<newline>Uploading '', VNat (length selected), Lit '' variant(s) across '',
                          VNat (length courses), Lit '' course(s)...\<newline>'']) (\<lambda>_.
         and_then (publish_courses P a token (Parent (Parent (Path (arg_manifest a)))) courses) (\<lambda>_.
         and_then (print [Lit ''\<newline>All done.'']) (\<lambda>_.
         print [Lit ''Open Moodle: '', Lit (arg_url a), Lit ''/my/courses.php'']))))))))"

text \<open>
  The exit status of the process: 0 when \<open>main\<close> returns, the argument of \<open>sys.exit\<close>,
  and 1 for an exception that nothing catches.
\<close>

definition exit_code :: "py_error + unit \<Rightarrow> int" where
  "exit_code r = (case r of Inr u \<Rightarrow> 0 | Inl (SystemExit n) \<Rightarrow> n | Inl e \<Rightarrow> 1)"

section \<open>Reading a publishing run\<close>

text \<open>
  The file of a variant, \<open>manifest_dir / variant["output_file"]\<close>, when the entry has a
  string \<open>output_file\<close>; whether that file exists; and the page that the loop creates
  for the variant: its title and the converted body of the file.
\<close>

definition variant_file :: "path \<Rightarrow> yaml \<Rightarrow> path option" where
  "variant_file manifest_dir variant =
     (case yaml_item variant ''output_file'' of
        Inr output_file \<Rightarrow>
          (case join_path manifest_dir output_file of Inr p \<Rightarrow> Some p | Inl e \<Rightarrow> None)
      | Inl e \<Rightarrow> None)"

definition file_present :: "(path \<Rightarrow> (py_error + string) option) \<Rightarrow> path \<Rightarrow> yaml \<Rightarrow> bool" where
  "file_present files manifest_dir variant =
     (case variant_file manifest_dir variant of Some p \<Rightarrow> files p \<noteq> None | None \<Rightarrow> False)"

definition field_or :: "yaml \<Rightarrow> string \<Rightarrow> string \<Rightarrow> yaml" where
  "field_or variant key dflt =
     (case yaml_get variant key (YStr dflt) of Inr v \<Rightarrow> v | Inl e \<Rightarrow> YStr dflt)"

definition page_of ::
  "'w platform \<Rightarrow> (path \<Rightarrow> (py_error + string) option) \<Rightarrow> path \<Rightarrow> yaml \<Rightarrow> yaml \<Rightarrow> frag list \<times> string" where
  "page_of P files manifest_dir module_title variant =
     (page_title_of module_title (field_or variant ''audience'' ''unknown'') (field_or variant ''locale'' ''en-US''),
      markdown P (strip_front_matter
        (case variant_file manifest_dir variant of
           Some p \<Rightarrow> (case files p of Some (Inr raw_md) \<Rightarrow> raw_md | _ \<Rightarrow> [])
         | None \<Rightarrow> [])))"

text \<open>
  What a trace shows: the pages created (the \<open>name\<close> and \<open>page[text]\<close> fields of each
  creation POST), the files skipped with a warning, the sessions opened, the login
  POSTs, and the requests sent after a given state.
\<close>

definition created_pages :: "string \<Rightarrow> event list \<Rightarrow> (form_val option \<times> form_val option) list" where
  "created_pages base evs =
     map (\<lambda>r. (map_of (form r) ''name'', map_of (form r) ''page[text]''))
       (filter (\<lambda>r. meth r = POST \<and> url r = modedit_url base) (requests_of evs))"

definition skipped_files :: "event list \<Rightarrow> path list" where
  "skipped_files evs =
     concat (map (\<lambda>ev. case ev of
                          Print [Lit lead, VPath p, Lit nl] \<Rightarrow>
                            if lead = ''    [!] Variant file not found, skipping: '' then [p] else []
                        | _ \<Rightarrow> []) evs)"

definition opened_sessions :: "event list \<Rightarrow> nat list" where
  "opened_sessions evs = concat (map (\<lambda>ev. case ev of OpenSession k \<Rightarrow> [k] | _ \<Rightarrow> []) evs)"

definition logins :: "string \<Rightarrow> event list \<Rightarrow> http_request list" where
  "logins base evs = filter (\<lambda>r. meth r = POST \<and> url r = login_url base) (requests_of evs)"

definition requests_after :: "'w state \<Rightarrow> 'w state \<Rightarrow> http_request list" where
  "requests_after s s' = requests_of (drop (length (trace s)) (trace s'))"

text \<open>
  \<open>advances base s s' pages skipped\<close>: between \<open>s\<close> and \<open>s'\<close> the files are untouched,
  these pages were created, each in a session of its own with one login, and these
  files were skipped.
\<close>

definition advances ::
  "string \<Rightarrow> 'w state \<Rightarrow> 'w state \<Rightarrow> (form_val option \<times> form_val option) list \<Rightarrow> path list \<Rightarrow> bool" where
  "advances base s s' pages skipped =
     (fs s' = fs s
      \<and> sessions s' = sessions s + length pages
      \<and> created_pages base (trace s') = created_pages base (trace s) @ pages
      \<and> skipped_files (trace s') = skipped_files (trace s) @ skipped
      \<and> opened_sessions (trace s') = opened_sessions (trace s) @ [sessions s ..< sessions s + length pages]
      \<and> length (logins base (trace s')) = length (logins base (trace s)) + length pages)"

text \<open>
  What a run that publishes needs from outside: a course service that answers the
  lookup with a mapping (no \<open>exception\<close>, and \<open>courses\<close> missing, empty, or starting with a
  course that has an \<open>id\<close>) and the creation with a list whose first element has an
  \<open>id\<close>; entries that can be grouped, with a string \<open>output_file\<close> and a string or missing
  \<open>module_path\<close>; and metadata files that load as mappings.
\<close>

definition course_service_ok :: "'w platform \<Rightarrow> string \<Rightarrow> bool" where
  "course_service_ok P base =
     (\<forall>w token course_id course_title.
        (\<exists>status body w' kvs.
           http P w (api_request base token ''core_course_get_courses_by_field'' (lookup_params course_id))
             = (Reply status body, w')
           \<and> status < 400 \<and> json_loads P body = Some (JObj kvs) \<and> map_of kvs ''exception'' = None
           \<and> (map_of kvs ''courses'' = None \<or> map_of kvs ''courses'' = Some (JList [])
                \<or> (\<exists>c cs i. map_of kvs ''courses'' = Some (JList (JObj c # cs)) \<and> map_of c ''id'' = Some i)))
        \<and> (\<exists>status body w' c cs i.
             http P w (api_request base token ''core_course_create_courses'' (create_params course_id course_title))
               = (Reply status body, w')
             \<and> status < 400 \<and> json_loads P body = Some (JList (JObj c # cs)) \<and> map_of c ''id'' = Some i))"

definition publishable :: "path \<Rightarrow> yaml \<Rightarrow> bool" where
  "publishable manifest_dir variant =
     (groupable variant \<and> variant_file manifest_dir variant \<noteq> None
      \<and> (case yaml_get variant ''module_path'' (YStr []) of Inr (YStr m) \<Rightarrow> True | _ \<Rightarrow> False))"

definition metadata_ok :: "'w platform \<Rightarrow> (path \<Rightarrow> (py_error + string) option) \<Rightarrow> bool" where
  "metadata_ok P files =
     (\<forall>d content. files (Join d (Path ''metadata.yaml'')) = Some (Inr content) \<longrightarrow>
        (\<exists>kvs. yaml_safe_load P content = Inr (YMap kvs)))"

text \<open>
  An LMS for examples that answers every request: a REST call gets the name of its
  function as body, which the decoder maps to a site description, an empty lookup and a
  created course; every other request gets a page with a login token and a session
  key. The ledger has three variants of one module; the file of the second is missing.
\<close>

definition demo_ledger :: "yaml list" where
  "demo_ledger =
     [YMap [(YStr ''module_id'', YStr ''m1''), (YStr ''audience'', YStr ''developer''),
            (YStr ''locale'', YStr ''en-US''), (YStr ''output_file'', YStr ''variants/m1/developer-en-US.md'')],
      YMap [(YStr ''module_id'', YStr ''m1''), (YStr ''audience'', YStr ''executive''),
            (YStr ''locale'', YStr ''en-US''), (YStr ''output_file'', YStr ''variants/m1/executive-en-US.md'')],
      YMap [(YStr ''module_id'', YStr ''m1''), (YStr ''audience'', YStr ''champion''),
            (YStr ''output_file'', YStr ''variants/m1/champion-en-US.md'')]]"

definition demo_lms :: "unit platform" where
  "demo_lms =
     \<lparr>http = (\<lambda>w req. (Reply 200 (case map_of (form req) ''wsfunction'' of
                                      Some (FStr f) \<Rightarrow> f
                                    | _ \<Rightarrow> ''<input name=\"logintoken\" value=\"tok\"> {\"sesskey\":\"key\"}''), w)),
      exec = (\<lambda>w argv. (NotStarted, w)),
      json_loads = map_of
        [(''core_webservice_get_site_info'', JObj [(''sitename'', JStr ''MTAT'')]),
         (''core_course_get_courses_by_field'', JObj [(''courses'', JList [])]),
         (''core_course_create_courses'', JList [JObj [(''id'', JNum 8)]])],
      yaml_safe_load = (\<lambda>content. if content = ''ledger'' then Inr (YList demo_ledger)
                                  else if content = [] then Inr YNull else Inl YAMLError),
      markdown = (\<lambda>md. md),
      cli_script = [],
      case_tables = ascii_casing\<rparr>"

definition demo_dir :: path where
  "demo_dir = Parent (Parent (Path ''variants/manifest.yaml''))"

definition demo_files :: "path \<Rightarrow> (py_error + string) option" where
  "demo_files =
     map_of
       [(Path ''variants/manifest.yaml'', Inr ''ledger''),
        (Join demo_dir (Path ''variants/m1/developer-en-US.md''),
         Inr ''---\<newline>id: x\<newline>---\<newline>\<newline>Body one''),
        (Join demo_dir (Path ''variants/m1/champion-en-US.md''), Inr ''Body three'')]"

section \<open>Facts about the string search\<close>

lemma startswith_append: "startswith (sub @ post) sub"
  by (simp add: startswith_def)

lemma startswith_decomp: "startswith s sub \<Longrightarrow> \<exists>post. s = sub @ post"
  unfolding startswith_def by (metis append_take_drop_id)

lemma find_from_None: "find_from sub s i = None \<Longrightarrow> s \<noteq> pre @ sub @ post"
proof (induction s arbitrary: i pre)
  case Nil
  then show ?case by (auto split: if_splits)
next
  case (Cons c cs)
  from Cons.prems have ns: "\<not> startswith (c # cs) sub" and rec: "find_from sub cs (Suc i) = None"
    by (auto split: if_splits)
  show ?case
  proof (cases pre)
    case Nil
    with ns show ?thesis using startswith_append [of sub post] by auto
  next
    case (Cons p ps)
    with Cons.IH [OF rec, of ps] show ?thesis by auto
  qed
qed

lemma find_from_first:
  assumes "s = pre @ sub @ post"
    and "\<And>pre' post'. s = pre' @ sub @ post' \<Longrightarrow> length pre \<le> length pre'"
  shows "find_from sub s i = Some (i + length pre)"
  using assms
proof (induction pre arbitrary: s i)
  case Nil
  then have s: "s = sub @ post" by simp
  show ?case
  proof (cases s)
    case Nil
    with s show ?thesis by simp
  next
    case (Cons c cs)
    have "startswith s sub" unfolding s by (rule startswith_append)
    with Cons show ?thesis by simp
  qed
next
  case (Cons p ps)
  have ns: "\<not> startswith s sub"
  proof
    assume "startswith s sub"
    then obtain post' where "s = [] @ sub @ post'" using startswith_decomp by fastforce
    from Cons.prems(2) [OF this] show False by simp
  qed
  have tl: "tl s = ps @ sub @ post" using Cons.prems(1) by simp
  have min: "\<And>pre' post'. tl s = pre' @ sub @ post' \<Longrightarrow> length ps \<le> length pre'"
  proof -
    fix pre' post' assume "tl s = pre' @ sub @ post'"
    with Cons.prems(1) have "s = (p # pre') @ sub @ post'" by simp
    from Cons.prems(2) [OF this] show "length ps \<le> length pre'" by simp
  qed
  from Cons.IH [OF tl min, where i = "Suc i"] have "find_from sub (tl s) (Suc i) = Some (i + length (p # ps))"
    by simp
  moreover have "s = p # tl s" using Cons.prems(1) by simp
  ultimately show ?case using ns by (metis find_from.simps(2))
qed

lemma find_from_ge: "find_from sub s i = Some j \<Longrightarrow> i \<le> j"
proof (induction s arbitrary: i)
  case Nil
  then show ?case by (auto split: if_splits)
next
  case (Cons c cs)
  then show ?case by (fastforce split: if_splits)
qed

lemma length_lstrip: "length (lstrip s) \<le> length s"
  by (simp add: lstrip_def length_dropWhile_le)

lemma find_from_Some:
  "find_from sub s i = Some j \<Longrightarrow> \<exists>pre post. s = pre @ sub @ post \<and> j = i + length pre"
proof (induction s arbitrary: i)
  case Nil
  then show ?case by (auto split: if_splits)
next
  case (Cons c cs)
  show ?case
  proof (cases "startswith (c # cs) sub")
    case True
    then obtain post where "c # cs = [] @ sub @ post" using startswith_decomp by fastforce
    moreover from True Cons.prems have "j = i + length ([] :: string)" by simp
    ultimately show ?thesis by blast
  next
    case False
    with Cons.prems have "find_from sub cs (Suc i) = Some j" by simp
    from Cons.IH [OF this] obtain pre post where "cs = pre @ sub @ post" "j = Suc i + length pre"
      by blast
    then have "c # cs = (c # pre) @ sub @ post \<and> j = i + length (c # pre)" by simp
    then show ?thesis by blast
  qed
qed

lemma find_from_least:
  "find_from sub s i = Some j \<Longrightarrow> s = pre @ sub @ post \<Longrightarrow> j \<le> i + length pre"
proof (induction s arbitrary: i pre)
  case Nil
  then show ?case by (auto split: if_splits)
next
  case (Cons c cs)
  show ?case
  proof (cases "startswith (c # cs) sub")
    case True
    with Cons.prems(1) show ?thesis by simp
  next
    case False
    with Cons.prems(1) have r: "find_from sub cs (Suc i) = Some j" by simp
    show ?thesis
    proof (cases pre)
      case Nil
      with Cons.prems(2) False show ?thesis using startswith_append [of sub post] by simp
    next
      case (Cons p ps)
      with Cons.prems(2) have "cs = ps @ sub @ post" by simp
      from Cons.IH [OF r this] Cons show ?thesis by simp
    qed
  qed
qed

lemma py_find_first:
  assumes "text = pre @ sub @ post" and "start \<le> length pre"
    and "\<And>pre' post'. text = pre' @ sub @ post' \<Longrightarrow> start \<le> length pre' \<Longrightarrow> length pre \<le> length pre'"
  shows "py_find text sub start = int (length pre)"
proof -
  have d: "drop start text = drop start pre @ sub @ post" using assms(1,2) by simp
  have m: "\<And>pre' post'. drop start text = pre' @ sub @ post' \<Longrightarrow> length (drop start pre) \<le> length pre'"
  proof -
    fix pre' post' assume a: "drop start text = pre' @ sub @ post'"
    have "text = (take start text @ pre') @ sub @ post'"
      using a by (metis append.assoc append_take_drop_id)
    moreover have "start \<le> length (take start text @ pre')" using assms(1,2) by simp
    ultimately have "length pre \<le> length (take start text @ pre')" by (rule assms(3))
    then show "length (drop start pre) \<le> length pre'" using assms(1,2) by simp
  qed
  have "find_from sub (drop start text) start = Some (start + length (drop start pre))"
    by (rule find_from_first [OF d m])
  moreover have "\<not> length text < start" using assms(1,2) by simp
  ultimately show ?thesis using assms(2) by (simp add: py_find_def)
qed

lemma py_find_none:
  assumes "\<And>pre post. text = pre @ sub @ post \<Longrightarrow> length pre < start"
  shows "py_find text sub start = - 1"
proof (cases "length text < start")
  case True
  then show ?thesis by (simp add: py_find_def)
next
  case False
  show ?thesis
  proof (cases "find_from sub (drop start text) start")
    case None
    then show ?thesis by (simp add: py_find_def)
  next
    case (Some j)
    from find_from_Some [OF Some] obtain pre post where d: "drop start text = pre @ sub @ post"
      by blast
    have "text = (take start text @ pre) @ sub @ post"
      using d by (metis append.assoc append_take_drop_id)
    from assms [OF this] False show ?thesis by simp
  qed
qed

lemma py_find_range: "py_find text sub start = - 1 \<or> int start \<le> py_find text sub start"
  by (auto simp: py_find_def dest: find_from_ge split: option.splits)

lemma fence_not_early:
  assumes "startswith text ''---''" and "text = pre @ ''\<newline>---'' @ post"
  shows "3 \<le> length pre"
proof (rule ccontr)
  assume "\<not> 3 \<le> length pre"
  then have l: "length pre < 3" by simp
  from assms(1) obtain rest where t: "text = ''---'' @ rest" using startswith_decomp by blast
  have "text ! length pre = CHR ''\<newline>''" unfolding assms(2) by (simp add: nth_append)
  moreover have "text ! length pre = CHR ''-''"
    using l unfolding t by (cases "length pre") (auto simp: nth_Cons split: nat.splits)
  ultimately show False by simp
qed

lemma py_find_le: "py_find text sub start = int j \<Longrightarrow> j + length sub \<le> length text"
proof -
  assume a: "py_find text sub start = int j"
  then have ls: "\<not> length text < start" and f: "find_from sub (drop start text) start = Some j"
    by (auto simp: py_find_def split: if_splits option.splits)
  from find_from_Some [OF f] obtain pre post
    where d: "drop start text = pre @ sub @ post" and j: "j = start + length pre" by blast
  have "length (drop start text) = length pre + length sub + length post" unfolding d by simp
  with ls j show ?thesis by simp
qed

lemma strip_front_matter_fixed:
  "strip_front_matter y = y \<longleftrightarrow> \<not> (startswith y ''---'' \<and> py_find y ''\<newline>---'' 3 \<noteq> - 1)"
proof (cases "startswith y ''---'' \<and> py_find y ''\<newline>---'' 3 \<noteq> - 1")
  case True
  then have "3 \<le> py_find y ''\<newline>---'' 3" using py_find_range [of y "''\<newline>---''" 3] by simp
  then have "0 \<le> py_find y ''\<newline>---'' 3" by simp
  then obtain j where j: "py_find y ''\<newline>---'' 3 = int j" using zero_le_imp_eq_int by blast
  from py_find_le [OF j] have "j + 4 \<le> length y" by simp
  then have "length (drop (j + 4) y) < length y" by simp
  then have "length (lstrip (drop (j + 4) y)) < length y"
    using length_lstrip [of "drop (j + 4) y"] by simp
  moreover have "strip_front_matter y = lstrip (drop (j + 4) y)"
    using True j by (simp add: strip_front_matter_def Let_def nat_add_distrib)
  ultimately have "strip_front_matter y \<noteq> y" by auto
  with True show ?thesis by simp
next
  case False
  then show ?thesis by (auto simp: strip_front_matter_def Let_def)
qed

section \<open>Properties of the content transform\<close>

text \<open>
  Claim C7. When the text begins with the fence \<open>---\<close>, \<open>strip_front_matter\<close> returns
  what follows the first closing fence (the first occurrence of a newline followed by
  \<open>---\<close>), with leading whitespace removed; the part after that fence may hold further
  fences. A text with no leading fence is returned unchanged. On the input
  \<open>"---\nid: x\n---\n\nBody"\<close> the result is exactly \<open>"Body"\<close>.
\<close>

theorem strip_front_matter_first_fence:
  "(startswith text ''---'' \<and> text = pre @ ''\<newline>---'' @ post
      \<and> (\<forall>pre' post'. text = pre' @ ''\<newline>---'' @ post' \<longrightarrow> length pre \<le> length pre')
      \<longrightarrow> strip_front_matter text = lstrip post)
   \<and> (\<not> startswith text ''---'' \<longrightarrow> strip_front_matter text = text)
   \<and> strip_front_matter ''---\<newline>id: x\<newline>---\<newline>\<newline>Body'' = ''Body''"
proof (intro conjI impI)
  assume a: "startswith text ''---'' \<and> text = pre @ ''\<newline>---'' @ post
      \<and> (\<forall>pre' post'. text = pre' @ ''\<newline>---'' @ post' \<longrightarrow> length pre \<le> length pre')"
  then have s: "startswith text ''---''" and t: "text = pre @ ''\<newline>---'' @ post"
    and m: "\<And>pre' post'. text = pre' @ ''\<newline>---'' @ post' \<Longrightarrow> length pre \<le> length pre'"
    by blast+
  have "3 \<le> length pre" by (rule fence_not_early [OF s t])
  then have f: "py_find text ''\<newline>---'' 3 = int (length pre)"
    by (rule py_find_first [OF t _ m])
  have "drop (length pre + 4) text = post" unfolding t by simp
  then show "strip_front_matter text = lstrip post"
    using s f by (simp add: strip_front_matter_def Let_def nat_add_distrib)
next
  assume "\<not> startswith text ''---''"
  then show "strip_front_matter text = text" by (simp add: strip_front_matter_def)
next
  show "strip_front_matter ''---\<newline>id: x\<newline>---\<newline>\<newline>Body'' = ''Body''"
    by (simp add: strip_front_matter_def startswith_def py_find_def lstrip_def py_isspace_def)
qed

text \<open>
  The theorem at a document whose body holds a fence after the legitimate close, and at
  a document without front matter.
\<close>

theorem strip_front_matter_first_fence_witness:
  "strip_front_matter ''---\<newline>id: x\<newline>---\<newline>\<newline>Body\<newline>---\<newline>more'' = ''Body\<newline>---\<newline>more''
   \<and> strip_front_matter ''Body'' = ''Body''"
proof -
  let ?t = "''---\<newline>id: x\<newline>---\<newline>\<newline>Body\<newline>---\<newline>more''"
  let ?pre = "''---\<newline>id: x''"
  let ?post = "''\<newline>\<newline>Body\<newline>---\<newline>more''"
  have h1: "startswith ?t ''---''" by (simp add: startswith_def)
  have h2: "?t = ?pre @ ''\<newline>---'' @ ?post" by simp
  have ff: "find_from ''\<newline>---'' ?t 0 = Some 9" by (simp add: startswith_def)
  have h3: "\<forall>pre' post'. ?t = pre' @ ''\<newline>---'' @ post' \<longrightarrow> length ?pre \<le> length pre'"
    using find_from_least [OF ff] by fastforce
  have h4: "\<not> startswith ''Body'' ''---''" by (simp add: startswith_def)
  have "strip_front_matter ?t = lstrip ?post"
    using strip_front_matter_first_fence [of ?t ?pre ?post] h1 h2 h3 by blast
  moreover have "strip_front_matter ''Body'' = ''Body''"
    using strip_front_matter_first_fence [of "''Body''"] h4 by blast
  ultimately show ?thesis by (simp add: lstrip_def py_isspace_def)
qed

text \<open>
  Claim C8, as stated, fails: a body that itself opens with a fence and closes one later
  loses a second block when stripped again.
\<close>

theorem strip_front_matter_not_idempotent:
  "strip_front_matter (strip_front_matter ''---\<newline>id: x\<newline>---\<newline>\<newline>---\<newline>Body\<newline>---\<newline>More'')
   \<noteq> strip_front_matter ''---\<newline>id: x\<newline>---\<newline>\<newline>---\<newline>Body\<newline>---\<newline>More''"
  by (simp add: strip_front_matter_def startswith_def py_find_def lstrip_def py_isspace_def)


text \<open>
  Claim C8, amended. Stripping twice gives the same as stripping once exactly when the
  stripped text does not itself begin with \<open>---\<close> and hold a newline followed by \<open>---\<close>
  at offset 3 or later.
\<close>

theorem strip_front_matter_twice:
  "strip_front_matter (strip_front_matter x) = strip_front_matter x \<longleftrightarrow>
   \<not> (startswith (strip_front_matter x) ''---''
       \<and> py_find (strip_front_matter x) ''\<newline>---'' 3 \<noteq> - 1)"
  by (rule strip_front_matter_fixed)

theorem strip_front_matter_twice_witness:
  "strip_front_matter (strip_front_matter ''---\<newline>id: x\<newline>---\<newline>\<newline>Body'')
   = strip_front_matter ''---\<newline>id: x\<newline>---\<newline>\<newline>Body''"
proof -
  have e: "strip_front_matter ''---\<newline>id: x\<newline>---\<newline>\<newline>Body'' = ''Body''"
    by (simp add: strip_front_matter_def startswith_def py_find_def lstrip_def py_isspace_def)
  have "\<not> (startswith ''Body'' ''---'' \<and> py_find ''Body'' ''\<newline>---'' 3 \<noteq> - 1)"
    by (simp add: startswith_def)
  then show ?thesis
    using strip_front_matter_twice [of "''---\<newline>id: x\<newline>---\<newline>\<newline>Body''"]
    unfolding e by blast
qed

text \<open>
  Claim C10. A text that starts with \<open>---\<close> and holds no closing fence (a newline
  followed by \<open>---\<close>) at offset 3 or later, the offset the search starts from, is
  returned unchanged.
\<close>

theorem strip_front_matter_unterminated:
  assumes "startswith text ''---''"
    and "\<forall>pre post. text = pre @ ''\<newline>---'' @ post \<longrightarrow> length pre < 3"
  shows "strip_front_matter text = text"
proof -
  have "py_find text ''\<newline>---'' 3 = - 1" using assms(2) by (intro py_find_none) blast
  then show ?thesis by (simp add: strip_front_matter_def)
qed

theorem strip_front_matter_unterminated_witness:
  "strip_front_matter ''---\<newline>id: x\<newline>--\<newline>Body'' = ''---\<newline>id: x\<newline>--\<newline>Body''"
proof -
  let ?t = "''---\<newline>id: x\<newline>--\<newline>Body''"
  have h1: "startswith ?t ''---''" by (simp add: startswith_def)
  have ff: "find_from ''\<newline>---'' ?t 0 = None" by (simp add: startswith_def)
  have h2: "\<forall>pre post. ?t = pre @ ''\<newline>---'' @ post \<longrightarrow> length pre < 3"
    using find_from_None [OF ff] by blast
  show ?thesis by (rule strip_front_matter_unterminated [OF h1 h2])
qed

section \<open>Properties of the REST helper and of course creation\<close>

lemma api_reply:
  assumes "http P (remote s) (api_request base token function params) = (Reply status body, w')"
  shows "api P base token function params s =
           (api_result P function (status, body),
            s\<lparr>remote := w', trace := trace s @ [Http (api_request base token function params)]\<rparr>)"
  using assms by (simp add: api_def and_then_def request_def send_def ret_def lift_def)

lemma api_result_ok:
  assumes "\<not> (400 \<le> status \<and> status < 600)" and "json_loads P body = Some (JObj kvs)"
    and "map_of kvs ''exception'' = None"
  shows "api_result P function (status, body) = Inr (JObj kvs)"
  using assms by (simp add: api_result_def)

lemma api_result_list:
  assumes "\<not> (400 \<le> status \<and> status < 600)" and "json_loads P body = Some (JList xs)"
  shows "api_result P function (status, body) = Inr (JList xs)"
  using assms by (simp add: api_result_def)

lemma requests_of_append [simp]: "requests_of (xs @ ys) = requests_of xs @ requests_of ys"
  by (simp add: requests_of_def)

lemma requests_of_simps [simp]:
  "requests_of [] = []"
  "requests_of (Http r # evs) = r # requests_of evs"
  "requests_of (Print ps # evs) = requests_of evs"
  by (simp_all add: requests_of_def)

lemma ensure_course_found:
  assumes l: "http P (remote s) (api_request base token ''core_course_get_courses_by_field'' (lookup_params course_id)) = (Reply status body, w1)"
    and ok: "\<not> (400 \<le> status \<and> status < 600)"
    and js: "json_loads P body = Some (JObj kvs)"
    and ne: "map_of kvs ''exception'' = None"
    and cs: "map_of kvs ''courses'' = Some (JList (JObj c # others))"
    and cid: "map_of c ''id'' = Some moodle_id"
  shows "ensure_course P base token course_id course_title s =
           (Inr moodle_id,
            s\<lparr>remote := w1,
              trace := trace s @
                [Http (api_request base token ''core_course_get_courses_by_field'' (lookup_params course_id)),
                 Print [Lit ''  Course already exists (id='', VJson moodle_id, Lit ''): '', Lit course_title,
                        Lit ''\<newline>'']]\<rparr>)"
  unfolding ensure_course_def and_then_def api_reply [OF l] api_result_ok [OF ok js ne]
  using cs cid
  by (simp add: lift_def json_get_def truthy_def item0_def item_def print_def emit_def ret_def)

lemma ensure_course_missing:
  assumes l: "http P (remote s) (api_request base token ''core_course_get_courses_by_field'' (lookup_params course_id)) = (Reply status body, w1)"
    and ok: "\<not> (400 \<le> status \<and> status < 600)"
    and js: "json_loads P body = Some (JObj kvs)"
    and ne: "map_of kvs ''exception'' = None"
    and cs: "map_of kvs ''courses'' = None \<or> map_of kvs ''courses'' = Some (JList [])"
  shows "ensure_course P base token course_id course_title s =
           and_then (api P base token ''core_course_create_courses'' (create_params course_id course_title)) (\<lambda>created.
           and_then (lift (item0 created)) (\<lambda>first.
           and_then (lift (item first ''id'')) (\<lambda>moodle_id.
           and_then (print [Lit ''  Created course (id='', VJson moodle_id, Lit ''): '', Lit course_title]) (\<lambda>_.
           ret moodle_id))))
             (s\<lparr>remote := w1,
              trace := trace s @
                [Http (api_request base token ''core_course_get_courses_by_field'' (lookup_params course_id))]\<rparr>)"
  unfolding ensure_course_def and_then_def [of "api P base token ''core_course_get_courses_by_field'' (lookup_params course_id)"]
    api_reply [OF l] api_result_ok [OF ok js ne]
  using cs
  by (auto simp: lift_def json_get_def truthy_def and_then_def)


lemma api_trace:
  "trace (snd (api P base token function params s)) =
     trace s @ [Http (api_request base token function params)]"
  by (simp add: api_def and_then_def request_def send_def ret_def raise_def lift_def
      split: prod.splits http_reply.splits sum.splits)

lemma api_remote:
  "http P (remote s) (api_request base token function params) = (reply, w') \<Longrightarrow>
   remote (snd (api P base token function params s)) = w'"
  by (simp add: api_def and_then_def request_def send_def ret_def raise_def lift_def
      split: prod.splits http_reply.splits sum.splits)

lemma after_create_requests:
  "requests_of (trace (snd (
      and_then (api P base token function params) (\<lambda>created.
      and_then (lift (item0 created)) (\<lambda>first.
      and_then (lift (item first ''id'')) (\<lambda>moodle_id.
      and_then (print (ps moodle_id)) (\<lambda>_. ret moodle_id)))) s)))
   = requests_of (trace s) @ [api_request base token function params]"
proof -
  obtain r s1 where a: "api P base token function params s = (r, s1)" by (cases "api P base token function params s")
  have t: "trace s1 = trace s @ [Http (api_request base token function params)]"
    using api_trace [of P base token "function" params s] a by simp
  show ?thesis
    unfolding and_then_def [of "api P base token function params"] a
    using t
    by (simp add: and_then_def lift_def print_def emit_def ret_def split: sum.splits prod.splits)
qed

text \<open>
  Claim C6. Once the HTTP status is not an error and the body decodes, \<open>api\<close> raises
  exactly when the decoded response is a mapping with an \<open>exception\<close> key; the error is
  the \<open>RuntimeError\<close> that carries the function name and the server's \<open>message\<close> (the
  whole mapping when it has none). Every other decoded response is returned as it is.
\<close>

theorem api_domain_error:
  assumes "http P (remote s) (api_request base token function params) = (Reply status body, w')"
    and "\<not> (400 \<le> status \<and> status < 600)"
    and "json_loads P body = Some data"
  shows "((\<exists>kvs. data = JObj kvs \<and> map_of kvs ''exception'' \<noteq> None) \<longrightarrow>
            (\<exists>kvs. data = JObj kvs \<and>
               fst (api P base token function params s) =
                 Inl (RuntimeError [Lit ''Moodle API error ['', Lit function, Lit '']: '',
                        VJson (case map_of kvs ''message'' of Some m \<Rightarrow> m | None \<Rightarrow> data)])))
       \<and> (\<not> (\<exists>kvs. data = JObj kvs \<and> map_of kvs ''exception'' \<noteq> None) \<longrightarrow>
            fst (api P base token function params s) = Inr data)
       \<and> ((\<exists>e. fst (api P base token function params s) = Inl e) \<longleftrightarrow>
            (\<exists>kvs. data = JObj kvs \<and> map_of kvs ''exception'' \<noteq> None))"
  using assms(2,3) unfolding api_reply [OF assms(1)]
  by (cases data) (auto simp: api_result_def split: option.splits)

theorem api_domain_error_witness:
  "fst (api (scripted (map_of [(''E'', JObj [(''exception'', JStr ''invalid_token''), (''message'', JStr ''Invalid token'')]),
                               (''L'', JList [JNum 1])]) (\<lambda>t. Inl YAMLError))
          ''http://localhost:8080'' ''t0'' ''core_webservice_get_site_info'' []
          (initially ([Reply 200 ''E''], []) (\<lambda>p. None)))
     = Inl (RuntimeError [Lit ''Moodle API error ['', Lit ''core_webservice_get_site_info'', Lit '']: '',
                          VJson (JStr ''Invalid token'')])
   \<and> fst (api (scripted (map_of [(''E'', JObj [(''exception'', JStr ''invalid_token''), (''message'', JStr ''Invalid token'')]),
                               (''L'', JList [JNum 1])]) (\<lambda>t. Inl YAMLError))
          ''http://localhost:8080'' ''t0'' ''core_webservice_get_site_info'' []
          (initially ([Reply 200 ''L''], []) (\<lambda>p. None)))
     = Inr (JList [JNum 1])"
proof -
  let ?P = "scripted (map_of [(''E'', JObj [(''exception'', JStr ''invalid_token''), (''message'', JStr ''Invalid token'')]),
                               (''L'', JList [JNum 1])]) (\<lambda>t. Inl YAMLError)"
  let ?rq = "api_request ''http://localhost:8080'' ''t0'' ''core_webservice_get_site_info'' []"
  let ?sE = "initially ([Reply 200 ''E''], [] :: proc_result list) (\<lambda>p. None)"
  let ?sL = "initially ([Reply 200 ''L''], [] :: proc_result list) (\<lambda>p. None)"
  have e1: "http ?P (remote ?sE) ?rq = (Reply 200 ''E'', ([], []))" by (simp add: scripted_def initially_def)
  have l1: "http ?P (remote ?sL) ?rq = (Reply 200 ''L'', ([], []))" by (simp add: scripted_def initially_def)
  have st: "\<not> (400 \<le> (200::nat) \<and> (200::nat) < 600)" by simp
  have e3: "json_loads ?P ''E'' = Some (JObj [(''exception'', JStr ''invalid_token''), (''message'', JStr ''Invalid token'')])"
    by (simp add: scripted_def)
  have l3: "json_loads ?P ''L'' = Some (JList [JNum 1])" by (simp add: scripted_def)
  from api_domain_error [OF e1 st e3] have "fst (api ?P ''http://localhost:8080'' ''t0'' ''core_webservice_get_site_info'' [] ?sE)
     = Inl (RuntimeError [Lit ''Moodle API error ['', Lit ''core_webservice_get_site_info'', Lit '']: '',
                          VJson (JStr ''Invalid token'')])" by simp
  moreover from api_domain_error [OF l1 st l3] have "fst (api ?P ''http://localhost:8080'' ''t0'' ''core_webservice_get_site_info'' [] ?sL)
     = Inr (JList [JNum 1])" by simp
  ultimately show ?thesis by blast
qed

text \<open>
  Claim C1. Let the lookup by \<open>idnumber\<close> answer with a mapping that has no \<open>exception\<close>
  key. If its \<open>courses\<close> list starts with a course that has an \<open>id\<close>, the course is
  present: \<open>ensure_course\<close> returns that \<open>id\<close> and the lookup is the only request it
  sends. If \<open>courses\<close> is missing or empty, the course is absent: the requests sent are
  the lookup and then one creation call for this \<open>idnumber\<close>, whatever the server answers
  to it, and when that answer is a list whose first element has an \<open>id\<close>, that \<open>id\<close> is
  returned.
\<close>

theorem ensure_course_idempotent:
  assumes l: "http P (remote s) (api_request base token ''core_course_get_courses_by_field'' (lookup_params course_id)) = (Reply status body, w1)"
    and ok: "\<not> (400 \<le> status \<and> status < 600)"
    and js: "json_loads P body = Some (JObj kvs)"
    and ne: "map_of kvs ''exception'' = None"
  shows "(\<forall>c others moodle_id.
            map_of kvs ''courses'' = Some (JList (JObj c # others)) \<and> map_of c ''id'' = Some moodle_id \<longrightarrow>
              fst (ensure_course P base token course_id course_title s) = Inr moodle_id
              \<and> requests_of (trace (snd (ensure_course P base token course_id course_title s)))
                  = requests_of (trace s)
                    @ [api_request base token ''core_course_get_courses_by_field'' (lookup_params course_id)])
       \<and> (map_of kvs ''courses'' = None \<or> map_of kvs ''courses'' = Some (JList []) \<longrightarrow>
            requests_of (trace (snd (ensure_course P base token course_id course_title s)))
              = requests_of (trace s)
                @ [api_request base token ''core_course_get_courses_by_field'' (lookup_params course_id),
                   api_request base token ''core_course_create_courses'' (create_params course_id course_title)]
            \<and> (\<forall>status2 body2 w2 c others new_id.
                  http P w1 (api_request base token ''core_course_create_courses'' (create_params course_id course_title))
                    = (Reply status2 body2, w2)
                  \<and> \<not> (400 \<le> status2 \<and> status2 < 600)
                  \<and> json_loads P body2 = Some (JList (JObj c # others))
                  \<and> map_of c ''id'' = Some new_id \<longrightarrow>
                    fst (ensure_course P base token course_id course_title s) = Inr new_id))"
proof (intro conjI allI impI)
  fix c others moodle_id
  assume "map_of kvs ''courses'' = Some (JList (JObj c # others)) \<and> map_of c ''id'' = Some moodle_id"
  then have e: "ensure_course P base token course_id course_title s =
           (Inr moodle_id,
            s\<lparr>remote := w1,
              trace := trace s @
                [Http (api_request base token ''core_course_get_courses_by_field'' (lookup_params course_id)),
                 Print [Lit ''  Course already exists (id='', VJson moodle_id, Lit ''): '', Lit course_title,
                        Lit ''\<newline>'']]\<rparr>)"
    using ensure_course_found [OF l ok js ne] by blast
  show "fst (ensure_course P base token course_id course_title s) = Inr moodle_id"
    unfolding e by simp
  show "requests_of (trace (snd (ensure_course P base token course_id course_title s)))
          = requests_of (trace s)
            @ [api_request base token ''core_course_get_courses_by_field'' (lookup_params course_id)]"
    unfolding e by simp
next
  assume m: "map_of kvs ''courses'' = None \<or> map_of kvs ''courses'' = Some (JList [])"
  note e = ensure_course_missing [OF l ok js ne m, of course_title]
  show "requests_of (trace (snd (ensure_course P base token course_id course_title s)))
              = requests_of (trace s)
                @ [api_request base token ''core_course_get_courses_by_field'' (lookup_params course_id),
                   api_request base token ''core_course_create_courses'' (create_params course_id course_title)]"
    unfolding e by (simp add: after_create_requests)
next
  fix status2 body2 w2 c others new_id
  assume m: "map_of kvs ''courses'' = None \<or> map_of kvs ''courses'' = Some (JList [])"
  assume h: "http P w1 (api_request base token ''core_course_create_courses'' (create_params course_id course_title))
                    = (Reply status2 body2, w2)
                  \<and> \<not> (400 \<le> status2 \<and> status2 < 600)
                  \<and> json_loads P body2 = Some (JList (JObj c # others))
                  \<and> map_of c ''id'' = Some new_id"
  note e = ensure_course_missing [OF l ok js ne m, of course_title]
  let ?s1 = "s\<lparr>remote := w1,
              trace := trace s @
                [Http (api_request base token ''core_course_get_courses_by_field'' (lookup_params course_id))]\<rparr>"
  have r: "http P (remote ?s1) (api_request base token ''core_course_create_courses'' (create_params course_id course_title))
             = (Reply status2 body2, w2)" using h by simp
  have a: "api_result P ''core_course_create_courses'' (status2, body2) = Inr (JList (JObj c # others))"
    using h by (intro api_result_list) auto
  show "fst (ensure_course P base token course_id course_title s) = Inr new_id"
    unfolding e and_then_def [of "api P base token ''core_course_create_courses'' (create_params course_id course_title)"]
      api_reply [OF r] a
    using h by (simp add: and_then_def lift_def item0_def item_def print_def emit_def ret_def)
qed


theorem ensure_course_idempotent_witness:
  "fst (ensure_course (scripted (map_of [(''found'', JObj [(''courses'', JList [JObj [(''id'', JNum 7)]])]),
                                         (''none'', JObj [(''courses'', JList [])]),
                                         (''made'', JList [JObj [(''id'', JNum 8)]])]) (\<lambda>t. Inl YAMLError))
          ''http://localhost:8080'' ''t0'' ''c1'' ''C1''
          (initially ([Reply 200 ''found''], []) (\<lambda>p. None)))
     = Inr (JNum 7)
   \<and> requests_of (trace (snd (ensure_course (scripted (map_of [(''found'', JObj [(''courses'', JList [JObj [(''id'', JNum 7)]])]),
                                         (''none'', JObj [(''courses'', JList [])]),
                                         (''made'', JList [JObj [(''id'', JNum 8)]])]) (\<lambda>t. Inl YAMLError))
          ''http://localhost:8080'' ''t0'' ''c1'' ''C1''
          (initially ([Reply 200 ''found''], []) (\<lambda>p. None)))))
     = [api_request ''http://localhost:8080'' ''t0'' ''core_course_get_courses_by_field'' (lookup_params ''c1'')]
   \<and> fst (ensure_course (scripted (map_of [(''found'', JObj [(''courses'', JList [JObj [(''id'', JNum 7)]])]),
                                         (''none'', JObj [(''courses'', JList [])]),
                                         (''made'', JList [JObj [(''id'', JNum 8)]])]) (\<lambda>t. Inl YAMLError))
          ''http://localhost:8080'' ''t0'' ''c1'' ''C1''
          (initially ([Reply 200 ''none'', Reply 200 ''made''], []) (\<lambda>p. None)))
     = Inr (JNum 8)
   \<and> requests_of (trace (snd (ensure_course (scripted (map_of [(''found'', JObj [(''courses'', JList [JObj [(''id'', JNum 7)]])]),
                                         (''none'', JObj [(''courses'', JList [])]),
                                         (''made'', JList [JObj [(''id'', JNum 8)]])]) (\<lambda>t. Inl YAMLError))
          ''http://localhost:8080'' ''t0'' ''c1'' ''C1''
          (initially ([Reply 200 ''none'', Reply 200 ''made''], []) (\<lambda>p. None)))))
     = [api_request ''http://localhost:8080'' ''t0'' ''core_course_get_courses_by_field'' (lookup_params ''c1''),
        api_request ''http://localhost:8080'' ''t0'' ''core_course_create_courses'' (create_params ''c1'' ''C1'')]"
proof -
  let ?P = "scripted (map_of [(''found'', JObj [(''courses'', JList [JObj [(''id'', JNum 7)]])]),
                                         (''none'', JObj [(''courses'', JList [])]),
                                         (''made'', JList [JObj [(''id'', JNum 8)]])]) (\<lambda>t. Inl YAMLError)"
  let ?lk = "api_request ''http://localhost:8080'' ''t0'' ''core_course_get_courses_by_field'' (lookup_params ''c1'')"
  let ?cr = "api_request ''http://localhost:8080'' ''t0'' ''core_course_create_courses'' (create_params ''c1'' ''C1'')"
  let ?sF = "initially ([Reply 200 ''found''], [] :: proc_result list) (\<lambda>p. None)"
  let ?sN = "initially ([Reply 200 ''none'', Reply 200 ''made''], [] :: proc_result list) (\<lambda>p. None)"
  have st: "\<not> (400 \<le> (200::nat) \<and> (200::nat) < 600)" by simp
  have f1: "http ?P (remote ?sF) ?lk = (Reply 200 ''found'', ([], []))" by (simp add: scripted_def initially_def)
  have f3: "json_loads ?P ''found'' = Some (JObj [(''courses'', JList [JObj [(''id'', JNum 7)]])])"
    by (simp add: scripted_def)
  have f4: "map_of [(''courses'', JList [JObj [(''id'', JNum 7)]])] ''exception'' = None" by simp
  have n1: "http ?P (remote ?sN) ?lk = (Reply 200 ''none'', ([Reply 200 ''made''], []))"
    by (simp add: scripted_def initially_def)
  have n3: "json_loads ?P ''none'' = Some (JObj [(''courses'', JList [])])" by (simp add: scripted_def)
  have n4: "map_of [(''courses'', JList [])] ''exception'' = None" by simp
  have n5: "http ?P ([Reply 200 ''made''], []) ?cr = (Reply 200 ''made'', ([], []))" by (simp add: scripted_def)
  have n6: "json_loads ?P ''made'' = Some (JList [JObj [(''id'', JNum 8)]])" by (simp add: scripted_def)
  have t0: "trace ?sF = []" "trace ?sN = []" by (simp_all add: initially_def)
  from ensure_course_idempotent [OF f1 st f3 f4, of "''C1''"]
  have a: "fst (ensure_course ?P ''http://localhost:8080'' ''t0'' ''c1'' ''C1'' ?sF) = Inr (JNum 7)
       \<and> requests_of (trace (snd (ensure_course ?P ''http://localhost:8080'' ''t0'' ''c1'' ''C1'' ?sF))) = [?lk]"
    unfolding t0 by simp
  from ensure_course_idempotent [OF n1 st n3 n4, of "''C1''"] n5 n6
  have b: "fst (ensure_course ?P ''http://localhost:8080'' ''t0'' ''c1'' ''C1'' ?sN) = Inr (JNum 8)
       \<and> requests_of (trace (snd (ensure_course ?P ''http://localhost:8080'' ''t0'' ''c1'' ''C1'' ?sN))) = [?lk, ?cr]"
    unfolding t0 by simp
  from a b show ?thesis by blast
qed



section \<open>Properties of the ledger grouping\<close>

lemma setdefault_append_has: "\<exists>m \<in> set (setdefault_append k e ms). e \<in> set (snd m)"
proof (induction ms)
  case Nil
  then show ?case by simp
next
  case (Cons m ms)
  then show ?case by (cases m) fastforce
qed

lemma setdefault_append_keeps:
  "m \<in> set ms \<Longrightarrow> x \<in> set (snd m) \<Longrightarrow> \<exists>m' \<in> set (setdefault_append k e ms). x \<in> set (snd m')"
proof (induction ms)
  case Nil
  then show ?case by simp
next
  case (Cons a ms)
  then show ?case by (cases a) fastforce
qed

lemma group_entry_cases:
  assumes "group_entry U entry courses = Inr courses'"
  obtains kvs course_id mod_id where
    "entry = YMap kvs"
    "(case map_of kvs (YStr ''course_id'') of Some v \<Rightarrow> v | None \<Rightarrow> YStr ''mtat-preview'') = YStr course_id"
    "hashable mod_id"
    "courses' = AList.map_entry course_id
                  (\<lambda>c. c\<lparr>modules := setdefault_append mod_id entry (modules c)\<rparr>)
                  (if map_of courses course_id = None
                   then courses @ [(course_id, new_course U course_id)] else courses)"
proof -
  from assms obtain kvs where e: "entry = YMap kvs"
    by (cases entry) (auto simp: group_entry_def yaml_get_def)
  let ?cid = "case map_of kvs (YStr ''course_id'') of Some v \<Rightarrow> v | None \<Rightarrow> YStr ''mtat-preview''"
  from assms e obtain course_id where c: "?cid = YStr course_id"
    by (cases ?cid) (auto simp: group_entry_def yaml_get_def hashable_def split: if_splits)
  let ?mid = "case map_of kvs (YStr ''module_id'') of Some v \<Rightarrow> v
              | None \<Rightarrow> (case map_of kvs (YStr ''module_path'') of Some v \<Rightarrow> v | None \<Rightarrow> YStr ''unknown'')"
  from assms e c have "hashable ?mid \<and> courses' = AList.map_entry course_id
                  (\<lambda>c. c\<lparr>modules := setdefault_append ?mid entry (modules c)\<rparr>)
                  (if map_of courses course_id = None
                   then courses @ [(course_id, new_course U course_id)] else courses)"
    by (auto simp: group_entry_def yaml_get_def hashable_def Let_def split: if_splits)
  with e c that show thesis by blast
qed


lemma setdefault_append_from:
  "m' \<in> set (setdefault_append k e ms) \<Longrightarrow> x \<in> set (snd m') \<Longrightarrow>
   x = e \<or> (\<exists>m \<in> set ms. x \<in> set (snd m))"
proof (induction ms)
  case Nil
  then show ?case by auto
next
  case (Cons a ms)
  then show ?case by (cases a) (fastforce split: if_splits)
qed

lemma map_entry_set:
  "(k', c') \<in> set (AList.map_entry k f xs) \<Longrightarrow>
   (k', c') \<in> set xs \<or> (k' = k \<and> (\<exists>c. (k, c) \<in> set xs \<and> c' = f c))"
  by (induction xs) (auto split: if_splits)

lemma group_entry_step:
  assumes "group_entry U entry courses = Inr courses'"
  obtains kvs course_id where
    "entry = YMap kvs"
    "(case map_of kvs (YStr ''course_id'') of Some v \<Rightarrow> v | None \<Rightarrow> YStr ''mtat-preview'') = YStr course_id"
    "hashable (module_key kvs)"
    "courses' = AList.map_entry course_id
                  (\<lambda>c. c\<lparr>modules := setdefault_append (module_key kvs) entry (modules c)\<rparr>)
                  (if map_of courses course_id = None
                   then courses @ [(course_id, new_course U course_id)] else courses)"
proof -
  from assms obtain kvs where e: "entry = YMap kvs"
    by (cases entry) (auto simp: group_entry_def yaml_get_def)
  let ?cid = "case map_of kvs (YStr ''course_id'') of Some v \<Rightarrow> v | None \<Rightarrow> YStr ''mtat-preview''"
  from assms e obtain course_id where c: "?cid = YStr course_id"
    by (cases ?cid) (auto simp: group_entry_def yaml_get_def hashable_def split: if_splits)
  from assms e c have "hashable (module_key kvs) \<and> courses' = AList.map_entry course_id
                  (\<lambda>c. c\<lparr>modules := setdefault_append (module_key kvs) entry (modules c)\<rparr>)
                  (if map_of courses course_id = None
                   then courses @ [(course_id, new_course U course_id)] else courses)"
    by (auto simp: group_entry_def yaml_get_def hashable_def Let_def module_key_def split: if_splits)
  with e c that show thesis by blast
qed

lemma group_entry_map_of:
  assumes "group_entry U entry courses = Inr courses'"
  shows "\<exists>kvs course_id.
    entry = YMap kvs \<and>
    (case map_of kvs (YStr ''course_id'') of Some v \<Rightarrow> v | None \<Rightarrow> YStr ''mtat-preview'') = YStr course_id \<and>
    (\<forall>k. map_of courses' k =
          (if k = course_id
           then Some ((case map_of courses course_id of None \<Rightarrow> new_course U course_id | Some c \<Rightarrow> c)
                       \<lparr>modules := setdefault_append (module_key kvs) entry
                          (modules (case map_of courses course_id of None \<Rightarrow> new_course U course_id | Some c \<Rightarrow> c))\<rparr>)
           else map_of courses k))"
proof -
  from assms obtain kvs course_id where
    e: "entry = YMap kvs"
    and c: "(case map_of kvs (YStr ''course_id'') of Some v \<Rightarrow> v | None \<Rightarrow> YStr ''mtat-preview'') = YStr course_id"
    and r: "courses' = AList.map_entry course_id
                  (\<lambda>c. c\<lparr>modules := setdefault_append (module_key kvs) entry (modules c)\<rparr>)
                  (if map_of courses course_id = None
                   then courses @ [(course_id, new_course U course_id)] else courses)"
    by (rule group_entry_step)
  have "\<forall>k. map_of courses' k =
          (if k = course_id
           then Some ((case map_of courses course_id of None \<Rightarrow> new_course U course_id | Some c \<Rightarrow> c)
                       \<lparr>modules := setdefault_append (module_key kvs) entry
                          (modules (case map_of courses course_id of None \<Rightarrow> new_course U course_id | Some c \<Rightarrow> c))\<rparr>)
           else map_of courses k)"
    unfolding r by (auto simp: map_of_map_entry map_add_def split: option.splits)
  with e c show ?thesis by blast
qed

lemma group_entry_titles:
  assumes "group_entry U entry courses = Inr courses'"
    and "\<forall>(k, c) \<in> set courses. title c = py_title U (replace_char CHR ''-'' CHR '' '' k)"
  shows "\<forall>(k, c) \<in> set courses'. title c = py_title U (replace_char CHR ''-'' CHR '' '' k)"
proof -
  from assms(1) obtain kvs course_id where
    r: "courses' = AList.map_entry course_id
                  (\<lambda>c. c\<lparr>modules := setdefault_append (module_key kvs) entry (modules c)\<rparr>)
                  (if map_of courses course_id = None
                   then courses @ [(course_id, new_course U course_id)] else courses)"
    by (rule group_entry_step)
  let ?cs1 = "if map_of courses course_id = None
                   then courses @ [(course_id, new_course U course_id)] else courses"
  have i1: "\<forall>(k, c) \<in> set ?cs1. title c = py_title U (replace_char CHR ''-'' CHR '' '' k)"
    using assms(2) by (auto simp: new_course_def)
  show ?thesis
  proof (clarify)
    fix k c assume "(k, c) \<in> set courses'"
    then have "(k, c) \<in> set ?cs1 \<or> (k = course_id \<and> (\<exists>c0. (course_id, c0) \<in> set ?cs1 \<and>
                 c = c0\<lparr>modules := setdefault_append (module_key kvs) entry (modules c0)\<rparr>))"
      unfolding r by (rule map_entry_set)
    with i1 show "title c = py_title U (replace_char CHR ''-'' CHR '' '' k)" by fastforce
  qed
qed

lemma group_entry_grouped:
  assumes "group_entry U entry courses = Inr courses'"
  shows "(grouped_under courses k x \<longrightarrow> grouped_under courses' k x)
       \<and> (yaml_get entry ''course_id'' (YStr ''mtat-preview'') = Inr (YStr k) \<longrightarrow> grouped_under courses' k entry)
       \<and> (grouped_under courses' k x \<longrightarrow>
            grouped_under courses k x \<or> (x = entry \<and> yaml_get entry ''course_id'' (YStr ''mtat-preview'') = Inr (YStr k)))"
proof -
  from assms obtain kvs course_id where
    e: "entry = YMap kvs"
    and c: "(case map_of kvs (YStr ''course_id'') of Some v \<Rightarrow> v | None \<Rightarrow> YStr ''mtat-preview'') = YStr course_id"
    and m: "\<And>k. map_of courses' k =
          (if k = course_id
           then Some ((case map_of courses course_id of None \<Rightarrow> new_course U course_id | Some c \<Rightarrow> c)
                       \<lparr>modules := setdefault_append (module_key kvs) entry
                          (modules (case map_of courses course_id of None \<Rightarrow> new_course U course_id | Some c \<Rightarrow> c))\<rparr>)
           else map_of courses k)"
    using group_entry_map_of by blast
  have g: "yaml_get entry ''course_id'' (YStr ''mtat-preview'') = Inr (YStr course_id)"
    using e c by (simp add: yaml_get_def)
  show ?thesis
  proof (cases "k = course_id")
    case False
    then show ?thesis using g by (simp add: grouped_under_def m)
  next
    case True
    show ?thesis
    proof (cases "map_of courses course_id")
      case None
      then show ?thesis
        using True g setdefault_append_has [of "module_key kvs" entry "[]"]
        by (auto simp: grouped_under_def m new_course_def)
    next
      case (Some c0)
      have a: "\<exists>m \<in> set (setdefault_append (module_key kvs) entry (modules c0)). entry \<in> set (snd m)"
        by (rule setdefault_append_has)
      have b: "(\<exists>m \<in> set (modules c0). x \<in> set (snd m)) \<Longrightarrow>
               \<exists>m \<in> set (setdefault_append (module_key kvs) entry (modules c0)). x \<in> set (snd m)"
        using setdefault_append_keeps by blast
      have d: "(\<exists>m \<in> set (setdefault_append (module_key kvs) entry (modules c0)). x \<in> set (snd m)) \<Longrightarrow>
               x = entry \<or> (\<exists>m \<in> set (modules c0). x \<in> set (snd m))"
        using setdefault_append_from by blast
      show ?thesis using True Some g a b d by (simp add: grouped_under_def m) blast
    qed
  qed
qed


lemma group_loop_inv:
  assumes "group_loop U es cs0 = Inr cs"
    and "\<forall>(k, c) \<in> set cs0. title c = py_title U (replace_char CHR ''-'' CHR '' '' k)"
  shows "(\<forall>(k, c) \<in> set cs. title c = py_title U (replace_char CHR ''-'' CHR '' '' k))
       \<and> (\<forall>k x. grouped_under cs0 k x \<longrightarrow> grouped_under cs k x)
       \<and> (\<forall>e \<in> set es. \<forall>k. yaml_get e ''course_id'' (YStr ''mtat-preview'') = Inr (YStr k) \<longrightarrow> grouped_under cs k e)
       \<and> (\<forall>k x. grouped_under cs k x \<longrightarrow>
             grouped_under cs0 k x \<or> (x \<in> set es \<and> yaml_get x ''course_id'' (YStr ''mtat-preview'') = Inr (YStr k)))"
  using assms
proof (induction es arbitrary: cs0)
  case Nil
  then show ?case by simp
next
  case (Cons e es)
  from Cons.prems(1) obtain cs1 where s1: "group_entry U e cs0 = Inr cs1" and r: "group_loop U es cs1 = Inr cs"
    by (auto split: sum.splits)
  have t1: "\<forall>(k, c) \<in> set cs1. title c = py_title U (replace_char CHR ''-'' CHR '' '' k)"
    by (rule group_entry_titles [OF s1 Cons.prems(2)])
  note ih = Cons.IH [OF r t1]
  note st = group_entry_grouped [OF s1]
  have a: "\<forall>(k, c) \<in> set cs. title c = py_title U (replace_char CHR ''-'' CHR '' '' k)" using ih by blast
  have b: "\<forall>k x. grouped_under cs0 k x \<longrightarrow> grouped_under cs k x" using ih st by blast
  have c: "\<forall>x \<in> set (e # es). \<forall>k. yaml_get x ''course_id'' (YStr ''mtat-preview'') = Inr (YStr k) \<longrightarrow> grouped_under cs k x"
  proof (intro ballI allI impI)
    fix x k assume x: "x \<in> set (e # es)" and g: "yaml_get x ''course_id'' (YStr ''mtat-preview'') = Inr (YStr k)"
    show "grouped_under cs k x"
    proof (cases "x = e")
      case True
      with g st [of k x] have "grouped_under cs1 k x" by blast
      with ih show ?thesis by blast
    next
      case False
      with x have "x \<in> set es" by simp
      with ih g show ?thesis by blast
    qed
  qed
  have d: "\<forall>k x. grouped_under cs k x \<longrightarrow>
             grouped_under cs0 k x \<or> (x \<in> set (e # es) \<and> yaml_get x ''course_id'' (YStr ''mtat-preview'') = Inr (YStr k))"
  proof (intro allI impI)
    fix k x assume "grouped_under cs k x"
    with ih have "grouped_under cs1 k x \<or> (x \<in> set es \<and> yaml_get x ''course_id'' (YStr ''mtat-preview'') = Inr (YStr k))"
      by blast
    with st [of k x] show "grouped_under cs0 k x \<or> (x \<in> set (e # es) \<and> yaml_get x ''course_id'' (YStr ''mtat-preview'') = Inr (YStr k))"
      by auto
  qed
  from a b c d show ?case by blast
qed

lemma group_entry_total: "(\<exists>cs'. group_entry U e cs = Inr cs') \<longleftrightarrow> groupable e"
proof (cases e)
  case (YMap kvs)
  show ?thesis
  proof (cases "map_of kvs (YStr ''course_id'')")
    case None
    with YMap show ?thesis
      by (auto simp: group_entry_def groupable_def yaml_get_def hashable_def module_key_def Let_def)
  next
    case (Some v)
    with YMap show ?thesis
      by (cases v)
         (auto simp: group_entry_def groupable_def yaml_get_def hashable_def module_key_def Let_def)
  qed
qed (auto simp: group_entry_def groupable_def yaml_get_def)

lemma group_loop_total: "(\<exists>cs'. group_loop U es cs = Inr cs') \<longleftrightarrow> list_all groupable es"
proof (induction es arbitrary: cs)
  case Nil
  then show ?case by simp
next
  case (Cons e es)
  show ?case
  proof (cases "group_entry U e cs")
    case (Inl err)
    then have "\<not> groupable e" using group_entry_total [of U e cs] by simp
    with Inl show ?thesis by simp
  next
    case (Inr cs1)
    then have "groupable e" using group_entry_total [of U e cs] by blast
    with Inr Cons.IH [of cs1] show ?thesis by simp
  qed
qed

text \<open>
  Claim C9. \<open>group_by_course\<close> returns a grouping exactly when every entry is one it can
  take. In the grouping it returns, every entry that has no \<open>course_id\<close> is listed under
  the fixed key \<open>mtat-preview\<close> and under no other key, and the title of every course is
  its key with each \<open>-\<close> replaced by a space, title-cased by \<open>str.title\<close> with the case
  tables \<open>U\<close> that the function was given.
\<close>

theorem group_by_course_fallback:
  "((\<exists>courses. group_by_course U entries = Inr courses) \<longleftrightarrow> list_all groupable entries)
   \<and> (\<forall>courses. group_by_course U entries = Inr courses \<longrightarrow>
         (\<forall>kvs. YMap kvs \<in> set entries \<and> map_of kvs (YStr ''course_id'') = None \<longrightarrow>
                 grouped_under courses ''mtat-preview'' (YMap kvs)
                 \<and> (\<forall>k. grouped_under courses k (YMap kvs) \<longrightarrow> k = ''mtat-preview''))
         \<and> (\<forall>(k, c) \<in> set courses. title c = py_title U (replace_char CHR ''-'' CHR '' '' k)))"
proof (intro conjI allI impI)
  show "(\<exists>courses. group_by_course U entries = Inr courses) \<longleftrightarrow> list_all groupable entries"
    unfolding group_by_course_def by (rule group_loop_total)
next
  fix courses kvs
  assume g: "group_by_course U entries = Inr courses"
    and h: "YMap kvs \<in> set entries \<and> map_of kvs (YStr ''course_id'') = None"
  have y: "yaml_get (YMap kvs) ''course_id'' (YStr ''mtat-preview'') = Inr (YStr ''mtat-preview'')"
    using h by (simp add: yaml_get_def)
  from g have "group_loop U entries [] = Inr courses" by (simp add: group_by_course_def)
  from group_loop_inv [OF this] have
    i3: "\<forall>e \<in> set entries. \<forall>k. yaml_get e ''course_id'' (YStr ''mtat-preview'') = Inr (YStr k) \<longrightarrow> grouped_under courses k e"
    and i4: "\<forall>k x. grouped_under courses k x \<longrightarrow>
             grouped_under [] k x \<or> (x \<in> set entries \<and> yaml_get x ''course_id'' (YStr ''mtat-preview'') = Inr (YStr k))"
    by simp_all
  show "grouped_under courses ''mtat-preview'' (YMap kvs)" using i3 h y by blast
  show "\<And>k. grouped_under courses k (YMap kvs) \<Longrightarrow> k = ''mtat-preview''"
  proof -
    fix k assume "grouped_under courses k (YMap kvs)"
    with i4 have "grouped_under [] k (YMap kvs) \<or> yaml_get (YMap kvs) ''course_id'' (YStr ''mtat-preview'') = Inr (YStr k)"
      by blast
    then show "k = ''mtat-preview''" unfolding y by (simp add: grouped_under_def)
  qed
next
  fix courses
  assume g: "group_by_course U entries = Inr courses"
  then have "group_loop U entries [] = Inr courses" by (simp add: group_by_course_def)
  from group_loop_inv [OF this] show "\<forall>(k, c) \<in> set courses. title c = py_title U (replace_char CHR ''-'' CHR '' '' k)"
    by simp
qed

text \<open>
  The theorem on a ledger with ASCII keys, and on the key \<open>caf\<close>, U+00E9, \<open>-\<close>, U+00E9,
  \<open>lan\<close> with tables that hold U+00E9: the label is \<open>Caf\<close>, U+00E9, a space, U+00C9, \<open>lan\<close>.
\<close>

theorem group_by_course_fallback_witness:
  "group_by_course ascii_casing
       [YMap [(YStr ''module_id'', YStr ''m1''), (YStr ''audience'', YStr ''developer'')],
        YMap [(YStr ''module_id'', YStr ''m2''), (YStr ''course_id'', YStr ''prompt-engineering'')]]
     = Inr [(''mtat-preview'',
             \<lparr>title = ''Mtat Preview'',
              modules = [(YStr ''m1'', [YMap [(YStr ''module_id'', YStr ''m1''), (YStr ''audience'', YStr ''developer'')]])]\<rparr>),
            (''prompt-engineering'',
             \<lparr>title = ''Prompt Engineering'',
              modules = [(YStr ''m2'', [YMap [(YStr ''module_id'', YStr ''m2''), (YStr ''course_id'', YStr ''prompt-engineering'')]])]\<rparr>)]
   \<and> grouped_under
        [(''mtat-preview'',
             \<lparr>title = ''Mtat Preview'',
              modules = [(YStr ''m1'', [YMap [(YStr ''module_id'', YStr ''m1''), (YStr ''audience'', YStr ''developer'')]])]\<rparr>),
            (''prompt-engineering'',
             \<lparr>title = ''Prompt Engineering'',
              modules = [(YStr ''m2'', [YMap [(YStr ''module_id'', YStr ''m2''), (YStr ''course_id'', YStr ''prompt-engineering'')]])]\<rparr>)]
        ''mtat-preview'' (YMap [(YStr ''module_id'', YStr ''m1''), (YStr ''audience'', YStr ''developer'')])
   \<and> py_title ascii_casing (replace_char CHR ''-'' CHR '' '' ''prompt-engineering'') = ''Prompt Engineering''
   \<and> py_title with_e_acute (replace_char CHR ''-'' CHR '' '' (''caf'' @ [CHR 0xE9] @ ''-'' @ [CHR 0xE9] @ ''lan''))
       = ''Caf'' @ [CHR 0xE9] @ '' '' @ [CHR 0xC9] @ ''lan''"
proof -
  let ?e1 = "[(YStr ''module_id'', YStr ''m1''), (YStr ''audience'', YStr ''developer'')]"
  let ?e2 = "[(YStr ''module_id'', YStr ''m2''), (YStr ''course_id'', YStr ''prompt-engineering'')]"
  let ?cs = "[(''mtat-preview'', \<lparr>title = ''Mtat Preview'', modules = [(YStr ''m1'', [YMap ?e1])]\<rparr>),
              (''prompt-engineering'', \<lparr>title = ''Prompt Engineering'', modules = [(YStr ''m2'', [YMap ?e2])]\<rparr>)]"
  have g: "group_by_course ascii_casing [YMap ?e1, YMap ?e2] = Inr ?cs"
    by code_simp
  have h: "YMap ?e1 \<in> set [YMap ?e1, YMap ?e2] \<and> map_of ?e1 (YStr ''course_id'') = None" by simp
  from group_by_course_fallback [where U = ascii_casing and entries = "[YMap ?e1, YMap ?e2]"] g h
  have a: "grouped_under ?cs ''mtat-preview'' (YMap ?e1)" by blast
  from group_by_course_fallback [where U = ascii_casing and entries = "[YMap ?e1, YMap ?e2]"] g
  have "\<forall>(k, c) \<in> set ?cs. title c = py_title ascii_casing (replace_char CHR ''-'' CHR '' '' k)" by blast
  then have b: "py_title ascii_casing (replace_char CHR ''-'' CHR '' '' ''prompt-engineering'') = ''Prompt Engineering''"
    by simp
  let ?key = "''caf'' @ [CHR 0xE9] @ ''-'' @ [CHR 0xE9] @ ''lan''"
  let ?e3 = "[(YStr ''course_id'', YStr ?key)]"
  let ?cs3 = "[(?key, \<lparr>title = ''Caf'' @ [CHR 0xE9] @ '' '' @ [CHR 0xC9] @ ''lan'',
                      modules = [(YStr ''unknown'', [YMap ?e3])]\<rparr>)]"
  have g3: "group_by_course with_e_acute [YMap ?e3] = Inr ?cs3"
    by code_simp
  from group_by_course_fallback [where U = with_e_acute and entries = "[YMap ?e3]"] g3
  have "\<forall>(k, c) \<in> set ?cs3. title c = py_title with_e_acute (replace_char CHR ''-'' CHR '' '' k)" by blast
  then have c: "py_title with_e_acute (replace_char CHR ''-'' CHR '' '' ?key)
                  = ''Caf'' @ [CHR 0xE9] @ '' '' @ [CHR 0xC9] @ ''lan''"
    by simp
  from g a b c show ?thesis by blast
qed

section \<open>Properties of the token resolution\<close>

lemma only_emitsI:
  "(\<And>s. \<exists>evs. trace (snd (m s)) = trace s @ evs \<and> list_all Q evs) \<Longrightarrow> only_emits Q m"
  by (simp add: only_emits_def)

lemma only_emitsD:
  "only_emits Q m \<Longrightarrow> \<exists>evs. trace (snd (m s)) = trace s @ evs \<and> list_all Q evs"
  by (simp add: only_emits_def)

lemma only_emits_ret [intro!]: "only_emits Q (ret x)"
  by (simp add: only_emits_def ret_def)

lemma only_emits_raise [intro!]: "only_emits Q (raise e)"
  by (simp add: only_emits_def raise_def)

lemma only_emits_lift [intro!]: "only_emits Q (lift r)"
  by (simp add: only_emits_def lift_def)

lemma only_emits_emit: "Q ev \<Longrightarrow> only_emits Q (emit ev)"
  by (simp add: only_emits_def emit_def)

lemma only_emits_print: "Q (Print (ps @ [Lit ''\<newline>''])) \<Longrightarrow> only_emits Q (print ps)"
  by (simp add: print_def only_emits_emit)

lemma only_emits_and_then:
  assumes "only_emits Q m" and "\<And>x. only_emits Q (f x)"
  shows "only_emits Q (and_then m f)"
proof (rule only_emitsI)
  fix s
  obtain r s1 where m: "m s = (r, s1)" by (cases "m s")
  from only_emitsD [OF assms(1), of s] m obtain evs1
    where e1: "trace s1 = trace s @ evs1" "list_all Q evs1" by auto
  show "\<exists>evs. trace (snd (and_then m f s)) = trace s @ evs \<and> list_all Q evs"
  proof (cases r)
    case (Inl e)
    with m e1 show ?thesis by (auto simp: and_then_def)
  next
    case (Inr x)
    from only_emitsD [OF assms(2), of x s1] obtain evs2
      where e2: "trace (snd (f x s1)) = trace s1 @ evs2" "list_all Q evs2" by auto
    have "trace (snd (and_then m f s)) = trace s @ (evs1 @ evs2)"
      using m Inr e1 e2 by (simp add: and_then_def)
    moreover have "list_all Q (evs1 @ evs2)" using e1 e2 by simp
    ultimately show ?thesis by blast
  qed
qed

lemma only_emits_send: "Q (Http req) \<Longrightarrow> only_emits Q (send P req)"
  by (simp add: only_emits_def send_def split: prod.splits)

lemma only_emits_request: "Q (Http req) \<Longrightarrow> only_emits Q (request P req)"
  unfolding request_def
  by (intro only_emits_and_then only_emits_send) (auto split: http_reply.splits)

lemma only_emits_api:
  "Q (Http (api_request base token function params)) \<Longrightarrow> only_emits Q (api P base token function params)"
  unfolding api_def by (intro only_emits_and_then only_emits_request) auto

lemma only_emits_path_exists: "Q (Exists p) \<Longrightarrow> only_emits Q (path_exists p)"
  by (simp add: only_emits_def path_exists_def)

lemma only_emits_read_text: "Q (ReadText p) \<Longrightarrow> only_emits Q (read_text p)"
  by (simp add: only_emits_def read_text_def)

lemma only_emits_write_text: "Q (WriteText p t) \<Longrightarrow> only_emits Q (write_text p t)"
  by (simp add: only_emits_def write_text_def)

lemma only_emits_run_checked: "Q (Exec argv) \<Longrightarrow> only_emits Q (run_checked P shown argv)"
  by (simp add: only_emits_def run_checked_def Let_def split: prod.splits proc_result.splits)

lemma wait_loop_trace:
  assumes "\<And>r. Q (Http r)" and "\<And>ps. Q (Print ps)" and "\<And>n. Q (Sleep n)"
  shows "\<exists>evs. trace (snd (wait_loop P base timeout deadline s)) = trace s @ evs \<and> list_all Q evs"
proof (induction P base timeout deadline s rule: wait_loop.induct)
  case (1 P base timeout deadline s)
  show ?case
  proof (cases "clock s < deadline")
    case False
    then show ?thesis by (simp add: raise_def)
  next
    case True
    obtain r s1 where snd: "send P \<lparr>meth = GET, url = login_url base, via = None, query = [], form = []\<rparr> s = (r, s1)"
      by (cases "send P \<lparr>meth = GET, url = login_url base, via = None, query = [], form = []\<rparr> s")
    have t1: "trace s1 = trace s @ [Http \<lparr>meth = GET, url = login_url base, via = None, query = [], form = []\<rparr>]"
      using snd by (auto simp: send_def split: prod.splits)
    show ?thesis
    proof (cases "case r of Inr (Reply status body) \<Rightarrow> status = 200 | _ \<Rightarrow> False")
      case ready: True
      have "trace (snd (wait_loop P base timeout deadline s)) =
              trace s @ [Http \<lparr>meth = GET, url = login_url base, via = None, query = [], form = []\<rparr>,
                         Print [Lit '' ready.'', Lit ''\<newline>'']]"
        using True snd ready t1 by (simp add: print_def emit_def)
      moreover have "list_all Q [Http \<lparr>meth = GET, url = login_url base, via = None, query = [], form = []\<rparr>,
                         Print [Lit '' ready.'', Lit ''\<newline>'']]" using assms by simp
      ultimately show ?thesis by blast
    next
      case again: False
      let ?s2 = "s1\<lparr>clock := clock s + 5, trace := trace s1 @ [Print [Lit ''.''], Sleep 5]\<rparr>"
      from "1.IH" [OF True snd [symmetric] again] obtain evs
        where e: "trace (snd (wait_loop P base timeout deadline ?s2)) = trace ?s2 @ evs" "list_all Q evs"
        by blast
      have "wait_loop P base timeout deadline s = wait_loop P base timeout deadline ?s2"
        using True snd again by (subst wait_loop.simps) simp
      then have "trace (snd (wait_loop P base timeout deadline s)) =
          trace s @ ([Http \<lparr>meth = GET, url = login_url base, via = None, query = [], form = []\<rparr>,
                      Print [Lit ''.''], Sleep 5] @ evs)"
        using e t1 by simp
      moreover have "list_all Q ([Http \<lparr>meth = GET, url = login_url base, via = None, query = [], form = []\<rparr>,
                      Print [Lit ''.''], Sleep 5] @ evs)" using assms e by simp
      ultimately show ?thesis by blast
    qed
  qed
qed


lemma only_emits_wait_for_moodle:
  assumes "\<And>r. Q (Http r)" and "\<And>ps. Q (Print ps)" and "\<And>n. Q (Sleep n)"
  shows "only_emits Q (wait_for_moodle P base timeout)"
  unfolding wait_for_moodle_def
proof (intro only_emits_and_then only_emits_emit assms only_emitsI)
  fix x :: unit and s :: "'a state"
  show "\<exists>evs. trace (snd (wait_loop P base timeout (clock s + timeout) s)) = trace s @ evs \<and> list_all Q evs"
    by (rule wait_loop_trace [OF assms])
qed

lemma only_emits_setup:
  assumes "\<And>ps. Q (Print ps)" and "\<And>argv. Q (Exec argv)"
  shows "only_emits Q (setup_moodle_webservices P container)"
  unfolding setup_moodle_webservices_def
  by (intro only_emits_and_then only_emits_print only_emits_run_checked assms)
     (auto split: option.splits intro!: only_emits_and_then only_emits_print assms)

lemma only_emits_mint_token:
  assumes "\<And>r. Q (Http r)" and "\<And>ps. Q (Print ps)" and "\<And>n. Q (Sleep n)"
    and "\<And>argv. Q (Exec argv)" and "\<And>p t. Q (WriteText p t)"
  shows "only_emits Q (mint_token P base)"
  unfolding mint_token_def
  by (intro only_emits_and_then only_emits_wait_for_moodle only_emits_setup only_emits_write_text
        only_emits_print only_emits_ret assms)

text \<open>
  Claim C3, as stated, fails: with \<open>--setup-moodle\<close>, an explicit token does not stop the
  minting. The container commands run and the minted token is the one returned.
\<close>

theorem resolve_token_explicit_mints:
  "fst (resolve_token (scripted (\<lambda>b. None) (\<lambda>t. Inl YAMLError)) (demo_args\<lparr>arg_setup_moodle := True\<rparr>)
          (initially ([Reply 200 ''login''], [Exited 0 [] [], Exited 0 ''0123456789abcdef0123456789abcdef\<newline>'' []])
             (\<lambda>p. None)))
     = Inr ''0123456789abcdef0123456789abcdef''
   \<and> Exec [''docker'', ''exec'', ''mtat-moodle'', ''php'', ''/tmp/mtat_setup.php'']
       \<in> set (trace (snd (resolve_token (scripted (\<lambda>b. None) (\<lambda>t. Inl YAMLError)) (demo_args\<lparr>arg_setup_moodle := True\<rparr>)
          (initially ([Reply 200 ''login''], [Exited 0 [] [], Exited 0 ''0123456789abcdef0123456789abcdef\<newline>'' []])
             (\<lambda>p. None)))))"
  by code_simp


text \<open>
  Claim C3, amended. Without \<open>--setup-moodle\<close>, an explicit non-empty token is returned
  with no effect at all: no look at the cache file and no minting, whatever the file
  holds. With \<open>--setup-moodle\<close>, an explicit non-empty token still keeps the run from
  looking at the cache file, but a token is minted and returned in its place. With no
  explicit token, and without \<open>--setup-moodle\<close>, a cache file whose stripped text is not
  empty gives the token, after one existence check and one read; with no explicit token
  and no cache file, a token is minted.
\<close>

theorem resolve_token_precedence:
  "(\<forall>t. arg_token a = Some t \<and> t \<noteq> [] \<and> \<not> arg_setup_moodle a \<longrightarrow>
        resolve_token P a s = (Inr t, s))
   \<and> (\<forall>t. arg_token a = Some t \<and> t \<noteq> [] \<and> arg_setup_moodle a \<longrightarrow>
        resolve_token P a s = mint_token P (arg_url a) s
        \<and> (\<exists>evs. trace (snd (resolve_token P a s)) = trace s @ evs
                  \<and> list_all (\<lambda>ev. \<not> reads_file ev) evs))
   \<and> (\<forall>cached. no_token (arg_token a) \<and> fs s TOKEN_CACHE_FILE = Some (Inr cached) \<and> strip cached \<noteq> []
              \<and> \<not> arg_setup_moodle a \<longrightarrow>
        resolve_token P a s =
          (Inr (strip cached),
           s\<lparr>trace := trace s @ [Exists TOKEN_CACHE_FILE, ReadText TOKEN_CACHE_FILE]\<rparr>))
   \<and> (no_token (arg_token a) \<and> fs s TOKEN_CACHE_FILE = None \<longrightarrow>
        resolve_token P a s =
          mint_token P (arg_url a) (s\<lparr>trace := trace s @ [Exists TOKEN_CACHE_FILE]\<rparr>))"
proof (intro conjI allI impI)
  fix t assume "arg_token a = Some t \<and> t \<noteq> [] \<and> \<not> arg_setup_moodle a"
  then show "resolve_token P a s = (Inr t, s)"
    by (simp add: resolve_token_def no_token_def and_then_def ret_def)
next
  fix t assume h: "arg_token a = Some t \<and> t \<noteq> [] \<and> arg_setup_moodle a"
  then show m: "resolve_token P a s = mint_token P (arg_url a) s"
    by (simp add: resolve_token_def no_token_def and_then_def ret_def)
  have "only_emits (\<lambda>ev. \<not> reads_file ev) (mint_token P (arg_url a))"
    by (rule only_emits_mint_token) (simp_all add: reads_file_def)
  from only_emitsD [OF this, of s]
  show "\<exists>evs. trace (snd (resolve_token P a s)) = trace s @ evs \<and> list_all (\<lambda>ev. \<not> reads_file ev) evs"
    unfolding m .
next
  fix cached
  assume "no_token (arg_token a) \<and> fs s TOKEN_CACHE_FILE = Some (Inr cached) \<and> strip cached \<noteq> []
              \<and> \<not> arg_setup_moodle a"
  then show "resolve_token P a s =
          (Inr (strip cached),
           s\<lparr>trace := trace s @ [Exists TOKEN_CACHE_FILE, ReadText TOKEN_CACHE_FILE]\<rparr>)"
    by (simp add: resolve_token_def and_then_def ret_def path_exists_def read_text_def)
next
  assume "no_token (arg_token a) \<and> fs s TOKEN_CACHE_FILE = None"
  then show "resolve_token P a s =
          mint_token P (arg_url a) (s\<lparr>trace := trace s @ [Exists TOKEN_CACHE_FILE]\<rparr>)"
    by (cases "arg_token a") (simp_all add: resolve_token_def and_then_def ret_def path_exists_def no_token_def)
qed

theorem resolve_token_precedence_witness:
  "resolve_token (scripted (\<lambda>b. None) (\<lambda>t. Inl YAMLError)) demo_args
     (initially ([], []) (\<lambda>p. if p = TOKEN_CACHE_FILE then Some (Inr ''cached'') else None))
   = (Inr ''explicit'',
      initially ([], []) (\<lambda>p. if p = TOKEN_CACHE_FILE then Some (Inr ''cached'') else None))"
proof -
  have "arg_token demo_args = Some ''explicit'' \<and> ''explicit'' \<noteq> [] \<and> \<not> arg_setup_moodle demo_args"
    by (simp add: demo_args_def)
  with resolve_token_precedence [of demo_args "scripted (\<lambda>b. None) (\<lambda>t. Inl YAMLError)"
      "initially ([], []) (\<lambda>p. if p = TOKEN_CACHE_FILE then Some (Inr ''cached'') else None)"]
  show ?thesis by blast
qed



section \<open>Properties of the publishing run\<close>

lemma created_pages_append [simp]:
  "created_pages base (xs @ ys) = created_pages base xs @ created_pages base ys"
  by (simp add: created_pages_def)

lemma skipped_files_append [simp]: "skipped_files (xs @ ys) = skipped_files xs @ skipped_files ys"
  by (simp add: skipped_files_def)

lemma opened_sessions_append [simp]: "opened_sessions (xs @ ys) = opened_sessions xs @ opened_sessions ys"
  by (simp add: opened_sessions_def)

lemma logins_append [simp]: "logins base (xs @ ys) = logins base xs @ logins base ys"
  by (simp add: logins_def)

lemma nofail_reply:
  assumes "\<And>w r. fst (http P w r) \<noteq> Failed"
  obtains status body w' where "http P w req = (Reply status body, w')"
proof -
  obtain rep w' where h: "http P w req = (rep, w')" by (cases "http P w req")
  with assms [of w req] have "rep \<noteq> Failed" by simp
  then obtain status body where "rep = Reply status body" by (cases rep) auto
  with h that show thesis by blast
qed

lemma create_page_resource_replies:
  assumes r1: "http P (remote s) \<lparr>meth = GET, url = login_url base, via = Some (sessions s), query = [], form = []\<rparr>
                 = (Reply st1 login_page, w1)"
    and r2: "http P w1 \<lparr>meth = POST, url = login_url base, via = Some (sessions s), query = [],
                         form = login_form username password (scrape ''name=\"logintoken\" value=\"'' login_page)\<rparr>
                 = (Reply st2 b2, w2)"
    and r3: "http P w2 \<lparr>meth = GET, url = modedit_url base, via = Some (sessions s),
                         query = [(''add'', FStr ''page''), (''type'', FStr []),
                                  (''course'', FVal course_id), (''section'', FInt 0)], form = []\<rparr>
                 = (Reply st3 add_page, w3)"
    and r4: "http P w3 \<lparr>meth = POST, url = modedit_url base, via = Some (sessions s), query = [],
                         form = page_form (scrape ''\"sesskey\":\"'' add_page) course_id page_title html\<rparr>
                 = (Reply st4 b4, w4)"
  shows "create_page_resource P base course_id page_title html username password s =
           (Inr (),
            s\<lparr>remote := w4, sessions := sessions s + 1,
              trace := trace s @
                [OpenSession (sessions s),
                 Http \<lparr>meth = GET, url = login_url base, via = Some (sessions s), query = [], form = []\<rparr>,
                 Http \<lparr>meth = POST, url = login_url base, via = Some (sessions s), query = [],
                       form = login_form username password (scrape ''name=\"logintoken\" value=\"'' login_page)\<rparr>,
                 Http \<lparr>meth = GET, url = modedit_url base, via = Some (sessions s),
                       query = [(''add'', FStr ''page''), (''type'', FStr []),
                                (''course'', FVal course_id), (''section'', FInt 0)], form = []\<rparr>,
                 Http \<lparr>meth = POST, url = modedit_url base, via = Some (sessions s), query = [],
                       form = page_form (scrape ''\"sesskey\":\"'' add_page) course_id page_title html\<rparr>]\<rparr>)"
  using r1 r2 r3 r4
  by (simp add: create_page_resource_def and_then_def open_session_def request_def send_def ret_def)

lemma trace_reads_simps [simp]:
  "created_pages base [] = []"
  "created_pages base (OpenSession k # evs) = created_pages base evs"
  "created_pages base (Exists p # evs) = created_pages base evs"
  "created_pages base (ReadText p # evs) = created_pages base evs"
  "created_pages base (Print ps # evs) = created_pages base evs"
  "skipped_files [] = []"
  "skipped_files (OpenSession k # evs) = skipped_files evs"
  "skipped_files (Exists p # evs) = skipped_files evs"
  "skipped_files (ReadText p # evs) = skipped_files evs"
  "skipped_files (Http r # evs) = skipped_files evs"
  "opened_sessions [] = []"
  "opened_sessions (OpenSession k # evs) = k # opened_sessions evs"
  "opened_sessions (Exists p # evs) = opened_sessions evs"
  "opened_sessions (ReadText p # evs) = opened_sessions evs"
  "opened_sessions (Http r # evs) = opened_sessions evs"
  "opened_sessions (Print ps # evs) = opened_sessions evs"
  "logins base [] = []"
  "logins base (OpenSession k # evs) = logins base evs"
  "logins base (Exists p # evs) = logins base evs"
  "logins base (ReadText p # evs) = logins base evs"
  "logins base (Print ps # evs) = logins base evs"
  by (simp_all add: created_pages_def skipped_files_def opened_sessions_def logins_def requests_of_def)

lemma created_pages_Http:
  "created_pages base (Http r # evs) =
     (if meth r = POST \<and> url r = modedit_url base
      then (map_of (form r) ''name'', map_of (form r) ''page[text]'') # created_pages base evs
      else created_pages base evs)"
  by (simp add: created_pages_def requests_of_def)

lemma logins_Http:
  "logins base (Http r # evs) =
     (if meth r = POST \<and> url r = login_url base then r # logins base evs else logins base evs)"
  by (simp add: logins_def requests_of_def)

lemma create_page_resource_ok:
  assumes nofail: "\<And>w r. fst (http P w r) \<noteq> Failed"
  shows "\<exists>s'. create_page_resource P base course_id page_title html username password s = (Inr (), s')
            \<and> fs s' = fs s \<and> sessions s' = sessions s + 1
            \<and> created_pages base (trace s') = created_pages base (trace s) @ [(Some (FText page_title), Some (FStr html))]
            \<and> skipped_files (trace s') = skipped_files (trace s)
            \<and> opened_sessions (trace s') = opened_sessions (trace s) @ [sessions s]
            \<and> length (logins base (trace s')) = length (logins base (trace s)) + 1"
proof -
  obtain st1 login_page w1 where r1: "http P (remote s) \<lparr>meth = GET, url = login_url base, via = Some (sessions s), query = [], form = []\<rparr>
                 = (Reply st1 login_page, w1)" using nofail by (rule nofail_reply)
  obtain st2 b2 w2 where r2: "http P w1 \<lparr>meth = POST, url = login_url base, via = Some (sessions s), query = [],
                         form = login_form username password (scrape ''name=\"logintoken\" value=\"'' login_page)\<rparr>
                 = (Reply st2 b2, w2)" using nofail by (rule nofail_reply)
  obtain st3 add_page w3 where r3: "http P w2 \<lparr>meth = GET, url = modedit_url base, via = Some (sessions s),
                         query = [(''add'', FStr ''page''), (''type'', FStr []),
                                  (''course'', FVal course_id), (''section'', FInt 0)], form = []\<rparr>
                 = (Reply st3 add_page, w3)" using nofail by (rule nofail_reply)
  obtain st4 b4 w4 where r4: "http P w3 \<lparr>meth = POST, url = modedit_url base, via = Some (sessions s), query = [],
                         form = page_form (scrape ''\"sesskey\":\"'' add_page) course_id page_title html\<rparr>
                 = (Reply st4 b4, w4)" using nofail by (rule nofail_reply)
  show ?thesis
    unfolding create_page_resource_replies [OF r1 r2 r3 r4]
    by (simp add: created_pages_Http logins_Http login_url_def modedit_url_def page_form_def)
qed

lemma advances_trans:
  assumes "advances base s s1 p1 k1" and "advances base s1 s2 p2 k2"
  shows "advances base s s2 (p1 @ p2) (k1 @ k2)"
proof -
  have "[sessions s ..< sessions s + length p1] @ [sessions s + length p1 ..< sessions s + length p1 + length p2]
          = [sessions s ..< sessions s + (length p1 + length p2)]"
    using upt_add_eq_append [of "sessions s" "sessions s + length p1" "length p2"]
    by (simp add: add.assoc)
  with assms show ?thesis by (simp add: advances_def add.assoc)
qed

lemma advances_print:
  assumes "skipped_files [Print (ps @ [Lit ''\<newline>''])] = ks"
  shows "\<exists>s'. print ps s = (Inr (), s') \<and> advances base s s' [] ks"
  using assms by (simp add: print_def emit_def advances_def)

lemma variant_file_Some:
  assumes "variant_file dir v = Some p"
  shows "\<exists>kvs f. v = YMap kvs \<and> map_of kvs (YStr ''output_file'') = Some (YStr f) \<and> p = Join dir (Path f)"
proof -
  from assms obtain kvs where v: "v = YMap kvs"
    by (cases v) (auto simp: variant_file_def yaml_item_def)
  from assms v obtain out where o: "map_of kvs (YStr ''output_file'') = Some out"
    by (cases "map_of kvs (YStr ''output_file'')") (auto simp: variant_file_def yaml_item_def)
  from assms v o obtain f where "out = YStr f" "p = Join dir (Path f)"
    by (cases out) (auto simp: variant_file_def yaml_item_def join_path_def)
  with v o show ?thesis by blast
qed

lemma upload_variant_ok:
  assumes nofail: "\<And>w r. fst (http P w r) \<noteq> Failed"
    and vf: "variant_file dir v = Some p"
    and readable: "\<And>e. fs s p \<noteq> Some (Inl e)"
  shows "\<exists>s'. upload_variant P base course_id module_title dir username password v s = (Inr (), s')
            \<and> advances base s s'
                 (if file_present (fs s) dir v
                  then [(Some (FText (fst (page_of P (fs s) dir module_title v))),
                         Some (FStr (snd (page_of P (fs s) dir module_title v))))]
                  else [])
                 (if file_present (fs s) dir v then [] else [p])"
proof -
  from variant_file_Some [OF vf] obtain kvs f where
    v: "v = YMap kvs" and o: "map_of kvs (YStr ''output_file'') = Some (YStr f)" and p: "p = Join dir (Path f)"
    by blast
  show ?thesis
  proof (cases "fs s p")
    case None
    then have np: "\<not> file_present (fs s) dir v" using vf by (simp add: file_present_def)
    have "upload_variant P base course_id module_title dir username password v s =
            (Inr (), s\<lparr>trace := trace s @ [Exists p,
                 Print [Lit ''    [!] Variant file not found, skipping: '', VPath p, Lit ''\<newline>'']]\<rparr>)"
      using v o p None
      by (simp add: upload_variant_def and_then_def lift_def yaml_item_def join_path_def
          path_exists_def print_def emit_def)
    then show ?thesis using np by (simp add: advances_def skipped_files_def)
  next
    case (Some r)
    with readable obtain raw where raw: "fs s p = Some (Inr raw)" by (cases r) auto
    then have pr: "file_present (fs s) dir v" using vf by (simp add: file_present_def)
    let ?s1 = "s\<lparr>trace := trace s @ [Exists p, ReadText p]\<rparr>"
    let ?title = "page_title_of module_title (field_or v ''audience'' ''unknown'') (field_or v ''locale'' ''en-US'')"
    let ?html = "markdown P (strip_front_matter raw)"
    have pg: "page_of P (fs s) dir module_title v = (?title, ?html)"
      using vf raw by (simp add: page_of_def)
    from create_page_resource_ok [OF nofail, of base course_id ?title ?html username password ?s1]
    obtain s2 where c: "create_page_resource P base course_id ?title ?html username password ?s1 = (Inr (), s2)"
      and a2: "fs s2 = fs s" "sessions s2 = sessions s + 1"
        "created_pages base (trace s2) = created_pages base (trace s) @ [(Some (FText ?title), Some (FStr ?html))]"
        "skipped_files (trace s2) = skipped_files (trace s)"
        "opened_sessions (trace s2) = opened_sessions (trace s) @ [sessions s]"
        "length (logins base (trace s2)) = length (logins base (trace s)) + 1"
      by auto
    have "upload_variant P base course_id module_title dir username password v s =
            print (Lit ''    + Uploaded: '' # ?title) s2"
      using v o p raw c
      by (simp add: upload_variant_def and_then_def lift_def yaml_item_def join_path_def
          path_exists_def read_text_def yaml_get_def field_or_def)
    then have "upload_variant P base course_id module_title dir username password v s =
            (Inr (), s2\<lparr>trace := trace s2 @ [Print ((Lit ''    + Uploaded: '' # ?title) @ [Lit ''\<newline>''])]\<rparr>)"
      by (simp add: print_def emit_def)
    then show ?thesis using pr pg a2
      by (simp add: advances_def skipped_files_def page_title_of_def)
  qed
qed

lemma upload_loop_ok:
  assumes nofail: "\<And>w r. fst (http P w r) \<noteq> Failed"
    and wf: "\<forall>v \<in> set variants. variant_file dir v \<noteq> None"
    and readable: "\<And>p e. fs s p \<noteq> Some (Inl e)"
  shows "\<exists>s'. upload_loop P base course_id module_title dir username password variants s = (Inr (), s')
            \<and> advances base s s'
                 (map (\<lambda>v. (Some (FText (fst (page_of P (fs s) dir module_title v))),
                            Some (FStr (snd (page_of P (fs s) dir module_title v)))))
                    (filter (file_present (fs s) dir) variants))
                 (List.map_filter (variant_file dir) (filter (\<lambda>v. \<not> file_present (fs s) dir v) variants))"
  using wf readable
proof (induction variants arbitrary: s)
  case Nil
  then show ?case by (simp add: ret_def advances_def List.map_filter_simps)
next
  case (Cons v vs)
  from Cons.prems(1) obtain p where vf: "variant_file dir v = Some p" by auto
  from upload_variant_ok [OF nofail vf Cons.prems(2), of base course_id module_title username password]
  obtain s1 where u: "upload_variant P base course_id module_title dir username password v s = (Inr (), s1)"
    and a1: "advances base s s1
                 (if file_present (fs s) dir v
                  then [(Some (FText (fst (page_of P (fs s) dir module_title v))),
                         Some (FStr (snd (page_of P (fs s) dir module_title v))))]
                  else [])
                 (if file_present (fs s) dir v then [] else [p])"
    by blast
  have f1: "fs s1 = fs s" using a1 by (simp add: advances_def)
  have wf': "\<forall>v \<in> set vs. variant_file dir v \<noteq> None" using Cons.prems(1) by simp
  have rd': "\<And>p e. fs s1 p \<noteq> Some (Inl e)" using Cons.prems(2) f1 by simp
  from Cons.IH [OF wf' rd'] obtain s2 where
    l: "upload_loop P base course_id module_title dir username password vs s1 = (Inr (), s2)"
    and a2: "advances base s1 s2
                 (map (\<lambda>v. (Some (FText (fst (page_of P (fs s) dir module_title v))),
                            Some (FStr (snd (page_of P (fs s) dir module_title v)))))
                    (filter (file_present (fs s) dir) vs))
                 (List.map_filter (variant_file dir) (filter (\<lambda>v. \<not> file_present (fs s) dir v) vs))"
    unfolding f1 by blast
  have r: "upload_loop P base course_id module_title dir username password (v # vs) s = (Inr (), s2)"
    using u l by (simp add: and_then_def)
  from advances_trans [OF a1 a2] vf
  have "advances base s s2
                 (map (\<lambda>v. (Some (FText (fst (page_of P (fs s) dir module_title v))),
                            Some (FStr (snd (page_of P (fs s) dir module_title v)))))
                    (filter (file_present (fs s) dir) (v # vs)))
                 (List.map_filter (variant_file dir) (filter (\<lambda>v. \<not> file_present (fs s) dir v) (v # vs)))"
    by (cases "file_present (fs s) dir v") (simp_all add: List.map_filter_simps)
  with r show ?case by blast
qed

lemma upload_variants_to_book_ok:
  assumes nofail: "\<And>w r. fst (http P w r) \<noteq> Failed"
    and wf: "\<forall>v \<in> set variants. variant_file dir v \<noteq> None"
    and readable: "\<And>p e. fs s p \<noteq> Some (Inl e)"
  shows "\<exists>s'. upload_variants_to_book P base token course_id module_title variants dir username password s = (Inr (), s')
            \<and> advances base s s'
                 (map (\<lambda>v. (Some (FText (fst (page_of P (fs s) dir module_title v))),
                            Some (FStr (snd (page_of P (fs s) dir module_title v)))))
                    (filter (file_present (fs s) dir) variants))
                 (List.map_filter (variant_file dir) (filter (\<lambda>v. \<not> file_present (fs s) dir v) variants))"
proof -
  let ?s0 = "s\<lparr>trace := trace s @ [Print [Lit ''\<newline>  Module: '', VYaml module_title, Lit '' ('',
                      VNat (length variants), Lit '' variants)'', Lit ''\<newline>'']]\<rparr>"
  have a0: "advances base s ?s0 [] []" by (simp add: advances_def skipped_files_def)
  have rd: "\<And>p e. fs ?s0 p \<noteq> Some (Inl e)" using readable by simp
  from upload_loop_ok [OF nofail wf rd, of base course_id module_title username password]
  obtain s1 where l: "upload_loop P base course_id module_title dir username password variants ?s0 = (Inr (), s1)"
    and a1: "advances base ?s0 s1
                 (map (\<lambda>v. (Some (FText (fst (page_of P (fs s) dir module_title v))),
                            Some (FStr (snd (page_of P (fs s) dir module_title v)))))
                    (filter (file_present (fs s) dir) variants))
                 (List.map_filter (variant_file dir) (filter (\<lambda>v. \<not> file_present (fs s) dir v) variants))"
    by auto
  let ?s2 = "s1\<lparr>trace := trace s1 @ [Print [Lit ''  Done. Open your course at: '', Lit base,
                      Lit ''/course/view.php?id='', VJson course_id, Lit ''\<newline>'']]\<rparr>"
  have a2: "advances base s1 ?s2 [] []" by (simp add: advances_def skipped_files_def)
  have "upload_variants_to_book P base token course_id module_title variants dir username password s = (Inr (), ?s2)"
    using l by (simp add: upload_variants_to_book_def and_then_def print_def emit_def)
  moreover from advances_trans [OF advances_trans [OF a0 a1] a2]
  have "advances base s ?s2
                 (map (\<lambda>v. (Some (FText (fst (page_of P (fs s) dir module_title v))),
                            Some (FStr (snd (page_of P (fs s) dir module_title v)))))
                    (filter (file_present (fs s) dir) variants))
                 (List.map_filter (variant_file dir) (filter (\<lambda>v. \<not> file_present (fs s) dir v) variants))"
    by simp
  ultimately show ?thesis by blast
qed

lemma load_manifest_missing:
  assumes "fs s mp = None"
  shows "load_manifest P mp s =
           (Inl (SystemExit 1),
            s\<lparr>trace := trace s @
               [Exists mp,
                Print [Lit ''No manifest found at '', VPath mp, Lit ''.'', Lit ''\<newline>''],
                Print [Lit ''Generate variants first: python generate-variant.py --module example-course/01-concept --audience developer'',
                       Lit ''\<newline>'']]\<rparr>)"
  using assms by (simp add: load_manifest_def and_then_def path_exists_def print_def emit_def raise_def)

lemma load_manifest_found:
  assumes "fs s mp = Some (Inr content)" and "yaml_safe_load P content = Inr data"
  shows "load_manifest P mp s =
           (Inr (case data of YList entries \<Rightarrow> entries | _ \<Rightarrow> []),
            s\<lparr>trace := trace s @ [Exists mp, ReadText mp]\<rparr>)"
  using assms
  by (simp add: load_manifest_def and_then_def path_exists_def read_text_def lift_def ret_def)

lemma main_after_validation:
  assumes "resolve_token P a s = (Inr token, s1)" and "\<not> arg_get_token a"
    and "validate_token P (arg_url a) token s1 = (Inr (), s2)"
  shows "main P a s =
     and_then (load_manifest P (Path (arg_manifest a))) (\<lambda>entries.
       if entries = [] then
         and_then (print [Lit ''Manifest is empty -- nothing to upload.'']) (\<lambda>_.
         raise (SystemExit 0))
       else
         and_then (select_course a entries) (\<lambda>selected.
         and_then (lift (group_by_course (case_tables P) selected)) (\<lambda>courses.
         and_then (print [Lit ''\<newline>Uploading '', VNat (length selected), Lit '' variant(s) across '',
                          VNat (length courses), Lit '' course(s)...\<newline>'']) (\<lambda>_.
         and_then (publish_courses P a token (Parent (Parent (Path (arg_manifest a)))) courses) (\<lambda>_.
         and_then (print [Lit ''\<newline>All done.'']) (\<lambda>_.
         print [Lit ''Open Moodle: '', Lit (arg_url a), Lit ''/my/courses.php'']))))))
       s2"
  using assms
  by (simp add: main_def and_then_def [of "resolve_token P a"] and_then_def [of "validate_token P (arg_url a) token"])

lemma fs_api: "fs (snd (api P base token function params s)) = fs s"
  by (simp add: api_def and_then_def request_def send_def ret_def raise_def lift_def
      split: prod.splits http_reply.splits sum.splits)

lemma ensure_course_ok:
  assumes "course_service_ok P base"
  shows "\<exists>i s'. ensure_course P base token course_id course_title s = (Inr i, s') \<and> fs s' = fs s"
proof -
  from assms have "\<exists>status body w' kvs.
           http P (remote s) (api_request base token ''core_course_get_courses_by_field'' (lookup_params course_id))
             = (Reply status body, w')
           \<and> status < 400 \<and> json_loads P body = Some (JObj kvs) \<and> map_of kvs ''exception'' = None
           \<and> (map_of kvs ''courses'' = None \<or> map_of kvs ''courses'' = Some (JList [])
                \<or> (\<exists>c cs i. map_of kvs ''courses'' = Some (JList (JObj c # cs)) \<and> map_of c ''id'' = Some i))"
    unfolding course_service_ok_def by blast
  then obtain status body w1 kvs where
    l: "http P (remote s) (api_request base token ''core_course_get_courses_by_field'' (lookup_params course_id))
             = (Reply status body, w1)"
    and lt: "status < 400"
    and js: "json_loads P body = Some (JObj kvs)" and ne: "map_of kvs ''exception'' = None"
    and cs: "map_of kvs ''courses'' = None \<or> map_of kvs ''courses'' = Some (JList [])
                \<or> (\<exists>c cs i. map_of kvs ''courses'' = Some (JList (JObj c # cs)) \<and> map_of c ''id'' = Some i)"
    by blast
  from lt have ok: "\<not> (400 \<le> status \<and> status < 600)" by simp
  show ?thesis
  proof (cases "map_of kvs ''courses'' = None \<or> map_of kvs ''courses'' = Some (JList [])")
    case False
    with cs obtain c others i where "map_of kvs ''courses'' = Some (JList (JObj c # others))" "map_of c ''id'' = Some i"
      by blast
    from ensure_course_found [OF l ok js ne this] show ?thesis by simp
  next
    case True
    let ?s1 = "s\<lparr>remote := w1,
              trace := trace s @
                [Http (api_request base token ''core_course_get_courses_by_field'' (lookup_params course_id))]\<rparr>"
    from assms have "\<exists>status body w' c cs i.
             http P w1 (api_request base token ''core_course_create_courses'' (create_params course_id course_title))
               = (Reply status body, w')
             \<and> status < 400 \<and> json_loads P body = Some (JList (JObj c # cs)) \<and> map_of c ''id'' = Some i"
      unfolding course_service_ok_def by blast
    then obtain status2 body2 w2 c others i where
      r0: "http P w1 (api_request base token ''core_course_create_courses'' (create_params course_id course_title))
               = (Reply status2 body2, w2)"
      and lt2: "status2 < 400"
      and js2: "json_loads P body2 = Some (JList (JObj c # others))" and i: "map_of c ''id'' = Some i"
      by blast
    from r0 have r: "http P (remote ?s1) (api_request base token ''core_course_create_courses'' (create_params course_id course_title))
               = (Reply status2 body2, w2)" by simp
    from lt2 have ok2: "\<not> (400 \<le> status2 \<and> status2 < 600)" by simp
    have a: "api_result P ''core_course_create_courses'' (status2, body2) = Inr (JList (JObj c # others))"
      using ok2 js2 by (rule api_result_list)
    show ?thesis
      unfolding ensure_course_missing [OF l ok js ne True]
        and_then_def [of "api P base token ''core_course_create_courses'' (create_params course_id course_title)"]
        api_reply [OF r] a
      using i by (simp add: and_then_def lift_def item0_def item_def print_def emit_def ret_def)
  qed
qed


lemma module_title_of_ok:
  assumes pub: "\<forall>v \<in> set variants. publishable dir v"
    and meta: "metadata_ok P (fs s)"
    and readable: "\<And>p e. fs s p \<noteq> Some (Inl e)"
  shows "\<exists>t s'. module_title_of P dir module_id variants s = (Inr t, s') \<and> fs s' = fs s"
proof (cases variants)
  case Nil
  then show ?thesis by (simp add: module_title_of_def ret_def)
next
  case (Cons v vs)
  with pub have "publishable dir v" by simp
  then obtain m where g: "yaml_get v ''module_path'' (YStr []) = Inr (YStr m)"
    by (auto simp: publishable_def split: sum.splits yaml.splits)
  let ?mf = "Join (Join dir (Path m)) (Path ''metadata.yaml'')"
  show ?thesis
  proof (cases "fs s ?mf")
    case None
    with Cons g show ?thesis
      by (simp add: module_title_of_def and_then_def lift_def path_exists_def ret_def)
  next
    case (Some r)
    with readable obtain content where c: "fs s ?mf = Some (Inr content)" by (cases r) auto
    with meta obtain kvs where y: "yaml_safe_load P content = Inr (YMap kvs)"
      unfolding metadata_ok_def by blast
    from Cons g c y show ?thesis
      by (simp add: module_title_of_def and_then_def lift_def path_exists_def read_text_def yaml_get_def)
  qed
qed

lemma publish_modules_ok:
  assumes nofail: "\<And>w r. fst (http P w r) \<noteq> Failed"
    and pub: "\<forall>m \<in> set ms. \<forall>v \<in> set (snd m). publishable dir v"
    and meta: "metadata_ok P (fs s)"
    and readable: "\<And>p e. fs s p \<noteq> Some (Inl e)"
  shows "\<exists>s'. publish_modules P a token dir moodle_course_id ms s = (Inr (), s') \<and> fs s' = fs s"
  using pub meta readable
proof (induction ms arbitrary: s)
  case Nil
  then show ?case by (simp add: ret_def)
next
  case (Cons m ms)
  obtain module_id variants where m: "m = (module_id, variants)" by (cases m)
  from Cons.prems(1) m have pv: "\<forall>v \<in> set variants. publishable dir v" by simp
  from module_title_of_ok [OF pv Cons.prems(2) Cons.prems(3), of module_id]
  obtain t s1 where t: "module_title_of P dir module_id variants s = (Inr t, s1)" and f1: "fs s1 = fs s"
    by blast
  have wf: "\<forall>v \<in> set variants. variant_file dir v \<noteq> None" using pv by (simp add: publishable_def)
  have rd1: "\<And>p e. fs s1 p \<noteq> Some (Inl e)" using Cons.prems(3) f1 by simp
  from upload_variants_to_book_ok [OF nofail wf rd1, of "arg_url a" token moodle_course_id t "arg_user a" "arg_password a"]
  obtain s2 where u: "upload_variants_to_book P (arg_url a) token moodle_course_id t variants dir
                        (arg_user a) (arg_password a) s1 = (Inr (), s2)"
    and f2: "fs s2 = fs s1" by (auto simp: advances_def)
  have pub': "\<forall>m \<in> set ms. \<forall>v \<in> set (snd m). publishable dir v" using Cons.prems(1) by simp
  have meta2: "metadata_ok P (fs s2)" using Cons.prems(2) f1 f2 by simp
  have rd2: "\<And>p e. fs s2 p \<noteq> Some (Inl e)" using Cons.prems(3) f1 f2 by simp
  from Cons.IH [OF pub' meta2 rd2] obtain s3 where
    r: "publish_modules P a token dir moodle_course_id ms s2 = (Inr (), s3)" and f3: "fs s3 = fs s2"
    by blast
  have "publish_modules P a token dir moodle_course_id (m # ms) s = (Inr (), s3)"
    using m t u r by (simp add: and_then_def)
  with f1 f2 f3 show ?case by simp
qed

lemma publish_courses_ok:
  assumes nofail: "\<And>w r. fst (http P w r) \<noteq> Failed"
    and svc: "course_service_ok P (arg_url a)"
    and pub: "\<forall>c \<in> set courses. \<forall>m \<in> set (modules (snd c)). \<forall>v \<in> set (snd m). publishable dir v"
    and meta: "metadata_ok P (fs s)"
    and readable: "\<And>p e. fs s p \<noteq> Some (Inl e)"
  shows "\<exists>s'. publish_courses P a token dir courses s = (Inr (), s') \<and> fs s' = fs s"
  using pub meta readable
proof (induction courses arbitrary: s)
  case Nil
  then show ?case by (simp add: ret_def)
next
  case (Cons c cs)
  obtain course_id course_data where c: "c = (course_id, course_data)" by (cases c)
  let ?s0 = "s\<lparr>trace := trace s @ [Print [Lit ''Course: '', Lit (title course_data), Lit '' ('',
                    Lit course_id, Lit '')'', Lit ''\<newline>'']]\<rparr>"
  from ensure_course_ok [OF svc, of token course_id "title course_data" ?s0]
  obtain i s1 where e: "ensure_course P (arg_url a) token course_id (title course_data) ?s0 = (Inr i, s1)"
    and f1: "fs s1 = fs s" by auto
  have pm: "\<forall>m \<in> set (modules course_data). \<forall>v \<in> set (snd m). publishable dir v"
    using Cons.prems(1) c by simp
  have meta1: "metadata_ok P (fs s1)" using Cons.prems(2) f1 by simp
  have rd1: "\<And>p e. fs s1 p \<noteq> Some (Inl e)" using Cons.prems(3) f1 by simp
  from publish_modules_ok [OF nofail pm meta1 rd1, of a token i]
  obtain s2 where p: "publish_modules P a token dir i (modules course_data) s1 = (Inr (), s2)"
    and f2: "fs s2 = fs s1" by blast
  have pub': "\<forall>c \<in> set cs. \<forall>m \<in> set (modules (snd c)). \<forall>v \<in> set (snd m). publishable dir v"
    using Cons.prems(1) by simp
  have meta2: "metadata_ok P (fs s2)" using Cons.prems(2) f1 f2 by simp
  have rd2: "\<And>p e. fs s2 p \<noteq> Some (Inl e)" using Cons.prems(3) f1 f2 by simp
  from Cons.IH [OF pub' meta2 rd2] obtain s3 where
    r: "publish_courses P a token dir cs s2 = (Inr (), s3)" and f3: "fs s3 = fs s2" by blast
  have "publish_courses P a token dir (c # cs) s = (Inr (), s3)"
    using c e p r by (simp add: and_then_def print_def emit_def)
  with f1 f2 f3 show ?case by simp
qed

lemma group_entry_members:
  assumes "group_entry U entry courses = Inr courses'"
    and "\<forall>c \<in> set courses. \<forall>m \<in> set (modules (snd c)). set (snd m) \<subseteq> A"
    and "entry \<in> A"
  shows "\<forall>c \<in> set courses'. \<forall>m \<in> set (modules (snd c)). set (snd m) \<subseteq> A"
proof -
  from assms(1) obtain kvs course_id where
    r: "courses' = AList.map_entry course_id
                  (\<lambda>c. c\<lparr>modules := setdefault_append (module_key kvs) entry (modules c)\<rparr>)
                  (if map_of courses course_id = None
                   then courses @ [(course_id, new_course U course_id)] else courses)"
    by (rule group_entry_step)
  let ?cs1 = "if map_of courses course_id = None
                   then courses @ [(course_id, new_course U course_id)] else courses"
  have i1: "\<forall>c \<in> set ?cs1. \<forall>m \<in> set (modules (snd c)). set (snd m) \<subseteq> A"
    using assms(2) by (auto simp: new_course_def)
  show ?thesis
  proof (intro ballI)
    fix c m assume c: "c \<in> set courses'" and m: "m \<in> set (modules (snd c))"
    obtain k d where kd: "c = (k, d)" by (cases c)
    from c kd have "(k, d) \<in> set ?cs1 \<or> (k = course_id \<and> (\<exists>c0. (course_id, c0) \<in> set ?cs1 \<and>
                 d = c0\<lparr>modules := setdefault_append (module_key kvs) entry (modules c0)\<rparr>))"
      unfolding r by (intro map_entry_set) simp
    then show "set (snd m) \<subseteq> A"
    proof
      assume "(k, d) \<in> set ?cs1"
      with i1 m kd show ?thesis by fastforce
    next
      assume "k = course_id \<and> (\<exists>c0. (course_id, c0) \<in> set ?cs1 \<and>
                 d = c0\<lparr>modules := setdefault_append (module_key kvs) entry (modules c0)\<rparr>)"
      then obtain c0 where c0: "(course_id, c0) \<in> set ?cs1"
        and d: "d = c0\<lparr>modules := setdefault_append (module_key kvs) entry (modules c0)\<rparr>" by blast
      from m kd d have m': "m \<in> set (setdefault_append (module_key kvs) entry (modules c0))" by simp
      show ?thesis
      proof
        fix x assume "x \<in> set (snd m)"
        from setdefault_append_from [OF m' this] have "x = entry \<or> (\<exists>m0 \<in> set (modules c0). x \<in> set (snd m0))" .
        with assms(3) i1 c0 show "x \<in> A" by fastforce
      qed
    qed
  qed
qed

lemma group_loop_members:
  assumes "group_loop U es cs0 = Inr cs"
    and "\<forall>c \<in> set cs0. \<forall>m \<in> set (modules (snd c)). set (snd m) \<subseteq> A"
    and "set es \<subseteq> A"
  shows "\<forall>c \<in> set cs. \<forall>m \<in> set (modules (snd c)). set (snd m) \<subseteq> A"
  using assms
proof (induction es arbitrary: cs0)
  case Nil
  then show ?case by simp
next
  case (Cons e es)
  from Cons.prems(1) obtain cs1 where s1: "group_entry U e cs0 = Inr cs1" and r: "group_loop U es cs1 = Inr cs"
    by (auto split: sum.splits)
  from Cons.prems(3) have eA: "e \<in> A" and esA: "set es \<subseteq> A" by simp_all
  from group_entry_members [OF s1 Cons.prems(2) eA]
  have "\<forall>c \<in> set cs1. \<forall>m \<in> set (modules (snd c)). set (snd m) \<subseteq> A" .
  from Cons.IH [OF r this esA] show ?case .
qed

lemma select_course_state:
  "select_course a entries s = (Inr selected, s') \<Longrightarrow> s' = s"
  by (auto simp: select_course_def ret_def and_then_def lift_def print_def emit_def raise_def
      split: option.splits if_splits sum.splits)

lemma run_exit_zero:
  assumes t: "resolve_token P a s = (Inr token, s1)" and g: "\<not> arg_get_token a"
    and v: "validate_token P (arg_url a) token s1 = (Inr (), s2)"
    and l: "load_manifest P (Path (arg_manifest a)) s2 = (Inr entries, s3)" and ne: "entries \<noteq> []"
    and f: "select_course a entries s3 = (Inr selected, s4)"
    and pub: "\<forall>v \<in> set selected. publishable (Parent (Parent (Path (arg_manifest a)))) v"
    and nofail: "\<And>w r. fst (http P w r) \<noteq> Failed"
    and svc: "course_service_ok P (arg_url a)"
    and meta: "metadata_ok P (fs s3)"
    and readable: "\<And>p e. fs s3 p \<noteq> Some (Inl e)"
  shows "exit_code (fst (main P a s)) = 0"
proof -
  let ?dir = "Parent (Parent (Path (arg_manifest a)))"
  have s4: "s4 = s3" using f by (rule select_course_state)
  have "list_all groupable selected" using pub by (simp add: list_all_iff publishable_def)
  then obtain courses where gc: "group_by_course (case_tables P) selected = Inr courses"
    using group_loop_total [where es = selected and cs = "[]"] by (auto simp: group_by_course_def)
  then have "group_loop (case_tables P) selected [] = Inr courses" by (simp add: group_by_course_def)
  from group_loop_members [OF this, of "set selected"]
  have mem: "\<forall>c \<in> set courses. \<forall>m \<in> set (modules (snd c)). set (snd m) \<subseteq> set selected" by simp
  have pc: "\<forall>c \<in> set courses. \<forall>m \<in> set (modules (snd c)). \<forall>v \<in> set (snd m). publishable ?dir v"
    using mem pub by blast
  let ?s5 = "s3\<lparr>trace := trace s3 @ [Print [Lit ''\<newline>Uploading '', VNat (length selected), Lit '' variant(s) across '',
                          VNat (length courses), Lit '' course(s)...\<newline>'', Lit ''\<newline>'']]\<rparr>"
  have meta5: "metadata_ok P (fs ?s5)" using meta by simp
  have rd5: "\<And>p e. fs ?s5 p \<noteq> Some (Inl e)" using readable by simp
  from publish_courses_ok [OF nofail svc pc meta5 rd5, of token]
  obtain s6 where p: "publish_courses P a token ?dir courses ?s5 = (Inr (), s6)" by blast
  have "fst (main P a s) = Inr ()"
    unfolding main_after_validation [OF t g v]
    using l ne f s4 gc p
    by (simp add: and_then_def lift_def print_def emit_def)
  then show ?thesis by (simp add: exit_code_def)
qed
lemma fs_validate_token: "fs (snd (validate_token P base token s)) = fs s"
proof -
  show ?thesis
    using fs_api [of P base token "''core_webservice_get_site_info''" "[]" s]
    by (cases "api P base token ''core_webservice_get_site_info'' [] s")
       (auto simp: validate_token_def and_then_def lift_def print_def emit_def raise_def
             split: sum.splits prod.splits py_error.splits)
qed

lemma fs_load_manifest: "fs (snd (load_manifest P mp s)) = fs s"
  by (auto simp: load_manifest_def and_then_def path_exists_def read_text_def lift_def ret_def
        print_def emit_def raise_def split: sum.splits prod.splits option.splits)


lemma demo_nofail: "fst (http demo_lms w r) \<noteq> Failed"
  by (simp add: demo_lms_def)

lemma demo_readable: "demo_files p \<noteq> Some (Inl e)"
  by (simp add: demo_files_def)

lemma demo_wf: "\<forall>v \<in> set demo_ledger. variant_file demo_dir v \<noteq> None"
  by (simp add: demo_ledger_def variant_file_def yaml_item_def join_path_def)

lemma demo_publishable: "\<forall>v \<in> set demo_ledger. publishable demo_dir v"
  by (simp add: demo_ledger_def publishable_def groupable_def module_key_def hashable_def
      variant_file_def yaml_item_def join_path_def yaml_get_def)

lemma demo_service: "course_service_ok demo_lms base"
  by (simp add: course_service_ok_def demo_lms_def api_request_def lookup_params_def create_params_def)

lemma demo_metadata: "metadata_ok demo_lms demo_files"
  by (simp add: metadata_ok_def demo_files_def demo_dir_def)

lemma demo_resolve: "resolve_token demo_lms demo_args s = (Inr ''explicit'', s)"
  by (simp add: resolve_token_def demo_args_def no_token_def and_then_def ret_def)

lemma demo_validate:
  "validate_token demo_lms (arg_url demo_args) ''explicit'' (initially () files)
     = (Inr (), snd (validate_token demo_lms (arg_url demo_args) ''explicit'' (initially () files)))"
proof -
  have "fst (validate_token demo_lms (arg_url demo_args) ''explicit'' (initially () files)) = Inr ()"
    by (simp add: validate_token_def api_def api_request_def api_result_def request_def send_def
        and_then_def ret_def lift_def json_get_def print_def emit_def demo_lms_def demo_args_def
        initially_def)
  then show ?thesis by (simp add: prod_eq_iff)
qed

text \<open>
  Claim C4. Take a run without \<open>--get-token\<close> whose token has been resolved and has
  passed validation. If the ledger file does not exist, the run prints the two lines of
  guidance and ends with exit code 1. If the file exists and loads as null or as an
  empty list, \<open>load_manifest\<close> returns the empty list, the run ends with exit code 0, and
  no request is sent after the validation.
\<close>

theorem ledger_missing_or_empty:
  assumes t: "resolve_token P a s = (Inr token, s1)" and g: "\<not> arg_get_token a"
    and v: "validate_token P (arg_url a) token s1 = (Inr (), s2)"
  shows "(fs s2 (Path (arg_manifest a)) = None \<longrightarrow>
            main P a s =
              (Inl (SystemExit 1),
               s2\<lparr>trace := trace s2 @
                  [Exists (Path (arg_manifest a)),
                   Print [Lit ''No manifest found at '', VPath (Path (arg_manifest a)), Lit ''.'', Lit ''\<newline>''],
                   Print [Lit ''Generate variants first: python generate-variant.py --module example-course/01-concept --audience developer'',
                          Lit ''\<newline>'']]\<rparr>)
            \<and> exit_code (fst (main P a s)) = 1)
       \<and> (\<forall>content data.
             fs s2 (Path (arg_manifest a)) = Some (Inr content) \<and> yaml_safe_load P content = Inr data
             \<and> (data = YNull \<or> data = YList []) \<longrightarrow>
               load_manifest P (Path (arg_manifest a)) s2 =
                 (Inr [], s2\<lparr>trace := trace s2 @ [Exists (Path (arg_manifest a)), ReadText (Path (arg_manifest a))]\<rparr>)
               \<and> exit_code (fst (main P a s)) = 0
               \<and> requests_after s2 (snd (main P a s)) = [])"
proof (intro conjI allI impI)
  assume m: "fs s2 (Path (arg_manifest a)) = None"
  show e: "main P a s =
              (Inl (SystemExit 1),
               s2\<lparr>trace := trace s2 @
                  [Exists (Path (arg_manifest a)),
                   Print [Lit ''No manifest found at '', VPath (Path (arg_manifest a)), Lit ''.'', Lit ''\<newline>''],
                   Print [Lit ''Generate variants first: python generate-variant.py --module example-course/01-concept --audience developer'',
                          Lit ''\<newline>'']]\<rparr>)"
    unfolding main_after_validation [OF t g v]
    by (simp add: and_then_def load_manifest_missing [OF m])
  show "exit_code (fst (main P a s)) = 1" unfolding e by (simp add: exit_code_def)
next
  fix content data
  assume h: "fs s2 (Path (arg_manifest a)) = Some (Inr content) \<and> yaml_safe_load P content = Inr data
             \<and> (data = YNull \<or> data = YList [])"
  then have f: "fs s2 (Path (arg_manifest a)) = Some (Inr content)" and y: "yaml_safe_load P content = Inr data"
    and d: "(case data of YList entries \<Rightarrow> entries | _ \<Rightarrow> []) = []" by auto
  show l: "load_manifest P (Path (arg_manifest a)) s2 =
                 (Inr [], s2\<lparr>trace := trace s2 @ [Exists (Path (arg_manifest a)), ReadText (Path (arg_manifest a))]\<rparr>)"
    using load_manifest_found [OF f y] d by simp
  have e: "main P a s =
             (Inl (SystemExit 0),
              s2\<lparr>trace := trace s2 @ [Exists (Path (arg_manifest a)), ReadText (Path (arg_manifest a)),
                     Print [Lit ''Manifest is empty -- nothing to upload.'', Lit ''\<newline>'']]\<rparr>)"
    unfolding main_after_validation [OF t g v]
    by (simp add: and_then_def l print_def emit_def raise_def)
  show "exit_code (fst (main P a s)) = 0" unfolding e by (simp add: exit_code_def)
  show "requests_after s2 (snd (main P a s)) = []"
    unfolding e by (simp add: requests_after_def requests_of_def)
qed

theorem ledger_missing_or_empty_witness:
  "exit_code (fst (main demo_lms demo_args (initially () (\<lambda>p. None)))) = 1
   \<and> exit_code (fst (main demo_lms demo_args
        (initially () (map_of [(Path ''variants/manifest.yaml'', Inr [])])))) = 0"
proof -
  let ?none = "\<lambda>p :: path. None :: (py_error + string) option"
  let ?empty = "map_of [(Path ''variants/manifest.yaml'', Inr [] :: py_error + string)]"
  have g: "\<not> arg_get_token demo_args" by (simp add: demo_args_def)
  have m: "fs (snd (validate_token demo_lms (arg_url demo_args) ''explicit'' (initially () ?none)))
             (Path (arg_manifest demo_args)) = None"
    by (simp add: fs_validate_token initially_def)
  have e: "fs (snd (validate_token demo_lms (arg_url demo_args) ''explicit'' (initially () ?empty)))
             (Path (arg_manifest demo_args)) = Some (Inr [])
           \<and> yaml_safe_load demo_lms [] = Inr YNull \<and> (YNull = YNull \<or> YNull = YList [])"
    by (simp add: fs_validate_token initially_def demo_args_def demo_lms_def)
  from ledger_missing_or_empty [OF demo_resolve g demo_validate, of ?none] m
  have a: "exit_code (fst (main demo_lms demo_args (initially () ?none))) = 1" by blast
  from ledger_missing_or_empty [OF demo_resolve g demo_validate, of ?empty] e
  have b: "exit_code (fst (main demo_lms demo_args (initially () ?empty))) = 0" by blast
  from a b show ?thesis by blast
qed

text \<open>
  Claim C5. As long as no request fails in transport, the files that exist can be read
  and every entry has a string \<open>output_file\<close>, \<open>upload_variants_to_book\<close> returns normally
  whichever files are missing: each missing file is skipped with a warning, and the
  entries whose file exists are published, in ledger order. A run that has resolved and
  validated its token and loaded a ledger of entries that can be published, against a
  course service that answers, ends with exit code 0; nothing in this asks for a
  variant file to exist.
\<close>

theorem missing_variant_nonfatal:
  assumes nofail: "\<And>w r. fst (http P w r) \<noteq> Failed"
  shows "((\<forall>v \<in> set variants. variant_file dir v \<noteq> None) \<and> (\<forall>p e. fs s p \<noteq> Some (Inl e)) \<longrightarrow>
            (\<exists>s'. upload_variants_to_book P base token course_id module_title variants dir username password s
                     = (Inr (), s')
               \<and> created_pages base (trace s') =
                   created_pages base (trace s)
                   @ map (\<lambda>v. (Some (FText (fst (page_of P (fs s) dir module_title v))),
                               Some (FStr (snd (page_of P (fs s) dir module_title v)))))
                       (filter (file_present (fs s) dir) variants)
               \<and> skipped_files (trace s') =
                   skipped_files (trace s)
                   @ List.map_filter (variant_file dir) (filter (\<lambda>v. \<not> file_present (fs s) dir v) variants)))
       \<and> (\<forall>tok s1 s2 entries s3 selected s4.
             resolve_token P a st = (Inr tok, s1) \<and> \<not> arg_get_token a
             \<and> validate_token P (arg_url a) tok s1 = (Inr (), s2)
             \<and> load_manifest P (Path (arg_manifest a)) s2 = (Inr entries, s3) \<and> entries \<noteq> []
             \<and> select_course a entries s3 = (Inr selected, s4)
             \<and> (\<forall>v \<in> set selected. publishable (Parent (Parent (Path (arg_manifest a)))) v)
             \<and> course_service_ok P (arg_url a) \<and> metadata_ok P (fs s3)
             \<and> (\<forall>p e. fs s3 p \<noteq> Some (Inl e)) \<longrightarrow>
               exit_code (fst (main P a st)) = 0)"
proof (intro conjI allI impI)
  assume h: "(\<forall>v \<in> set variants. variant_file dir v \<noteq> None) \<and> (\<forall>p e. fs s p \<noteq> Some (Inl e))"
  then have wf: "\<forall>v \<in> set variants. variant_file dir v \<noteq> None" and rd: "\<And>p e. fs s p \<noteq> Some (Inl e)"
    by blast+
  from upload_variants_to_book_ok [OF nofail wf rd, of base token course_id module_title username password]
  show "\<exists>s'. upload_variants_to_book P base token course_id module_title variants dir username password s
                     = (Inr (), s')
               \<and> created_pages base (trace s') =
                   created_pages base (trace s)
                   @ map (\<lambda>v. (Some (FText (fst (page_of P (fs s) dir module_title v))),
                               Some (FStr (snd (page_of P (fs s) dir module_title v)))))
                       (filter (file_present (fs s) dir) variants)
               \<and> skipped_files (trace s') =
                   skipped_files (trace s)
                   @ List.map_filter (variant_file dir) (filter (\<lambda>v. \<not> file_present (fs s) dir v) variants)"
    unfolding advances_def by blast
next
  fix tok s1 s2 entries s3 selected s4
  assume h: "resolve_token P a st = (Inr tok, s1) \<and> \<not> arg_get_token a
             \<and> validate_token P (arg_url a) tok s1 = (Inr (), s2)
             \<and> load_manifest P (Path (arg_manifest a)) s2 = (Inr entries, s3) \<and> entries \<noteq> []
             \<and> select_course a entries s3 = (Inr selected, s4)
             \<and> (\<forall>v \<in> set selected. publishable (Parent (Parent (Path (arg_manifest a)))) v)
             \<and> course_service_ok P (arg_url a) \<and> metadata_ok P (fs s3)
             \<and> (\<forall>p e. fs s3 p \<noteq> Some (Inl e))"
  from h have t: "resolve_token P a st = (Inr tok, s1)" and g: "\<not> arg_get_token a"
    and v: "validate_token P (arg_url a) tok s1 = (Inr (), s2)"
    and l: "load_manifest P (Path (arg_manifest a)) s2 = (Inr entries, s3)" and ne: "entries \<noteq> []"
    and f: "select_course a entries s3 = (Inr selected, s4)"
    and pub: "\<forall>v \<in> set selected. publishable (Parent (Parent (Path (arg_manifest a)))) v"
    and svc: "course_service_ok P (arg_url a)" and meta: "metadata_ok P (fs s3)"
    and rd: "\<And>p e. fs s3 p \<noteq> Some (Inl e)"
    by blast+
  show "exit_code (fst (main P a st)) = 0"
    by (rule run_exit_zero [OF t g v l ne f pub nofail svc meta rd])
qed

theorem missing_variant_nonfatal_witness:
  "fst (upload_variants_to_book demo_lms ''http://localhost:8080'' ''explicit'' (JNum 8) (YStr ''m1'')
          demo_ledger demo_dir ''admin'' ''secret'' (initially () demo_files)) = Inr ()
   \<and> skipped_files (trace (snd (upload_variants_to_book demo_lms ''http://localhost:8080'' ''explicit'' (JNum 8)
          (YStr ''m1'') demo_ledger demo_dir ''admin'' ''secret'' (initially () demo_files))))
       = [Join demo_dir (Path ''variants/m1/executive-en-US.md'')]
   \<and> created_pages ''http://localhost:8080'' (trace (snd (upload_variants_to_book demo_lms ''http://localhost:8080''
          ''explicit'' (JNum 8) (YStr ''m1'') demo_ledger demo_dir ''admin'' ''secret'' (initially () demo_files))))
       = [(Some (FText (page_title_of (YStr ''m1'') (YStr ''developer'') (YStr ''en-US''))), Some (FStr ''Body one'')),
          (Some (FText (page_title_of (YStr ''m1'') (YStr ''champion'') (YStr ''en-US''))), Some (FStr ''Body three''))]
   \<and> exit_code (fst (main demo_lms demo_args (initially () demo_files))) = 0"
proof -
  let ?S = "initially () demo_files"
  let ?u = "upload_variants_to_book demo_lms ''http://localhost:8080'' ''explicit'' (JNum 8) (YStr ''m1'')
          demo_ledger demo_dir ''admin'' ''secret'' ?S"
  have fsS: "fs ?S = demo_files" and trS: "trace ?S = []" by (simp_all add: initially_def)
  have h1: "(\<forall>v \<in> set demo_ledger. variant_file demo_dir v \<noteq> None) \<and> (\<forall>p e. fs ?S p \<noteq> Some (Inl e))"
    using demo_wf demo_readable by (simp add: fsS)
  have pages: "map (\<lambda>v. (Some (FText (fst (page_of demo_lms demo_files demo_dir (YStr ''m1'') v))),
                         Some (FStr (snd (page_of demo_lms demo_files demo_dir (YStr ''m1'') v)))))
                 (filter (file_present demo_files demo_dir) demo_ledger)
         = [(Some (FText (page_title_of (YStr ''m1'') (YStr ''developer'') (YStr ''en-US''))), Some (FStr ''Body one'')),
            (Some (FText (page_title_of (YStr ''m1'') (YStr ''champion'') (YStr ''en-US''))), Some (FStr ''Body three''))]"
    by code_simp
  have skips: "List.map_filter (variant_file demo_dir) (filter (\<lambda>v. \<not> file_present demo_files demo_dir v) demo_ledger)
         = [Join demo_dir (Path ''variants/m1/executive-en-US.md'')]"
    by code_simp
  from missing_variant_nonfatal [OF demo_nofail, where variants = demo_ledger and dir = demo_dir and s = ?S
      and base = "''http://localhost:8080''" and token = "''explicit''" and course_id = "JNum 8"
      and module_title = "YStr ''m1''" and username = "''admin''" and password = "''secret''",
      THEN conjunct1] h1
  obtain s' where u: "?u = (Inr (), s')"
    and cp: "created_pages ''http://localhost:8080'' (trace s') =
               created_pages ''http://localhost:8080'' (trace ?S)
               @ map (\<lambda>v. (Some (FText (fst (page_of demo_lms (fs ?S) demo_dir (YStr ''m1'') v))),
                           Some (FStr (snd (page_of demo_lms (fs ?S) demo_dir (YStr ''m1'') v)))))
                   (filter (file_present (fs ?S) demo_dir) demo_ledger)"
    and sk: "skipped_files (trace s') =
               skipped_files (trace ?S)
               @ List.map_filter (variant_file demo_dir) (filter (\<lambda>v. \<not> file_present (fs ?S) demo_dir v) demo_ledger)"
    by blast
  have a: "fst ?u = Inr ()" unfolding u by simp
  have b: "skipped_files (trace (snd ?u)) = [Join demo_dir (Path ''variants/m1/executive-en-US.md'')]"
    unfolding u using sk by (simp add: fsS trS skips)
  have c: "created_pages ''http://localhost:8080'' (trace (snd ?u))
       = [(Some (FText (page_title_of (YStr ''m1'') (YStr ''developer'') (YStr ''en-US''))), Some (FStr ''Body one'')),
          (Some (FText (page_title_of (YStr ''m1'') (YStr ''champion'') (YStr ''en-US''))), Some (FStr ''Body three''))]"
    unfolding u using cp by (simp add: fsS trS pages)
  let ?s2 = "snd (validate_token demo_lms (arg_url demo_args) ''explicit'' ?S)"
  let ?s3 = "snd (load_manifest demo_lms (Path (arg_manifest demo_args)) ?s2)"
  have g: "\<not> arg_get_token demo_args" by (simp add: demo_args_def)
  have fs2: "fs ?s2 = demo_files" by (simp add: fs_validate_token fsS)
  have fs3: "fs ?s3 = demo_files" by (simp add: fs_load_manifest fs2)
  have am: "arg_manifest demo_args = ''variants/manifest.yaml''" by (simp add: demo_args_def)
  have mf: "fs ?s2 (Path (arg_manifest demo_args)) = Some (Inr ''ledger'')"
    unfolding fs2 am by (simp add: demo_files_def)
  have yl: "yaml_safe_load demo_lms ''ledger'' = Inr (YList demo_ledger)" by (simp add: demo_lms_def)
  have "fst (load_manifest demo_lms (Path (arg_manifest demo_args)) ?s2) = Inr demo_ledger"
    unfolding load_manifest_found [OF mf yl] by simp
  then have l: "load_manifest demo_lms (Path (arg_manifest demo_args)) ?s2 = (Inr demo_ledger, ?s3)"
    by (simp add: prod_eq_iff)
  have ne: "demo_ledger \<noteq> []" by (simp add: demo_ledger_def)
  have f: "select_course demo_args demo_ledger ?s3 = (Inr demo_ledger, ?s3)"
    by (simp add: select_course_def demo_args_def ret_def)
  have pub: "\<forall>v \<in> set demo_ledger. publishable (Parent (Parent (Path (arg_manifest demo_args)))) v"
    using demo_publishable by (simp add: demo_dir_def demo_args_def)
  have "resolve_token demo_lms demo_args ?S = (Inr ''explicit'', ?S) \<and> \<not> arg_get_token demo_args
             \<and> validate_token demo_lms (arg_url demo_args) ''explicit'' ?S = (Inr (), ?s2)
             \<and> load_manifest demo_lms (Path (arg_manifest demo_args)) ?s2 = (Inr demo_ledger, ?s3) \<and> demo_ledger \<noteq> []
             \<and> select_course demo_args demo_ledger ?s3 = (Inr demo_ledger, ?s3)
             \<and> (\<forall>v \<in> set demo_ledger. publishable (Parent (Parent (Path (arg_manifest demo_args)))) v)
             \<and> course_service_ok demo_lms (arg_url demo_args) \<and> metadata_ok demo_lms (fs ?s3)
             \<and> (\<forall>p e. fs ?s3 p \<noteq> Some (Inl e))"
    using demo_resolve g demo_validate l ne f pub demo_service demo_metadata demo_readable
    by (simp add: fs3)
  with missing_variant_nonfatal [OF demo_nofail, where a = demo_args and st = ?S, THEN conjunct2]
  have d: "exit_code (fst (main demo_lms demo_args ?S)) = 0" by blast
  from a b c d show ?thesis by blast
qed

text \<open>
  Claim C2, as stated, fails: a run that creates two pages opens two sessions and logs
  in twice.
\<close>

theorem one_session_per_run_fails:
  "opened_sessions (trace (snd (main demo_lms demo_args (initially () demo_files)))) = [0, 1]
   \<and> length (logins ''http://localhost:8080'' (trace (snd (main demo_lms demo_args (initially () demo_files))))) = 2"
  by code_simp



text \<open>
  Claim C2, amended. Every page creation opens a session of its own and performs the
  login sequence in it (fetch the login page, scrape the token, post the credentials)
  before it fetches the add-page form and posts the page. So publishing the variants of
  a module opens as many sessions, and logs in as many times, as it creates pages.
\<close>

theorem session_per_page:
  "(http P (remote s) \<lparr>meth = GET, url = login_url base, via = Some (sessions s), query = [], form = []\<rparr>
        = (Reply sta login_page, wa)
    \<and> http P wa \<lparr>meth = POST, url = login_url base, via = Some (sessions s), query = [],
                  form = login_form username password (scrape ''name=\"logintoken\" value=\"'' login_page)\<rparr>
        = (Reply stb bb, wb)
    \<and> http P wb \<lparr>meth = GET, url = modedit_url base, via = Some (sessions s),
                  query = [(''add'', FStr ''page''), (''type'', FStr []),
                           (''course'', FVal course_id), (''section'', FInt 0)], form = []\<rparr>
        = (Reply stc add_page, wc)
    \<and> http P wc \<lparr>meth = POST, url = modedit_url base, via = Some (sessions s), query = [],
                  form = page_form (scrape ''\"sesskey\":\"'' add_page) course_id page_title html\<rparr>
        = (Reply std bd, wd) \<longrightarrow>
      create_page_resource P base course_id page_title html username password s =
        (Inr (),
         s\<lparr>remote := wd, sessions := sessions s + 1,
           trace := trace s @
             [OpenSession (sessions s),
              Http \<lparr>meth = GET, url = login_url base, via = Some (sessions s), query = [], form = []\<rparr>,
              Http \<lparr>meth = POST, url = login_url base, via = Some (sessions s), query = [],
                    form = login_form username password (scrape ''name=\"logintoken\" value=\"'' login_page)\<rparr>,
              Http \<lparr>meth = GET, url = modedit_url base, via = Some (sessions s),
                    query = [(''add'', FStr ''page''), (''type'', FStr []),
                             (''course'', FVal course_id), (''section'', FInt 0)], form = []\<rparr>,
              Http \<lparr>meth = POST, url = modedit_url base, via = Some (sessions s), query = [],
                    form = page_form (scrape ''\"sesskey\":\"'' add_page) course_id page_title html\<rparr>]\<rparr>))
   \<and> ((\<forall>w r. fst (http P w r) \<noteq> Failed) \<and> (\<forall>v \<in> set variants. variant_file dir v \<noteq> None)
       \<and> (\<forall>p e. fs s p \<noteq> Some (Inl e)) \<longrightarrow>
        (\<exists>s'. upload_variants_to_book P base token course_id module_title variants dir username password s
                 = (Inr (), s')
           \<and> opened_sessions (trace s') =
               opened_sessions (trace s)
               @ [sessions s ..< sessions s + length (filter (file_present (fs s) dir) variants)]
           \<and> length (logins base (trace s')) =
               length (logins base (trace s)) + length (filter (file_present (fs s) dir) variants)))"
proof (intro conjI impI)
  assume "http P (remote s) \<lparr>meth = GET, url = login_url base, via = Some (sessions s), query = [], form = []\<rparr>
        = (Reply sta login_page, wa)
    \<and> http P wa \<lparr>meth = POST, url = login_url base, via = Some (sessions s), query = [],
                  form = login_form username password (scrape ''name=\"logintoken\" value=\"'' login_page)\<rparr>
        = (Reply stb bb, wb)
    \<and> http P wb \<lparr>meth = GET, url = modedit_url base, via = Some (sessions s),
                  query = [(''add'', FStr ''page''), (''type'', FStr []),
                           (''course'', FVal course_id), (''section'', FInt 0)], form = []\<rparr>
        = (Reply stc add_page, wc)
    \<and> http P wc \<lparr>meth = POST, url = modedit_url base, via = Some (sessions s), query = [],
                  form = page_form (scrape ''\"sesskey\":\"'' add_page) course_id page_title html\<rparr>
        = (Reply std bd, wd)"
  then show "create_page_resource P base course_id page_title html username password s =
        (Inr (),
         s\<lparr>remote := wd, sessions := sessions s + 1,
           trace := trace s @
             [OpenSession (sessions s),
              Http \<lparr>meth = GET, url = login_url base, via = Some (sessions s), query = [], form = []\<rparr>,
              Http \<lparr>meth = POST, url = login_url base, via = Some (sessions s), query = [],
                    form = login_form username password (scrape ''name=\"logintoken\" value=\"'' login_page)\<rparr>,
              Http \<lparr>meth = GET, url = modedit_url base, via = Some (sessions s),
                    query = [(''add'', FStr ''page''), (''type'', FStr []),
                             (''course'', FVal course_id), (''section'', FInt 0)], form = []\<rparr>,
              Http \<lparr>meth = POST, url = modedit_url base, via = Some (sessions s), query = [],
                    form = page_form (scrape ''\"sesskey\":\"'' add_page) course_id page_title html\<rparr>]\<rparr>)"
    by (intro create_page_resource_replies) blast+
next
  assume h: "(\<forall>w r. fst (http P w r) \<noteq> Failed) \<and> (\<forall>v \<in> set variants. variant_file dir v \<noteq> None)
       \<and> (\<forall>p e. fs s p \<noteq> Some (Inl e))"
  then have nofail: "\<And>w r. fst (http P w r) \<noteq> Failed"
    and wf: "\<forall>v \<in> set variants. variant_file dir v \<noteq> None" and rd: "\<And>p e. fs s p \<noteq> Some (Inl e)"
    by blast+
  from upload_variants_to_book_ok [OF nofail wf rd, of base token course_id module_title username password]
  show "\<exists>s'. upload_variants_to_book P base token course_id module_title variants dir username password s
                 = (Inr (), s')
           \<and> opened_sessions (trace s') =
               opened_sessions (trace s)
               @ [sessions s ..< sessions s + length (filter (file_present (fs s) dir) variants)]
           \<and> length (logins base (trace s')) =
               length (logins base (trace s)) + length (filter (file_present (fs s) dir) variants)"
    unfolding advances_def by auto
qed

theorem session_per_page_witness:
  "opened_sessions (trace (snd (create_page_resource demo_lms ''http://localhost:8080'' (JNum 8)
        [Lit ''Title''] ''<p>Body</p>'' ''admin'' ''secret'' (initially () demo_files)))) = [0]
   \<and> map meth (requests_of (trace (snd (create_page_resource demo_lms ''http://localhost:8080'' (JNum 8)
        [Lit ''Title''] ''<p>Body</p>'' ''admin'' ''secret'' (initially () demo_files))))) = [GET, POST, GET, POST]
   \<and> opened_sessions (trace (snd (upload_variants_to_book demo_lms ''http://localhost:8080'' ''explicit'' (JNum 8)
        (YStr ''m1'') demo_ledger demo_dir ''admin'' ''secret'' (initially () demo_files)))) = [0, 1]
   \<and> length (logins ''http://localhost:8080'' (trace (snd (upload_variants_to_book demo_lms ''http://localhost:8080''
        ''explicit'' (JNum 8) (YStr ''m1'') demo_ledger demo_dir ''admin'' ''secret'' (initially () demo_files))))) = 2"
proof -
  let ?S = "initially () demo_files"
  let ?page = "''<input name=\"logintoken\" value=\"tok\"> {\"sesskey\":\"key\"}''"
  let ?c = "create_page_resource demo_lms ''http://localhost:8080'' (JNum 8)
        [Lit ''Title''] ''<p>Body</p>'' ''admin'' ''secret'' ?S"
  let ?u = "upload_variants_to_book demo_lms ''http://localhost:8080'' ''explicit'' (JNum 8) (YStr ''m1'')
          demo_ledger demo_dir ''admin'' ''secret'' ?S"
  have fsS: "fs ?S = demo_files" and trS: "trace ?S = []" and seS: "sessions ?S = 0"
    by (simp_all add: initially_def)
  have r: "\<And>w q. http demo_lms w \<lparr>meth = GET, url = q, via = Some (sessions ?S), query = [], form = []\<rparr>
             = (Reply 200 ?page, ())"
    by (simp add: demo_lms_def)
  have h: "http demo_lms (remote ?S) \<lparr>meth = GET, url = login_url ''http://localhost:8080'', via = Some (sessions ?S), query = [], form = []\<rparr>
        = (Reply 200 ?page, ())
    \<and> http demo_lms () \<lparr>meth = POST, url = login_url ''http://localhost:8080'', via = Some (sessions ?S), query = [],
                  form = login_form ''admin'' ''secret'' (scrape ''name=\"logintoken\" value=\"'' ?page)\<rparr>
        = (Reply 200 ?page, ())
    \<and> http demo_lms () \<lparr>meth = GET, url = modedit_url ''http://localhost:8080'', via = Some (sessions ?S),
                  query = [(''add'', FStr ''page''), (''type'', FStr []),
                           (''course'', FVal (JNum 8)), (''section'', FInt 0)], form = []\<rparr>
        = (Reply 200 ?page, ())
    \<and> http demo_lms () \<lparr>meth = POST, url = modedit_url ''http://localhost:8080'', via = Some (sessions ?S), query = [],
                  form = page_form (scrape ''\"sesskey\":\"'' ?page) (JNum 8) [Lit ''Title''] ''<p>Body</p>''\<rparr>
        = (Reply 200 ?page, ())"
    by (simp add: demo_lms_def login_form_def page_form_def)
  from session_per_page [where P = demo_lms and s = ?S and base = "''http://localhost:8080''"
      and sta = 200 and login_page = ?page and wa = "()" and username = "''admin''" and password = "''secret''"
      and stb = 200 and bb = ?page and wb = "()" and course_id = "JNum 8" and stc = 200 and add_page = ?page
      and wc = "()" and page_title = "[Lit ''Title'']" and html = "''<p>Body</p>''" and std = 200
      and bd = ?page and wd = "()", THEN conjunct1] h
  have c: "?c = (Inr (),
         ?S\<lparr>remote := (), sessions := sessions ?S + 1,
           trace := trace ?S @
             [OpenSession (sessions ?S),
              Http \<lparr>meth = GET, url = login_url ''http://localhost:8080'', via = Some (sessions ?S), query = [], form = []\<rparr>,
              Http \<lparr>meth = POST, url = login_url ''http://localhost:8080'', via = Some (sessions ?S), query = [],
                    form = login_form ''admin'' ''secret'' (scrape ''name=\"logintoken\" value=\"'' ?page)\<rparr>,
              Http \<lparr>meth = GET, url = modedit_url ''http://localhost:8080'', via = Some (sessions ?S),
                    query = [(''add'', FStr ''page''), (''type'', FStr []),
                             (''course'', FVal (JNum 8)), (''section'', FInt 0)], form = []\<rparr>,
              Http \<lparr>meth = POST, url = modedit_url ''http://localhost:8080'', via = Some (sessions ?S), query = [],
                    form = page_form (scrape ''\"sesskey\":\"'' ?page) (JNum 8) [Lit ''Title''] ''<p>Body</p>''\<rparr>]\<rparr>)"
    by blast
  have a: "opened_sessions (trace (snd ?c)) = [0]
           \<and> map meth (requests_of (trace (snd ?c))) = [GET, POST, GET, POST]"
    unfolding c by (simp add: trS seS requests_of_def)
  have n: "length (filter (file_present demo_files demo_dir) demo_ledger) = 2" by code_simp
  have h2: "(\<forall>w r. fst (http demo_lms w r) \<noteq> Failed) \<and> (\<forall>v \<in> set demo_ledger. variant_file demo_dir v \<noteq> None)
       \<and> (\<forall>p e. fs ?S p \<noteq> Some (Inl e))"
    using demo_nofail demo_wf demo_readable by (simp add: fsS)
  from session_per_page [where P = demo_lms and s = ?S and base = "''http://localhost:8080''"
      and variants = demo_ledger and dir = demo_dir and token = "''explicit''" and course_id = "JNum 8"
      and module_title = "YStr ''m1''" and username = "''admin''" and password = "''secret''",
      THEN conjunct2] h2
  obtain s' where u: "?u = (Inr (), s')"
    and os: "opened_sessions (trace s') =
               opened_sessions (trace ?S)
               @ [sessions ?S ..< sessions ?S + length (filter (file_present (fs ?S) demo_dir) demo_ledger)]"
    and lg: "length (logins ''http://localhost:8080'' (trace s')) =
               length (logins ''http://localhost:8080'' (trace ?S)) + length (filter (file_present (fs ?S) demo_dir) demo_ledger)"
    by blast
  have b: "opened_sessions (trace (snd ?u)) = [0, 1]"
    unfolding u using os by (simp add: fsS trS seS n upt_rec)
  have d: "length (logins ''http://localhost:8080'' (trace (snd ?u))) = 2"
    unfolding u using lg by (simp add: fsS trS n)
  from a b d show ?thesis by blast
qed

end
